theory Spec2Isabelle
  imports Main "HOL-Library.Word"
begin

unbundle bit_operations_syntax

section \<open>Data model\<close>

text \<open>
  Addresses are \<^verbatim>\<open>uint64_t\<close>; address arithmetic wraps around modulo \<open>2 ^ 64\<close>.
  The bytes of an instruction are kept as 8-bit words.
\<close>

type_synonym addr = "64 word"
type_synonym byte = "8 word"

text \<open>
  The two scoped enumerations of a byte query result. Both have an enumerator
  \<^verbatim>\<open>kUnknown\<close>, so the constructors carry the name of their enumeration.
\<close>

datatype ByteAvailability =
    ByteAvailability_kUnknown
  | ByteAvailability_kUnavailable
  | ByteAvailability_kAvailable

datatype BytePermission =
    BytePermission_kUnknown
  | BytePermission_kReadable
  | BytePermission_kReadableWritable
  | BytePermission_kReadableExecutable
  | BytePermission_kReadableWritableExecutable

type_synonym byte_query = "byte \<times> ByteAvailability \<times> BytePermission"

text \<open>The instruction categories on which \<^verbatim>\<open>VisitInstruction\<close> dispatches.\<close>

datatype Category =
    kCategoryInvalid
  | kCategoryError
  | kCategoryNormal
  | kCategoryNoOp
  | kCategoryDirectJump
  | kCategoryIndirectJump
  | kCategoryConditionalIndirectJump
  | kCategoryFunctionReturn
  | kCategoryConditionalFunctionReturn
  | kCategoryDirectFunctionCall
  | kCategoryConditionalDirectFunctionCall
  | kCategoryIndirectFunctionCall
  | kCategoryConditionalIndirectFunctionCall
  | kCategoryConditionalBranch
  | kCategoryAsyncHyperCall
  | kCategoryConditionalAsyncHyperCall

text \<open>The fields of a decoded instruction that the function lifter reads.\<close>

record Instruction =
  pc :: addr
  next_pc :: addr
  delayed_pc :: addr
  branch_taken_pc :: addr
  branch_not_taken_pc :: addr
  category :: Category
  bytes :: "byte list"

text \<open>
  The decoder library decides validity from the category: an instruction is valid unless
  its category is \<open>kCategoryInvalid\<close>, and it is an error when its category is
  \<open>kCategoryError\<close>.
\<close>

definition IsValid :: "Instruction \<Rightarrow> bool" where
  "IsValid inst = (category inst \<noteq> kCategoryInvalid)"

definition IsError :: "Instruction \<Rightarrow> bool" where
  "IsError inst = (category inst = kCategoryError)"

text \<open>
  The part of the IR type language that the lifter inspects or builds: integer types of
  a given width, pointer types, function types (return type and parameter types), and
  everything else by name.
\<close>

datatype llvm_type =
    IntegerTy nat
  | PointerTy llvm_type
  | FunctionTy llvm_type "llvm_type list"
  | NamedTy string

fun isIntegerTy :: "llvm_type \<Rightarrow> nat \<Rightarrow> bool" where
  "isIntegerTy (IntegerTy w) n = (w = n)"
| "isIntegerTy _ n = False"

fun isPointerTy :: "llvm_type \<Rightarrow> bool" where
  "isPointerTy (PointerTy _) = True"
| "isPointerTy _ = False"

text \<open>
  A register of the architecture. \<open>EnclosingRegister\<close> names the widest register that
  contains this one; a top-level register encloses itself, which the source tests by
  comparing the two register pointers.
\<close>

record Register =
  name :: string
  type :: llvm_type
  EnclosingRegister :: string

text \<open>
  A function declaration. The lifter reads its address, its function type and its
  calling convention; the parameter and return locations are used only by code that
  marshals values and are not part of the record here.
\<close>

record FunctionDecl =
  address :: addr
  decl_type :: llvm_type
  calling_convention :: nat

text \<open>
  The architecture handle. The decoders fill an instruction record from a byte buffer and
  report success; the record they leave behind is read even after a failed decode of a
  delay slot, so both are returned.
\<close>

record Arch =
  MaxInstructionSize :: nat
  DecodeInstruction :: "addr \<Rightarrow> byte list \<Rightarrow> bool \<times> Instruction"
  DecodeDelayedInstruction :: "addr \<Rightarrow> byte list \<Rightarrow> bool \<times> Instruction"
  MayHaveDelaySlot :: "Instruction \<Rightarrow> bool"
  NextInstructionIsDelayed :: "Instruction \<Rightarrow> Instruction \<Rightarrow> bool \<Rightarrow> bool"
  IsSPARC32 :: bool
  IsSPARC64 :: bool
  address_size :: nat
  RegisterByName :: "string \<Rightarrow> Register option"
  ForEachRegister :: "Register list"
  StackPointerRegisterName :: string

record LifterOptions =
  arch :: Arch
  GetRedirection :: "addr \<Rightarrow> addr"
  symbolic_register_types :: bool
  store_inferred_register_values :: bool
  symbolic_stack_pointer :: bool
  symbolic_program_counter :: bool

text \<open>
  Everything a \<^verbatim>\<open>FunctionLifter\<close> is constructed with and never changes: its options,
  the memory provider, the type provider, and the two command-line flags.
  \<open>QueryRegisterStateAtInstruction\<close> gives, for a function address and an instruction
  address, the hints on which the type provider calls the visitor, in order.

  The last five fields are functions that the lifter calls and whose definitions are in
  headers and files outside the lifter: the three static helpers of the memory provider
  (on an availability or on a permission), the type printer, and the construction of a
  \<open>FunctionDecl\<close> from a declared function (from its type and calling convention; it can
  fail). They are parameters of the model.
\<close>

record Env =
  options :: LifterOptions
  Query :: "addr \<Rightarrow> byte_query"
  TryGetFunctionType :: "addr \<Rightarrow> FunctionDecl option"
  QueryRegisterStateAtInstruction ::
    "addr \<Rightarrow> addr \<Rightarrow> (string \<times> llvm_type \<times> addr option) list"
  FLAGS_print_registers_before_instuctions :: bool
  FLAGS_add_breakpoints :: bool
  IsValidAddress :: "ByteAvailability \<Rightarrow> bool"
  IsExecutable :: "BytePermission \<Rightarrow> bool"
  HasByte :: "ByteAvailability \<Rightarrow> bool"
  TranslateType :: "llvm_type \<Rightarrow> string"
  FunctionDecl_Create :: "llvm_type \<Rightarrow> nat \<Rightarrow> FunctionDecl option"

definition is_sparc :: "Env \<Rightarrow> bool" where
  "is_sparc env = (IsSPARC32 (arch (options env)) \<or> IsSPARC64 (arch (options env)))"

section \<open>Reading the bytes of an instruction\<close>

text \<open>
  The lambda \<^verbatim>\<open>accumulate_inst_byte\<close> of \<^verbatim>\<open>DecodeInstructionInto\<close>: it appends the byte to
  the instruction's buffer and answers \<open>True\<close>, or leaves the buffer alone and answers
  \<open>False\<close>. The \<^verbatim>\<open>default\<close> label of the outer switch is the remaining enumerator
  \<open>ByteAvailability_kAvailable\<close>.
\<close>

definition accumulate_inst_byte :: "byte list \<Rightarrow> byte_query \<Rightarrow> bool \<times> byte list" where
  "accumulate_inst_byte bs q =
     (case q of (b, accessible, perms) \<Rightarrow>
        (case accessible of
           ByteAvailability_kUnknown \<Rightarrow> (False, bs)
         | ByteAvailability_kUnavailable \<Rightarrow> (False, bs)
         | ByteAvailability_kAvailable \<Rightarrow>
             (case perms of
                BytePermission_kUnknown \<Rightarrow> (True, bs @ [b])
              | BytePermission_kReadableExecutable \<Rightarrow> (True, bs @ [b])
              | BytePermission_kReadableWritableExecutable \<Rightarrow> (True, bs @ [b])
              | BytePermission_kReadable \<Rightarrow> (False, bs)
              | BytePermission_kReadableWritable \<Rightarrow> (False, bs))))"

text \<open>
  The \<^verbatim>\<open>for\<close> loop of \<^verbatim>\<open>DecodeInstructionInto\<close>, from counter \<open>i\<close> on, with the
  \<^verbatim>\<open>break\<close> as the branch that returns the buffer. The counter is an \<^verbatim>\<open>unsigned\<close>
  that is added to the 64-bit address; the maximum instruction size of an architecture
  is 15 or 4, far below the range of the counter.
\<close>

function read_inst_bytes :: "(addr \<Rightarrow> byte_query) \<Rightarrow> nat \<Rightarrow> addr \<Rightarrow> nat \<Rightarrow> byte list \<Rightarrow> byte list" where
  "read_inst_bytes query max_inst_size a i bs =
     (if i < max_inst_size then
        (let r = accumulate_inst_byte bs (query (a + of_nat i))
         in if fst r then read_inst_bytes query max_inst_size a (Suc i) (snd r) else snd r)
      else bs)"
  by pat_completeness auto
termination
  by (relation "measure (\<lambda>(query, max_inst_size, a, i, bs). max_inst_size - i)") auto

section \<open>Target resolution\<close>

text \<open>\<^verbatim>\<open>TryGetTargetFunctionType\<close>, statement by statement.\<close>

definition TryGetTargetFunctionType :: "Env \<Rightarrow> addr \<Rightarrow> FunctionDecl option" where
  "TryGetTargetFunctionType env a =
     (let redirected_addr = GetRedirection (options env) a;
          opt_function_decl = TryGetFunctionType env redirected_addr;
          opt_function_decl =
            (if opt_function_decl = None \<and> redirected_addr \<noteq> a
             then TryGetFunctionType env a else opt_function_decl)
      in case opt_function_decl of
           None \<Rightarrow> None
         | Some function_decl \<Rightarrow> Some (function_decl\<lparr>address := redirected_addr\<rparr>))"

section \<open>The IR under construction\<close>

text \<open>
  Values of the IR. A basic block is identified by a number (the model's stand-in for the
  \<^verbatim>\<open>llvm::BasicBlock *\<close>), and an instruction by its block and its position in it, so
  \<open>InstRef b i\<close> is both the pointer to that instruction and the value it computes.
  \<open>Nullptr\<close> is the null \<^verbatim>\<open>llvm::Value *\<close>. \<open>RegAddress sp r\<close> is the address of
  register \<open>r\<close> in the state structure \<open>sp\<close>, as \<^verbatim>\<open>LoadRegAddress\<close> gives it, and
  \<open>VarRef v\<close> the address of a local variable of the lifted function.
\<close>

datatype llvm_value =
    Nullptr
  | Argument nat
  | UndefValue
  | ConstantInt llvm_type addr
  | InstRef nat nat
  | RegAddress llvm_value string
  | VarRef string
  | GlobalRef string
  | ConstantExprPtrToInt llvm_value llvm_type
  | ConstantExprAdd llvm_value llvm_value

text \<open>
  Instructions. \<open>CallInst f args tail\<close> calls the function named \<open>f\<close>; \<open>tail\<close> is the
  tail-call marker. \<open>CondBranchInst t f c\<close> has its operands in the order of
  \<^verbatim>\<open>BranchInst::Create(taken, not_taken, cond, block)\<close>. Three instructions stand for IR
  that other components emit as a unit: \<open>LiftIntoBlock\<close> for the semantics of one machine
  instruction (with the state pointer and the delay-slot flag), \<open>CallFromLiftedBlock\<close>
  for the marshalled call of a native function from lifted code, and
  \<open>ClonedBasicBlock\<close> for the body cloned from the basic-block prototype. In a native
  wrapper, \<open>MarshalNativeState sp\<close> stands for the initialisation of the state structure
  \<open>sp\<close>, of the stack pointer and of the return address and for the stores of the
  parameters, and yields the memory pointer; \<open>ReturnNativeValue\<close> stands for the loads of
  the return values and the return.
\<close>

datatype llvm_inst =
    LoadInst llvm_value
  | StoreInst llvm_value llvm_value
  | CallInst string "llvm_value list" bool
  | ReturnInst llvm_value
  | ReturnVoid
  | BranchInst nat
  | CondBranchInst nat nat llvm_value
  | AddInst llvm_value llvm_value
  | ICmpEqInst llvm_value llvm_value
  | PtrToIntInst llvm_value llvm_type
  | LiftIntoBlock Instruction llvm_value bool
  | CallFromLiftedBlock string llvm_value llvm_value
  | ClonedBasicBlock
  | AllocaInst llvm_type
  | MarshalNativeState llvm_value
  | ReturnNativeValue llvm_value llvm_value

datatype Attribute = NoInline | AlwaysInline | InlineHint | ReadNone | OptimizeNone

datatype Linkage = ExternalLinkage | InternalLinkage

text \<open>
  A function of the semantics module: its type, the numbers of its basic blocks in
  order (none for a declaration), its attributes, linkage and calling convention.
\<close>

record llvm_function =
  function_type :: llvm_type
  blocks :: "nat list"
  fn_attrs :: "Attribute set"
  linkage :: Linkage
  calling_conv :: nat

definition isDeclaration :: "llvm_function \<Rightarrow> bool" where
  "isDeclaration f = (blocks f = [])"

text \<open>Constants of the decoder library's calling interface and of the ABI header.\<close>

definition kStatePointerArgNum :: nat where "kStatePointerArgNum = 0"
definition kPCArgNum :: nat where "kPCArgNum = 1"
definition kMemoryPointerArgNum :: nat where "kMemoryPointerArgNum = 2"

definition kPCVariableName :: string where "kPCVariableName = ''PC''"
definition kNextPCVariableName :: string where "kNextPCVariableName = ''NEXT_PC''"
definition kReturnPCVariableName :: string where "kReturnPCVariableName = ''RETURN_PC''"
definition kBranchTakenVariableName :: string where "kBranchTakenVariableName = ''BRANCH_TAKEN''"
definition kMemoryVariableName :: string where "kMemoryVariableName = ''MEMORY''"

definition intrinsics_error :: string where "intrinsics_error = ''__remill_error''"
definition intrinsics_jump :: string where "intrinsics_jump = ''__remill_jump''"
definition intrinsics_function_call :: string where
  "intrinsics_function_call = ''__remill_function_call''"
definition intrinsics_function_return :: string where
  "intrinsics_function_return = ''__remill_function_return''"
definition intrinsics_async_hyper_call :: string where
  "intrinsics_async_hyper_call = ''__remill_async_hyper_call''"

text \<open>
  Modelled from the spec: the value of \<^verbatim>\<open>kTypeHintFunctionPrefix\<close> is declared in the ABI
  header, which is not part of the sources at hand. The specification gives the name of a
  type-hint function as \<^verbatim>\<open>__anvill_type_<goal-type-mangled>\<close>.
\<close>

definition kTypeHintFunctionPrefix :: string where
  "kTypeHintFunctionPrefix = ''__anvill_type_''"

text \<open>
  Modelled from the spec: the names of the memory-escape function and of the symbolic
  program counter are declared in the same header. The specification lists
  \<^verbatim>\<open>__anvill_pc\<close> among the sentinel globals and describes the memory-escape function as
  a declared-external sink of one argument.
\<close>

definition kMemoryPointerEscapeFunction :: string where
  "kMemoryPointerEscapeFunction = ''__anvill_memory_escape''"

definition kSymbolicPCName :: string where
  "kSymbolicPCName = ''__anvill_pc''"

section \<open>The state of a function lifter\<close>

text \<open>
  The mutable members of \<^verbatim>\<open>FunctionLifter\<close>, and the objects they point to: the
  semantics module as a map from function names to functions, and the store of basic
  blocks, \<open>block_store\<close>, a map from block numbers to the instructions of the block, with
  \<open>block_parent\<close> for \<^verbatim>\<open>getParent()\<close> and \<open>next_block\<close> the next unused number.
  A pointer to a function is the function's name; a null pointer is \<open>None\<close>.

  Modelled from the spec: the member declarations are in the lifter's header, which is
  not part of the sources at hand. The specification describes the work list as a set
  of pairs \<open>(inst_addr, from_addr)\<close> that rejects duplicates; it is kept here as a
  strictly increasing list, whose head is what \<^verbatim>\<open>begin()\<close> of an ordered set gives.

  The last field, \<open>max_inst_size\<close>, is not a member: it is the function-local static of
  \<^verbatim>\<open>DecodeInstructionInto\<close>, \<open>None\<close> as long as no call has initialised it. It belongs
  to the process, so a lifter that is constructed later in the same process starts with
  the value that the lifters before it have left.
\<close>

record lifter =
  edge_to_dest_block :: "(addr \<times> addr) \<rightharpoonup> nat"
  edge_work_list :: "(addr \<times> addr) list"
  addr_to_block :: "addr \<rightharpoonup> nat"
  addr_to_decl :: "addr \<rightharpoonup> FunctionDecl"
  addr_to_func :: "addr \<rightharpoonup> string"
  func_name_to_address :: "string \<rightharpoonup> addr"
  curr_inst :: "Instruction option"
  state_ptr :: llvm_value
  func_address :: addr
  native_func :: "string option"
  lifted_func :: "string option"
  log_printf :: "string option"
  semantics_module :: "string \<rightharpoonup> llvm_function"
  block_store :: "nat \<Rightarrow> llvm_inst list"
  block_parent :: "nat \<rightharpoonup> string"
  next_block :: nat
  max_inst_size :: "nat option"

text \<open>
  What stops a call other than a return: a failed \<^verbatim>\<open>CHECK\<close>, the dereference of a null
  pointer, and, for the model only, the exhaustion of the bound on the iterations of the
  work-list loop.
\<close>

datatype failure = CheckFailed | NullDereference | OutOfFuel

subsection \<open>Decoding one instruction\<close>

text \<open>
  \<^verbatim>\<open>DecodeInstructionInto\<close>: reset the instruction, read its bytes, and hand the buffer
  to the normal or to the delayed decoder. The bound of the byte loop is the
  function-local static \<^verbatim>\<open>max_inst_size\<close>: the first call in the process initialises it
  from the architecture of the lifter that makes the call, and every later call, of any
  lifter, reads the value that is there.
\<close>

definition DecodeInstructionInto ::
  "Env \<Rightarrow> addr \<Rightarrow> bool \<Rightarrow> lifter \<Rightarrow> (bool \<times> Instruction) \<times> lifter" where
  "DecodeInstructionInto env a is_delayed s =
     (let m = (case max_inst_size s of
                 None \<Rightarrow> MaxInstructionSize (arch (options env))
               | Some m \<Rightarrow> m);
          s1 = s\<lparr>max_inst_size := Some m\<rparr>;
          inst_bytes = read_inst_bytes (Query env) m a 0 []
      in (if is_delayed
          then DecodeDelayedInstruction (arch (options env)) a inst_bytes
          else DecodeInstruction (arch (options env)) a inst_bytes, s1))"

subsection \<open>Blocks and instructions\<close>

text \<open>
  \<^verbatim>\<open>llvm::BasicBlock::Create(context, name, parent)\<close>: a fresh, empty block, appended to
  the blocks of \<open>parent\<close> when the parent is a function of the module.
\<close>

definition BasicBlock_Create :: "string option \<Rightarrow> lifter \<Rightarrow> nat \<times> lifter" where
  "BasicBlock_Create parent s =
     (let b = next_block s;
          m = (case parent of
                 None \<Rightarrow> semantics_module s
               | Some p \<Rightarrow>
                   (case semantics_module s p of
                      None \<Rightarrow> semantics_module s
                    | Some f \<Rightarrow> (semantics_module s)(p \<mapsto> f\<lparr>blocks := blocks f @ [b]\<rparr>)))
      in (b, s\<lparr>semantics_module := m,
                block_store := (block_store s)(b := []),
                block_parent := (block_parent s)(b := parent),
                next_block := Suc b\<rparr>))"

text \<open>Appending an instruction at the end of a block, as every builder call here does.\<close>

definition append_inst :: "nat \<Rightarrow> llvm_inst \<Rightarrow> lifter \<Rightarrow> lifter" where
  "append_inst b i s = s\<lparr>block_store := (block_store s)(b := block_store s b @ [i])\<rparr>"

definition emit :: "nat \<Rightarrow> llvm_inst \<Rightarrow> lifter \<Rightarrow> llvm_value \<times> lifter" where
  "emit b i s = (InstRef b (length (block_store s b)), append_inst b i s)"

text \<open>The two mutators of a call instruction that the lifter uses.\<close>

fun set_tail :: "bool \<Rightarrow> llvm_inst \<Rightarrow> llvm_inst" where
  "set_tail t (CallInst f args _) = CallInst f args t"
| "set_tail t i = i"

fun set_arg :: "nat \<Rightarrow> llvm_value \<Rightarrow> llvm_inst \<Rightarrow> llvm_inst" where
  "set_arg n v (CallInst f args t) = CallInst f (args[n := v]) t"
| "set_arg n v i = i"

fun update_inst :: "llvm_value \<Rightarrow> (llvm_inst \<Rightarrow> llvm_inst) \<Rightarrow> lifter \<Rightarrow> lifter" where
  "update_inst (InstRef b i) g s =
     s\<lparr>block_store := (block_store s)(b := (block_store s b)[i := g (block_store s b ! i)])\<rparr>"
| "update_inst _ g s = s"

definition setTailCall :: "llvm_value \<Rightarrow> bool \<Rightarrow> lifter \<Rightarrow> lifter" where
  "setTailCall call t s = update_inst call (set_tail t) s"

definition setArgOperand :: "llvm_value \<Rightarrow> nat \<Rightarrow> llvm_value \<Rightarrow> lifter \<Rightarrow> lifter" where
  "setArgOperand call n v s = update_inst call (set_arg n v) s"

subsection \<open>Helpers of the decoder library\<close>

text \<open>
  The helpers the lifter calls to read the variables of a lifted function and to call an
  intrinsic with the three arguments of the lifted calling interface: the state pointer
  (the function's own argument), the program counter and the memory pointer.
\<close>

definition LoadRegAddress :: "nat \<Rightarrow> llvm_value \<Rightarrow> string \<Rightarrow> llvm_value" where
  "LoadRegAddress block sp reg_name = RegAddress sp reg_name"

definition LoadRegValue :: "nat \<Rightarrow> llvm_value \<Rightarrow> string \<Rightarrow> lifter \<Rightarrow> llvm_value \<times> lifter" where
  "LoadRegValue block sp reg_name s = emit block (LoadInst (LoadRegAddress block sp reg_name)) s"

definition LoadMemoryPointerRef :: "nat \<Rightarrow> llvm_value" where
  "LoadMemoryPointerRef block = VarRef kMemoryVariableName"

definition LoadMemoryPointer :: "nat \<Rightarrow> lifter \<Rightarrow> llvm_value \<times> lifter" where
  "LoadMemoryPointer block s = emit block (LoadInst (LoadMemoryPointerRef block)) s"

definition LoadProgramCounter :: "nat \<Rightarrow> lifter \<Rightarrow> llvm_value \<times> lifter" where
  "LoadProgramCounter block s = emit block (LoadInst (VarRef kPCVariableName)) s"

definition LoadBranchTaken :: "nat \<Rightarrow> lifter \<Rightarrow> llvm_value \<times> lifter" where
  "LoadBranchTaken block s =
     (let (cond, s1) = emit block (LoadInst (VarRef kBranchTakenVariableName)) s
      in emit block (ICmpEqInst cond (ConstantInt (IntegerTy 8) 1)) s1)"

definition AddCall :: "nat \<Rightarrow> string \<Rightarrow> lifter \<Rightarrow> llvm_value \<times> lifter" where
  "AddCall block dest_func s =
     (let (pc_val, s1) = LoadProgramCounter block s;
          (mem_ptr, s2) = LoadMemoryPointer block s1
      in emit block (CallInst dest_func [Argument kStatePointerArgNum, pc_val, mem_ptr] False) s2)"

definition AddTerminatingTailCall :: "nat \<Rightarrow> string \<Rightarrow> lifter \<Rightarrow> llvm_value \<times> lifter" where
  "AddTerminatingTailCall block dest_func s =
     (let (call, s1) = AddCall block dest_func s;
          s2 = setTailCall call True s1;
          s3 = append_inst block (ReturnInst call) s2
      in (call, s3))"

subsection \<open>Muting the escape of the state pointer\<close>

text \<open>
  \<^verbatim>\<open>MuteStateEscape\<close>: the state-pointer operand of the call is overwritten with an
  undefined value of its type.
\<close>

definition MuteStateEscape :: "llvm_value \<Rightarrow> lifter \<Rightarrow> lifter" where
  "MuteStateEscape call s = setArgOperand call kStatePointerArgNum UndefValue s"

definition MuteStateEscape_of :: "llvm_value \<times> lifter \<Rightarrow> lifter" where
  "MuteStateEscape_of r = MuteStateEscape (fst r) (snd r)"


section \<open>Blocks for addresses\<close>

text \<open>The order of an ordered set of pairs of unsigned 64-bit integers.\<close>

definition pair_less :: "addr \<times> addr \<Rightarrow> addr \<times> addr \<Rightarrow> bool" where
  "pair_less x y = (fst x < fst y \<or> (fst x = fst y \<and> snd x < snd y))"

fun emplace :: "addr \<times> addr \<Rightarrow> (addr \<times> addr) list \<Rightarrow> (addr \<times> addr) list" where
  "emplace e [] = [e]"
| "emplace e (x # xs) =
     (if e = x then x # xs
      else if pair_less e x then e # x # xs
      else x # emplace e xs)"

text \<open>
  \<^verbatim>\<open>GetOrCreateBlock\<close>: the block of the edge from the current instruction (or from 0) to
  \<open>a\<close>; a new edge gets a new block in \<open>lifted_func\<close> and an entry in the work list.
\<close>

definition GetOrCreateBlock :: "addr \<Rightarrow> lifter \<Rightarrow> nat \<times> lifter" where
  "GetOrCreateBlock a s =
     (let from_pc = (case curr_inst s of None \<Rightarrow> 0 | Some i \<Rightarrow> pc i)
      in case edge_to_dest_block s (from_pc, a) of
           Some block \<Rightarrow> (block, s)
         | None \<Rightarrow>
             (let (block, s1) = BasicBlock_Create (lifted_func s) s
              in (block, s1\<lparr>edge_to_dest_block := (edge_to_dest_block s1)((from_pc, a) \<mapsto> block),
                            edge_work_list := emplace (a, from_pc) (edge_work_list s1)\<rparr>)))"

definition GetOrCreateTargetBlock :: "Env \<Rightarrow> addr \<Rightarrow> lifter \<Rightarrow> nat \<times> lifter" where
  "GetOrCreateTargetBlock env a s = GetOrCreateBlock (GetRedirection (options env) a) s"

text \<open>A branch to the target block of an address, as the visitors write it in one statement.\<close>

definition branch_to_target :: "Env \<Rightarrow> addr \<Rightarrow> nat \<Rightarrow> lifter \<Rightarrow> lifter" where
  "branch_to_target env a block s =
     (let (target, s1) = GetOrCreateTargetBlock env a s
      in append_inst block (BranchInst target) s1)"

section \<open>Declaring native functions\<close>

text \<open>Numbers as a stream prints them under \<^verbatim>\<open>std::hex\<close> and \<^verbatim>\<open>std::dec\<close>.\<close>

definition digit_char :: "nat \<Rightarrow> char" where
  "digit_char n = ''0123456789abcdef'' ! (n mod 16)"

function hex_of_nat :: "nat \<Rightarrow> string" where
  "hex_of_nat n = (if n < 16 then [digit_char n] else hex_of_nat (n div 16) @ [digit_char (n mod 16)])"
  by pat_completeness auto
termination
  by (relation "measure id") auto

function dec_of_nat :: "nat \<Rightarrow> string" where
  "dec_of_nat n = (if n < 10 then [digit_char n] else dec_of_nat (n div 10) @ [digit_char (n mod 10)])"
  by pat_completeness auto
termination
  by (relation "measure id") auto

text \<open>
  \<^verbatim>\<open>GetOrDeclareFunction\<close>. The reference \<^verbatim>\<open>native_func\<close> into \<open>addr_to_func\<close> makes every
  assignment to it an update of the map. A failed \<^verbatim>\<open>CHECK_EQ\<close> ends the process.
\<close>

definition sub_name :: "Env \<Rightarrow> FunctionDecl \<Rightarrow> string" where
  "sub_name env decl =
     ''sub_'' @ hex_of_nat (unat (address decl)) @ ''_'' @ TranslateType env (decl_type decl)
       @ ''_'' @ dec_of_nat (calling_convention decl)"

definition GetOrDeclareFunction :: "Env \<Rightarrow> FunctionDecl \<Rightarrow> lifter \<Rightarrow> failure + (string \<times> lifter)" where
  "GetOrDeclareFunction env decl s =
     (let func_type = decl_type decl
      in case addr_to_func s (address decl) of
           Some nf \<Rightarrow>
             (case semantics_module s nf of
                None \<Rightarrow> Inl NullDereference
              | Some f \<Rightarrow> if function_type f = func_type then Inr (nf, s) else Inl CheckFailed)
         | None \<Rightarrow>
             (let base_name = sub_name env decl;
                  s1 = s\<lparr>func_name_to_address :=
                          (case func_name_to_address s base_name of
                             None \<Rightarrow> (func_name_to_address s)(base_name \<mapsto> address decl)
                           | Some _ \<Rightarrow> func_name_to_address s)\<rparr>
              in case semantics_module s1 base_name of
                   Some f \<Rightarrow>
                     (let s2 = s1\<lparr>addr_to_func := (addr_to_func s1)(address decl \<mapsto> base_name)\<rparr>
                      in if function_type f = func_type then Inr (base_name, s2) else Inl CheckFailed)
                 | None \<Rightarrow>
                     (let f = \<lparr>function_type = func_type, blocks = [],
                               fn_attrs = {NoInline}, linkage = ExternalLinkage,
                               calling_conv = calling_convention decl\<rparr>
                      in Inr (base_name,
                              s1\<lparr>addr_to_func := (addr_to_func s1)(address decl \<mapsto> base_name),
                                 semantics_module := (semantics_module s1)(base_name \<mapsto> f)\<rparr>))))"

text \<open>
  \<^verbatim>\<open>DeclareFunction\<close>: a null pointer when the first byte of the function is not at a
  valid address or is not executable, the declared function otherwise.
\<close>

definition DeclareFunction :: "Env \<Rightarrow> FunctionDecl \<Rightarrow> lifter \<Rightarrow> failure + (string option \<times> lifter)" where
  "DeclareFunction env decl s =
     (case Query env (address decl) of (first_byte, first_byte_avail, first_byte_perms) \<Rightarrow>
        if \<not> IsValidAddress env first_byte_avail \<or> \<not> IsExecutable env first_byte_perms
        then Inr (None, s)
        else (case GetOrDeclareFunction env decl s of
                Inl e \<Rightarrow> Inl e
              | Inr (nf, s1) \<Rightarrow> Inr (Some nf, s1)))"

text \<open>
  \<^verbatim>\<open>TryCallNativeFunction\<close>. Indexing \<open>addr_to_decl\<close> inserts a default declaration, whose
  address is 0, when the address has none; it stays there when the creation of the
  declaration fails. The function named by \<open>nf\<close> is dereferenced on every path.
\<close>

definition default_FunctionDecl :: FunctionDecl where
  "default_FunctionDecl = \<lparr>address = 0, decl_type = NamedTy [], calling_convention = 0\<rparr>"

definition TryCallNativeFunction ::
  "Env \<Rightarrow> addr \<Rightarrow> string option \<Rightarrow> nat \<Rightarrow> lifter \<Rightarrow> failure + (llvm_value option \<times> lifter)" where
  "TryCallNativeFunction env native_addr nf block s =
     (let decl = (case addr_to_decl s native_addr of None \<Rightarrow> default_FunctionDecl | Some d \<Rightarrow> d);
          s1 = s\<lparr>addr_to_decl := (addr_to_decl s)(native_addr \<mapsto> decl)\<rparr>
      in case nf of
           None \<Rightarrow> Inl NullDereference
         | Some fname \<Rightarrow>
             (case semantics_module s1 fname of
                None \<Rightarrow> Inl NullDereference
              | Some f \<Rightarrow>
                  (let created = (if address decl = 0
                                  then FunctionDecl_Create env (function_type f) (calling_conv f)
                                  else Some decl)
                   in case created of
                        None \<Rightarrow> Inr (None, s1)
                      | Some decl' \<Rightarrow>
                          (let s2 = s1\<lparr>addr_to_decl := (addr_to_decl s1)(native_addr \<mapsto> decl')\<rparr>;
                               mem_ptr_ref = LoadMemoryPointerRef block;
                               (mem_ptr, s3) = emit block (LoadInst mem_ptr_ref) s2;
                               (mem_ptr', s4) =
                                  emit block (CallFromLiftedBlock fname (state_ptr s3) mem_ptr) s3;
                               s5 = append_inst block (StoreInst mem_ptr' mem_ptr_ref) s4
                           in Inr (Some mem_ptr', s5)))))"

text \<open>
  \<^verbatim>\<open>CallFunction\<close>: a call of the function declared for the target of the instruction, or
  a call of the function-call intrinsic when there is no declaration, no function, or no
  way to call it.
\<close>

definition CallFunction :: "Env \<Rightarrow> Instruction \<Rightarrow> nat \<Rightarrow> lifter \<Rightarrow> failure + lifter" where
  "CallFunction env inst block s =
     (case TryGetTargetFunctionType env (branch_taken_pc inst) of
        Some other_decl \<Rightarrow>
          (case DeclareFunction env other_decl s of
             Inl e \<Rightarrow> Inl e
           | Inr (Some other_func, s1) \<Rightarrow>
               (case TryCallNativeFunction env (address other_decl) (Some other_func) block s1 of
                  Inl e \<Rightarrow> Inl e
                | Inr (Some mem_ptr_from_call, s2) \<Rightarrow> Inr s2
                | Inr (None, s2) \<Rightarrow> Inr (snd (AddCall block intrinsics_function_call s2)))
           | Inr (None, s1) \<Rightarrow> Inr (snd (AddCall block intrinsics_function_call s1)))
      | None \<Rightarrow> Inr (snd (AddCall block intrinsics_function_call s)))"


section \<open>Resuming after a call\<close>

text \<open>
  The two switches of the byte loop of \<^verbatim>\<open>LoadFunctionReturnAddress\<close> on one query:
  \<open>Some b\<close> when the loop goes on with \<open>bytes[i] = b\<close>, \<open>None\<close> when the function returns
  its default from inside the loop. The log messages of the source call the first two
  availabilities "not available for inspection" and the two permissions without
  execution "not executable".
\<close>

definition inspect_return_byte :: "byte_query \<Rightarrow> byte option" where
  "inspect_return_byte q =
     (case q of (b, accessible, perms) \<Rightarrow>
        (case accessible of
           ByteAvailability_kUnknown \<Rightarrow> None
         | ByteAvailability_kUnavailable \<Rightarrow> None
         | ByteAvailability_kAvailable \<Rightarrow>
             (case perms of
                BytePermission_kUnknown \<Rightarrow> Some b
              | BytePermission_kReadableExecutable \<Rightarrow> Some b
              | BytePermission_kReadableWritableExecutable \<Rightarrow> Some b
              | BytePermission_kReadable \<Rightarrow> None
              | BytePermission_kReadableWritable \<Rightarrow> None)))"

function read_return_bytes :: "(addr \<Rightarrow> byte_query) \<Rightarrow> addr \<Rightarrow> nat \<Rightarrow> byte list \<Rightarrow> byte list option" where
  "read_return_bytes query p i bs =
     (if i < 4 then
        (case inspect_return_byte (query (p + of_nat i)) of
           None \<Rightarrow> None
         | Some b \<Rightarrow> read_return_bytes query p (Suc i) (bs[i := b]))
      else Some bs)"
  by pat_completeness auto
termination
  by (relation "measure (\<lambda>(query, p, i, bs). 4 - i)") auto

text \<open>
  The union \<^verbatim>\<open>Format0a\<close>: the four bytes are shifted into the 32-bit word \<open>flat\<close>, most
  significant first, and the bit-fields are read from it. With bit-fields allocated from
  the least significant bit, \<open>imm22\<close> is bits 0 to 21, \<open>op2\<close> bits 22 to 24, \<open>rd\<close> bits 25
  to 29 and \<open>op\<close> bits 30 and 31.
\<close>

definition Format0a_flat :: "byte list \<Rightarrow> 32 word" where
  "Format0a_flat bs =
     (let flat = (0 :: 32 word);
          flat = flat OR ucast (bs ! 0);
          flat = push_bit 8 flat;
          flat = flat OR ucast (bs ! 1);
          flat = push_bit 8 flat;
          flat = flat OR ucast (bs ! 2);
          flat = push_bit 8 flat;
          flat = flat OR ucast (bs ! 3)
      in flat)"

definition Format0a_op :: "32 word \<Rightarrow> 32 word" where
  "Format0a_op flat = drop_bit 30 flat AND 3"

definition Format0a_op2 :: "32 word \<Rightarrow> 32 word" where
  "Format0a_op2 flat = drop_bit 22 flat AND 7"

definition address_type :: "Env \<Rightarrow> llvm_type" where
  "address_type env = IntegerTy (address_size (arch (options env)))"

text \<open>
  \<^verbatim>\<open>LoadFunctionReturnAddress\<close>: the address where execution resumes after the call, and
  the value of the return program counter to store.
\<close>

definition LoadFunctionReturnAddress ::
  "Env \<Rightarrow> Instruction \<Rightarrow> nat \<Rightarrow> lifter \<Rightarrow> (addr \<times> llvm_value) \<times> lifter" where
  "LoadFunctionReturnAddress env inst block s =
     (let p = branch_not_taken_pc inst;
          (ret_pc, s1) = LoadRegValue block (state_ptr s) kReturnPCVariableName s
      in if \<not> is_sparc env then ((p, ret_pc), s1)
         else
           (case read_return_bytes (Query env) p 0 [0, 0, 0, 0] of
              None \<Rightarrow> ((p, ret_pc), s1)
            | Some bs \<Rightarrow>
                (let enc = Format0a_flat bs
                 in if Format0a_op enc = 0 \<and> Format0a_op2 enc = 0
                    then (let (v, s2) = emit block (AddInst ret_pc (ConstantInt (address_type env) 4)) s1
                          in ((p + 4, v), s2))
                    else ((p, ret_pc), s1))))"

text \<open>\<^verbatim>\<open>VisitAfterFunctionCall\<close>: store the return program counter, branch to the resume block.\<close>

definition VisitAfterFunctionCall :: "Env \<Rightarrow> Instruction \<Rightarrow> nat \<Rightarrow> lifter \<Rightarrow> lifter" where
  "VisitAfterFunctionCall env inst block s =
     (let ((ret_pc, ret_pc_val), s1) = LoadFunctionReturnAddress env inst block s;
          pc_ptr = LoadRegAddress block (state_ptr s1) kPCVariableName;
          next_pc_ptr = LoadRegAddress block (state_ptr s1) kNextPCVariableName;
          s2 = append_inst block (StoreInst ret_pc_val pc_ptr) s1;
          s3 = append_inst block (StoreInst ret_pc_val next_pc_ptr) s2
      in branch_to_target env ret_pc block s3)"

section \<open>The visitors of the instruction categories\<close>

definition VisitDelayedInstruction ::
  "Env \<Rightarrow> Instruction \<Rightarrow> Instruction option \<Rightarrow> nat \<Rightarrow> bool \<Rightarrow> lifter \<Rightarrow> lifter" where
  "VisitDelayedInstruction env inst delayed_inst block on_taken_path s =
     (case delayed_inst of
        None \<Rightarrow> s
      | Some d \<Rightarrow>
          if NextInstructionIsDelayed (arch (options env)) inst d on_taken_path
          then append_inst block (LiftIntoBlock d (state_ptr s) True) s
          else s)"

definition VisitInvalid :: "Env \<Rightarrow> Instruction \<Rightarrow> nat \<Rightarrow> lifter \<Rightarrow> lifter" where
  "VisitInvalid env inst block s =
     MuteStateEscape_of (AddTerminatingTailCall block intrinsics_error s)"

definition VisitError :: "Env \<Rightarrow> Instruction \<Rightarrow> Instruction option \<Rightarrow> nat \<Rightarrow> lifter \<Rightarrow> lifter" where
  "VisitError env inst delayed_inst block s =
     (let s1 = VisitDelayedInstruction env inst delayed_inst block True s
      in MuteStateEscape_of (AddTerminatingTailCall block intrinsics_error s1))"

definition VisitNormal :: "Env \<Rightarrow> Instruction \<Rightarrow> nat \<Rightarrow> lifter \<Rightarrow> lifter" where
  "VisitNormal env inst block s = branch_to_target env (next_pc inst) block s"

definition VisitNoOp :: "Env \<Rightarrow> Instruction \<Rightarrow> nat \<Rightarrow> lifter \<Rightarrow> lifter" where
  "VisitNoOp env inst block s = VisitNormal env inst block s"

definition VisitDirectJump :: "Env \<Rightarrow> Instruction \<Rightarrow> Instruction option \<Rightarrow> nat \<Rightarrow> lifter \<Rightarrow> lifter" where
  "VisitDirectJump env inst delayed_inst block s =
     (let s1 = VisitDelayedInstruction env inst delayed_inst block True s
      in branch_to_target env (branch_taken_pc inst) block s1)"

definition VisitIndirectJump :: "Env \<Rightarrow> Instruction \<Rightarrow> Instruction option \<Rightarrow> nat \<Rightarrow> lifter \<Rightarrow> lifter" where
  "VisitIndirectJump env inst delayed_inst block s =
     (let s1 = VisitDelayedInstruction env inst delayed_inst block True s
      in snd (AddTerminatingTailCall block intrinsics_jump s1))"

text \<open>
  The opening of every conditional visitor: load the branch condition, create the taken
  and the not-taken block in the function of \<open>block\<close>, and branch on the condition.
\<close>

definition split_on_branch_taken :: "nat \<Rightarrow> lifter \<Rightarrow> (nat \<times> nat) \<times> lifter" where
  "split_on_branch_taken block s =
     (let lifted_func = block_parent s block;
          (cond, s1) = LoadBranchTaken block s;
          (taken_block, s2) = BasicBlock_Create lifted_func s1;
          (not_taken_block, s3) = BasicBlock_Create lifted_func s2;
          s4 = append_inst block (CondBranchInst taken_block not_taken_block cond) s3
      in ((taken_block, not_taken_block), s4))"

definition VisitConditionalIndirectJump ::
  "Env \<Rightarrow> Instruction \<Rightarrow> Instruction option \<Rightarrow> nat \<Rightarrow> lifter \<Rightarrow> lifter" where
  "VisitConditionalIndirectJump env inst delayed_inst block s =
     (let ((taken_block, not_taken_block), s1) = split_on_branch_taken block s;
          s2 = VisitDelayedInstruction env inst delayed_inst taken_block True s1;
          s3 = VisitDelayedInstruction env inst delayed_inst not_taken_block False s2;
          s4 = snd (AddTerminatingTailCall taken_block intrinsics_jump s3)
      in branch_to_target env (branch_not_taken_pc inst) not_taken_block s4)"

definition VisitFunctionReturn ::
  "Env \<Rightarrow> Instruction \<Rightarrow> Instruction option \<Rightarrow> nat \<Rightarrow> lifter \<Rightarrow> lifter" where
  "VisitFunctionReturn env inst delayed_inst block s =
     (let s1 = VisitDelayedInstruction env inst delayed_inst block True s
      in MuteStateEscape_of (AddTerminatingTailCall block intrinsics_function_return s1))"

definition VisitConditionalFunctionReturn ::
  "Env \<Rightarrow> Instruction \<Rightarrow> Instruction option \<Rightarrow> nat \<Rightarrow> lifter \<Rightarrow> lifter" where
  "VisitConditionalFunctionReturn env inst delayed_inst block s =
     (let ((taken_block, not_taken_block), s1) = split_on_branch_taken block s;
          s2 = VisitDelayedInstruction env inst delayed_inst taken_block True s1;
          s3 = MuteStateEscape_of (AddTerminatingTailCall taken_block intrinsics_function_return s2);
          s4 = VisitDelayedInstruction env inst delayed_inst not_taken_block False s3
      in branch_to_target env (branch_not_taken_pc inst) not_taken_block s4)"

definition VisitDirectFunctionCall ::
  "Env \<Rightarrow> Instruction \<Rightarrow> Instruction option \<Rightarrow> nat \<Rightarrow> lifter \<Rightarrow> failure + lifter" where
  "VisitDirectFunctionCall env inst delayed_inst block s =
     (let s1 = VisitDelayedInstruction env inst delayed_inst block True s
      in case CallFunction env inst block s1 of
           Inl e \<Rightarrow> Inl e
         | Inr s2 \<Rightarrow> Inr (VisitAfterFunctionCall env inst block s2))"

definition VisitConditionalDirectFunctionCall ::
  "Env \<Rightarrow> Instruction \<Rightarrow> Instruction option \<Rightarrow> nat \<Rightarrow> lifter \<Rightarrow> failure + lifter" where
  "VisitConditionalDirectFunctionCall env inst delayed_inst block s =
     (let ((taken_block, not_taken_block), s1) = split_on_branch_taken block s;
          s2 = VisitDelayedInstruction env inst delayed_inst taken_block True s1
      in case CallFunction env inst taken_block s2 of
           Inl e \<Rightarrow> Inl e
         | Inr s3 \<Rightarrow>
             (let s4 = VisitAfterFunctionCall env inst taken_block s3;
                  s5 = VisitDelayedInstruction env inst delayed_inst not_taken_block False s4
              in Inr (branch_to_target env (branch_not_taken_pc inst) not_taken_block s5)))"

definition VisitIndirectFunctionCall ::
  "Env \<Rightarrow> Instruction \<Rightarrow> Instruction option \<Rightarrow> nat \<Rightarrow> lifter \<Rightarrow> lifter" where
  "VisitIndirectFunctionCall env inst delayed_inst block s =
     (let s1 = VisitDelayedInstruction env inst delayed_inst block True s;
          s2 = snd (AddCall block intrinsics_function_call s1)
      in VisitAfterFunctionCall env inst block s2)"

definition VisitConditionalIndirectFunctionCall ::
  "Env \<Rightarrow> Instruction \<Rightarrow> Instruction option \<Rightarrow> nat \<Rightarrow> lifter \<Rightarrow> lifter" where
  "VisitConditionalIndirectFunctionCall env inst delayed_inst block s =
     (let ((taken_block, not_taken_block), s1) = split_on_branch_taken block s;
          s2 = VisitDelayedInstruction env inst delayed_inst taken_block True s1;
          s3 = snd (AddCall taken_block intrinsics_function_call s2);
          s4 = VisitAfterFunctionCall env inst taken_block s3;
          s5 = VisitDelayedInstruction env inst delayed_inst not_taken_block False s4
      in branch_to_target env (branch_not_taken_pc inst) not_taken_block s5)"

definition VisitConditionalBranch ::
  "Env \<Rightarrow> Instruction \<Rightarrow> Instruction option \<Rightarrow> nat \<Rightarrow> lifter \<Rightarrow> lifter" where
  "VisitConditionalBranch env inst delayed_inst block s =
     (let ((taken_block, not_taken_block), s1) = split_on_branch_taken block s;
          s2 = VisitDelayedInstruction env inst delayed_inst taken_block True s1;
          s3 = VisitDelayedInstruction env inst delayed_inst not_taken_block False s2;
          s4 = branch_to_target env (branch_taken_pc inst) taken_block s3
      in branch_to_target env (branch_not_taken_pc inst) not_taken_block s4)"

definition VisitAsyncHyperCall ::
  "Env \<Rightarrow> Instruction \<Rightarrow> Instruction option \<Rightarrow> nat \<Rightarrow> lifter \<Rightarrow> lifter" where
  "VisitAsyncHyperCall env inst delayed_inst block s =
     (let s1 = VisitDelayedInstruction env inst delayed_inst block True s
      in snd (AddTerminatingTailCall block intrinsics_async_hyper_call s1))"

definition VisitConditionalAsyncHyperCall ::
  "Env \<Rightarrow> Instruction \<Rightarrow> Instruction option \<Rightarrow> nat \<Rightarrow> lifter \<Rightarrow> lifter" where
  "VisitConditionalAsyncHyperCall env inst delayed_inst block s =
     (let ((taken_block, not_taken_block), s1) = split_on_branch_taken block s;
          s2 = VisitDelayedInstruction env inst delayed_inst taken_block True s1;
          s3 = VisitDelayedInstruction env inst delayed_inst not_taken_block False s2;
          s4 = snd (AddTerminatingTailCall taken_block intrinsics_async_hyper_call s3)
      in branch_to_target env (branch_not_taken_pc inst) not_taken_block s4)"


section \<open>Type hints\<close>

text \<open>
  \<^verbatim>\<open>GetOrCreateTaintedFunction\<close>: the function of the module named by the prefix and the
  printed goal type; it is created, external and read-none, when the module has none.
\<close>

definition GetOrCreateTaintedFunction ::
  "Env \<Rightarrow> llvm_type \<Rightarrow> llvm_type \<Rightarrow> nat \<Rightarrow> Register \<Rightarrow> addr \<Rightarrow> lifter \<Rightarrow> string \<times> lifter" where
  "GetOrCreateTaintedFunction env current_type goal_type curr_block reg a s =
     (let func_name = kTypeHintFunctionPrefix @ TranslateType env goal_type;
          return_type = goal_type;
          anvill_type_fn_ty = FunctionTy return_type [current_type]
      in case semantics_module s func_name of
           Some f \<Rightarrow> (func_name, s)
         | None \<Rightarrow>
             (func_name,
              s\<lparr>semantics_module := (semantics_module s)(func_name \<mapsto>
                   \<lparr>function_type = anvill_type_fn_ty, blocks = [], fn_attrs = {ReadNone},
                    linkage = ExternalLinkage, calling_conv = 0\<rparr>)\<rparr>))"

text \<open>
  \<^verbatim>\<open>VisitTypedHintedRegister\<close>. The register found by name is dereferenced at once, and
  so is the current instruction when the taint function is asked for.
\<close>

definition VisitTypedHintedRegister ::
  "Env \<Rightarrow> nat \<Rightarrow> string \<Rightarrow> llvm_type \<Rightarrow> addr option \<Rightarrow> lifter \<Rightarrow> failure + lifter" where
  "VisitTypedHintedRegister env block reg_name ty maybe_value s =
     (case RegisterByName (arch (options env)) reg_name of
        None \<Rightarrow> Inl NullDereference
      | Some reg \<Rightarrow>
          if EnclosingRegister reg \<noteq> name reg
             \<or> \<not> isIntegerTy (type reg) (address_size (arch (options env)))
          then Inr s
          else
            (let reg_pointer = LoadRegAddress block (state_ptr s) reg_name;
                 (reg_value, s1) =
                   (case maybe_value of
                      Some v \<Rightarrow>
                        if store_inferred_register_values (options env)
                        then (let (loaded, sa) = emit block (LoadInst reg_pointer) s;
                                  c = ConstantInt (type reg) v
                              in (Some c, append_inst block (StoreInst c reg_pointer) sa))
                        else (None, s)
                    | None \<Rightarrow> (None, s))
             in if \<not> isPointerTy ty then Inr s1
                else
                  (let (reg_value', s2) =
                         (case reg_value of
                            None \<Rightarrow> emit block (LoadInst reg_pointer) s1
                          | Some v \<Rightarrow> (v, s1))
                   in case curr_inst s2 of
                        None \<Rightarrow> Inl NullDereference
                      | Some ci \<Rightarrow>
                          (let (taint_func, s3) =
                                 GetOrCreateTaintedFunction env (type reg) ty block reg (pc ci) s2;
                               (tainted_call, s4) = emit block (CallInst taint_func [reg_value'] False) s3;
                               (replacement_reg, s5) = emit block (PtrToIntInst tainted_call (type reg)) s4
                           in Inr (append_inst block (StoreInst replacement_reg reg_pointer) s5)))))"

text \<open>The visitor run over the hints of the type provider, in order.\<close>

fun visit_hints ::
  "Env \<Rightarrow> nat \<Rightarrow> (string \<times> llvm_type \<times> addr option) list \<Rightarrow> lifter \<Rightarrow> failure + lifter" where
  "visit_hints env block [] s = Inr s"
| "visit_hints env block ((reg_name, ty, maybe_value) # hints) s =
     (case VisitTypedHintedRegister env block reg_name ty maybe_value s of
        Inl e \<Rightarrow> Inl e
      | Inr s1 \<Rightarrow> visit_hints env block hints s1)"

section \<open>Instrumentation\<close>

definition mem_ptr_type :: llvm_type where
  "mem_ptr_type = PointerTy (NamedTy ''struct.Memory'')"

definition state_ptr_type :: llvm_type where
  "state_ptr_type = PointerTy (NamedTy ''struct.State'')"

text \<open>The loads of all top-level registers of address size, in the order of the architecture.\<close>

fun load_registers :: "Env \<Rightarrow> nat \<Rightarrow> Register list \<Rightarrow> lifter \<Rightarrow> llvm_value list \<times> lifter" where
  "load_registers env block [] s = ([], s)"
| "load_registers env block (reg # regs) s =
     (if EnclosingRegister reg = name reg
         \<and> isIntegerTy (type reg) (address_size (arch (options env)))
      then (let (v, s1) = LoadRegValue block (state_ptr s) (name reg) s;
                (vs, s2) = load_registers env block regs s1
            in (v # vs, s2))
      else load_registers env block regs s)"

text \<open>
  \<^verbatim>\<open>InstrumentInstruction\<close>: a call of \<^verbatim>\<open>printf\<close> on a format string and the values of
  the registers. The function is looked up or inserted on the first use.
\<close>

definition InstrumentInstruction :: "Env \<Rightarrow> nat \<Rightarrow> lifter \<Rightarrow> lifter" where
  "InstrumentInstruction env block s =
     (let s1 = (case log_printf s of
                  Some _ \<Rightarrow> s
                | None \<Rightarrow>
                    s\<lparr>log_printf := Some ''printf'',
                      semantics_module :=
                        (case semantics_module s ''printf'' of
                           Some _ \<Rightarrow> semantics_module s
                         | None \<Rightarrow> (semantics_module s)(''printf'' \<mapsto>
                             \<lparr>function_type = FunctionTy (NamedTy ''void'') [PointerTy (IntegerTy 8)],
                              blocks = [], fn_attrs = {}, linkage = ExternalLinkage,
                              calling_conv = 0\<rparr>))\<rparr>);
          (vs, s2) = load_registers env block (ForEachRegister (arch (options env))) s1
      in case log_printf s2 of
           None \<Rightarrow> s2
         | Some f \<Rightarrow> append_inst block (CallInst f (GlobalRef ''log_format_str'' # vs) False) s2)"

text \<open>
  The breakpoint function of \<^verbatim>\<open>InstrumentCallBreakpointFunction\<close>: the function of that
  name in the module, created when there is none, with a body that returns its first
  argument.
\<close>

definition breakpoint_function :: "Env \<Rightarrow> string \<Rightarrow> lifter \<Rightarrow> lifter" where
  "breakpoint_function env func_name s =
     (case semantics_module s func_name of
        Some _ \<Rightarrow> s
      | None \<Rightarrow>
          (let s1 = s\<lparr>semantics_module := (semantics_module s)(func_name \<mapsto>
                       \<lparr>function_type =
                           FunctionTy mem_ptr_type [mem_ptr_type, address_type env, address_type env],
                        blocks = [],
                        fn_attrs = {OptimizeNone, NoInline, ReadNone},
                        linkage = ExternalLinkage, calling_conv = 0\<rparr>)\<rparr>;
               (b, s2) = BasicBlock_Create (Some func_name) s1
           in append_inst b (ReturnInst (Argument 0)) s2))"

text \<open>
  \<^verbatim>\<open>InstrumentCallBreakpointFunction\<close>: a call of the breakpoint function of the current
  instruction on the memory pointer and the two program counters.
\<close>

definition InstrumentCallBreakpointFunction :: "Env \<Rightarrow> nat \<Rightarrow> lifter \<Rightarrow> failure + lifter" where
  "InstrumentCallBreakpointFunction env block s =
     (case curr_inst s of
        None \<Rightarrow> Inl NullDereference
      | Some ci \<Rightarrow>
          (let func_name = ''breakpoint_'' @ hex_of_nat (unat (pc ci));
               s1 = breakpoint_function env func_name s;
               (mem_ptr, s2) = LoadMemoryPointer block s1;
               (pc_val, s3) = LoadRegValue block (state_ptr s2) kPCVariableName s2;
               (next_pc_val, s4) = LoadRegValue block (state_ptr s3) kNextPCVariableName s3
           in Inr (append_inst block (CallInst func_name [mem_ptr, pc_val, next_pc_val] False) s4)))"

section \<open>Visiting one instruction\<close>

text \<open>
  The \<^verbatim>\<open>switch\<close> of \<^verbatim>\<open>VisitInstruction\<close> on the category, case by case as the source
  has it.
\<close>

definition dispatch_category ::
  "Env \<Rightarrow> Instruction \<Rightarrow> Instruction option \<Rightarrow> nat \<Rightarrow> lifter \<Rightarrow> failure + lifter" where
  "dispatch_category env inst delayed_inst block s =
     (case category inst of
        kCategoryInvalid \<Rightarrow> Inr (VisitInvalid env inst block s)
      | kCategoryError \<Rightarrow> Inr (VisitError env inst delayed_inst block s)
      | kCategoryNormal \<Rightarrow> Inr (VisitNormal env inst block s)
      | kCategoryNoOp \<Rightarrow> Inr (VisitNoOp env inst block s)
      | kCategoryDirectJump \<Rightarrow> Inr (VisitDirectJump env inst delayed_inst block s)
      | kCategoryIndirectJump \<Rightarrow> Inr (VisitIndirectJump env inst delayed_inst block s)
      | kCategoryConditionalIndirectJump \<Rightarrow>
          Inr (VisitConditionalIndirectJump env inst delayed_inst block s)
      | kCategoryFunctionReturn \<Rightarrow> Inr (VisitFunctionReturn env inst delayed_inst block s)
      | kCategoryConditionalFunctionReturn \<Rightarrow>
          Inr (VisitConditionalFunctionReturn env inst delayed_inst block s)
      | kCategoryDirectFunctionCall \<Rightarrow> VisitDirectFunctionCall env inst delayed_inst block s
      | kCategoryConditionalDirectFunctionCall \<Rightarrow>
          VisitDirectFunctionCall env inst delayed_inst block s
      | kCategoryIndirectFunctionCall \<Rightarrow>
          Inr (VisitIndirectFunctionCall env inst delayed_inst block s)
      | kCategoryConditionalIndirectFunctionCall \<Rightarrow>
          Inr (VisitConditionalIndirectFunctionCall env inst delayed_inst block s)
      | kCategoryConditionalBranch \<Rightarrow> Inr (VisitConditionalBranch env inst delayed_inst block s)
      | kCategoryAsyncHyperCall \<Rightarrow> Inr (VisitAsyncHyperCall env inst delayed_inst block s)
      | kCategoryConditionalAsyncHyperCall \<Rightarrow>
          Inr (VisitConditionalAsyncHyperCall env inst delayed_inst block s))"

text \<open>
  \<^verbatim>\<open>VisitInstruction\<close>: instrument, lift the instruction into the block, decode the
  instruction of the delay slot when there may be one (a failed decode is only logged),
  visit the type hints, dispatch on the category, and forget the current instruction.
\<close>

definition VisitInstruction :: "Env \<Rightarrow> Instruction \<Rightarrow> nat \<Rightarrow> lifter \<Rightarrow> failure + lifter" where
  "VisitInstruction env inst block s =
     (let s1 = s\<lparr>curr_inst := Some inst\<rparr>;
          s2 = (if FLAGS_print_registers_before_instuctions env
                then InstrumentInstruction env block s1 else s1)
      in case (if FLAGS_add_breakpoints env
               then InstrumentCallBreakpointFunction env block s2 else Inr s2) of
           Inl e \<Rightarrow> Inl e
         | Inr s3 \<Rightarrow>
             (let s4 = append_inst block (LiftIntoBlock inst (state_ptr s3) False) s3;
                  (delayed_inst, s4d) =
                    (if MayHaveDelaySlot (arch (options env)) inst
                     then (let (decoded, s') = DecodeInstructionInto env (delayed_pc inst) True s4
                           in (Some (snd decoded), s'))
                     else (None, s4))
              in case (if symbolic_register_types (options env)
                       then visit_hints env block
                              (QueryRegisterStateAtInstruction env (func_address s4d) (pc inst)) s4d
                       else Inr s4d) of
                   Inl e \<Rightarrow> Inl e
                 | Inr s5 \<Rightarrow>
                     (case dispatch_category env inst delayed_inst block s5 of
                        Inl e \<Rightarrow> Inl e
                      | Inr s6 \<Rightarrow> Inr (s6\<lparr>curr_inst := None\<rparr>))))"


section \<open>The work-list loop\<close>

text \<open>
  The attempt, at the head of an iteration, to lift the edge as a tail call of another
  function: \<open>True\<close> when the block was finished with a return (the \<^verbatim>\<open>continue\<close>),
  \<open>False\<close> when the iteration goes on to decode. The function declared for the target
  is passed on unchecked.
\<close>

definition try_tail_call :: "Env \<Rightarrow> addr \<Rightarrow> nat \<Rightarrow> lifter \<Rightarrow> failure + (bool \<times> lifter)" where
  "try_tail_call env inst_addr block s =
     (case TryGetTargetFunctionType env inst_addr of
        None \<Rightarrow> Inr (False, s)
      | Some decl \<Rightarrow>
          (case DeclareFunction env decl s of
             Inl e \<Rightarrow> Inl e
           | Inr (other_decl, s1) \<Rightarrow>
               (case TryCallNativeFunction env (address decl) other_decl block s1 of
                  Inl e \<Rightarrow> Inl e
                | Inr (Some mem_ptr_from_call, s2) \<Rightarrow>
                    Inr (True, append_inst block (ReturnInst mem_ptr_from_call) s2)
                | Inr (None, s2) \<Rightarrow> Inr (False, s2))))"

text \<open>
  One iteration of the loop of \<^verbatim>\<open>VisitInstructions\<close>, after the entry
  \<open>(inst_addr, from_addr)\<close> was taken off the work list. The block of the edge is
  dereferenced at once.
\<close>

definition visit_edge :: "Env \<Rightarrow> addr \<Rightarrow> addr \<Rightarrow> lifter \<Rightarrow> failure + lifter" where
  "visit_edge env inst_addr from_addr s =
     (case edge_to_dest_block s (from_addr, inst_addr) of
        None \<Rightarrow> Inl NullDereference
      | Some block \<Rightarrow>
          if block_store s block \<noteq> [] then Inr s
          else
            (case (if inst_addr \<noteq> func_address s \<or> from_addr \<noteq> 0
                   then try_tail_call env inst_addr block s else Inr (False, s)) of
               Inl e \<Rightarrow> Inl e
             | Inr (True, s1) \<Rightarrow> Inr s1
             | Inr (False, s1) \<Rightarrow>
                 (case addr_to_block s1 inst_addr of
                    Some inst_block \<Rightarrow> Inr (append_inst block (BranchInst inst_block) s1)
                  | None \<Rightarrow>
                      (let s2 = s1\<lparr>addr_to_block := (addr_to_block s1)(inst_addr \<mapsto> block)\<rparr>;
                           ((ok, inst), s3) = DecodeInstructionInto env inst_addr False s2
                       in if \<not> ok
                          then Inr (MuteStateEscape_of (AddTerminatingTailCall block intrinsics_error s3))
                          else if \<not> IsValid inst \<or> IsError inst
                          then Inr (MuteStateEscape_of (AddTerminatingTailCall block intrinsics_error s3))
                          else VisitInstruction env inst block s3))))"

text \<open>
  \<^verbatim>\<open>VisitInstructions\<close>: take the least entry off the work list and visit it, until the
  list is empty. The first argument bounds the number of iterations; a loop that needs
  more ends in \<open>OutOfFuel\<close>.
\<close>

fun VisitInstructions :: "nat \<Rightarrow> Env \<Rightarrow> lifter \<Rightarrow> failure + lifter" where
  "VisitInstructions fuel env s =
     (case edge_work_list s of
        [] \<Rightarrow> Inr s
      | (inst_addr, from_addr) # rest \<Rightarrow>
          (case fuel of
             0 \<Rightarrow> Inl OutOfFuel
           | Suc fuel' \<Rightarrow>
               (case visit_edge env inst_addr from_addr (s\<lparr>edge_work_list := rest\<rparr>) of
                  Inl e \<Rightarrow> Inl e
                | Inr s1 \<Rightarrow> VisitInstructions fuel' env s1)))"

section \<open>Lifting a function\<close>

text \<open>
  \<^verbatim>\<open>GetMemoryEscapeFunc\<close>: the memory-escape function of the module, declared on first use.
\<close>

definition GetMemoryEscapeFunc :: "lifter \<Rightarrow> string \<times> lifter" where
  "GetMemoryEscapeFunc s =
     (case semantics_module s kMemoryPointerEscapeFunction of
        Some _ \<Rightarrow> (kMemoryPointerEscapeFunction, s)
      | None \<Rightarrow>
          (kMemoryPointerEscapeFunction,
           s\<lparr>semantics_module := (semantics_module s)(kMemoryPointerEscapeFunction \<mapsto>
                \<lparr>function_type = FunctionTy (NamedTy ''void'') [mem_ptr_type], blocks = [],
                 fn_attrs = {}, linkage = ExternalLinkage, calling_conv = 0\<rparr>)\<rparr>))"

text \<open>
  The body that \<^verbatim>\<open>CallLiftedFunctionFromNativeFunction\<close> gives to the native function
  \<open>nf\<close>: one block that allocates the state structure, marshals the arguments into it,
  calls the lifted function \<open>lf\<close> on the state, the program counter and the memory
  pointer, lets the memory pointer escape, and returns. The member \<open>state_ptr\<close> is left
  pointing to the allocated structure.
\<close>

definition native_wrapper_body :: "Env \<Rightarrow> string \<Rightarrow> string \<Rightarrow> lifter \<Rightarrow> lifter" where
  "native_wrapper_body env nf lf s =
     (let (block, s3) = BasicBlock_Create (Some nf) s;
          (sp, s4) = emit block (AllocaInst state_ptr_type) s3;
          s5 = s4\<lparr>state_ptr := sp\<rparr>;
          pc_val =
            (if symbolic_program_counter (options env)
             then ConstantExprAdd
                    (ConstantExprPtrToInt (GlobalRef kSymbolicPCName) (address_type env))
                    (ConstantInt (address_type env) (func_address s5))
             else ConstantInt (address_type env) (func_address s5));
          (mem_ptr, s6) = emit block (MarshalNativeState sp) s5;
          (mem_ptr', s7) = emit block (CallInst lf [sp, pc_val, mem_ptr] False) s6;
          (memory_escape, s8) = GetMemoryEscapeFunc s7;
          s9 = append_inst block (CallInst memory_escape [mem_ptr'] False) s8
      in append_inst block (ReturnNativeValue sp mem_ptr') s9)"

text \<open>
  \<^verbatim>\<open>CallLiftedFunctionFromNativeFunction\<close>: nothing for a native function that has a
  body; nothing but the cached entry when no declaration record can be had for it; the
  wrapper body otherwise. Indexing \<open>addr_to_decl\<close> inserts a default declaration as in
  \<^verbatim>\<open>TryCallNativeFunction\<close>.
\<close>

definition CallLiftedFunctionFromNativeFunction :: "Env \<Rightarrow> lifter \<Rightarrow> failure + lifter" where
  "CallLiftedFunctionFromNativeFunction env s =
     (case native_func s of
        None \<Rightarrow> Inl NullDereference
      | Some nf \<Rightarrow>
          (case semantics_module s nf of
             None \<Rightarrow> Inl NullDereference
           | Some f \<Rightarrow>
               if \<not> isDeclaration f then Inr s
               else
                 (let decl = (case addr_to_decl s (func_address s) of
                                None \<Rightarrow> default_FunctionDecl | Some d \<Rightarrow> d);
                      s1 = s\<lparr>addr_to_decl := (addr_to_decl s)(func_address s \<mapsto> decl)\<rparr>;
                      created = (if address decl = 0
                                 then FunctionDecl_Create env (function_type f) (calling_conv f)
                                 else Some decl)
                  in case created of
                       None \<Rightarrow> Inr s1
                     | Some decl' \<Rightarrow>
                         (case lifted_func s1 of
                            None \<Rightarrow> Inl NullDereference
                          | Some lf \<Rightarrow>
                              Inr (native_wrapper_body env nf lf
                                     (s1\<lparr>addr_to_decl :=
                                           (addr_to_decl s1)(func_address s1 \<mapsto> decl')\<rparr>))))))"

text \<open>
  \<^verbatim>\<open>RecursivelyInlineLiftedFunctionIntoNativeFunction\<close> inlines the calls in the body of
  the native function and runs the cleanup passes on that one function. The native
  function keeps a body, and no other function and no member of the lifter is touched.
  The rewritten body of the native function is not modelled.
\<close>

definition RecursivelyInlineLiftedFunctionIntoNativeFunction :: "lifter \<Rightarrow> lifter" where
  "RecursivelyInlineLiftedFunctionIntoNativeFunction s = s"

text \<open>
  The first statements of \<^verbatim>\<open>LiftFunction\<close>, up to the assignment of \<open>func_address\<close>: the
  members that are cleared or reset. The cache of the instruction lifter, also cleared
  there, belongs to the instruction lifter.
\<close>

definition LiftFunction_reset :: "FunctionDecl \<Rightarrow> lifter \<Rightarrow> lifter" where
  "LiftFunction_reset decl s =
     s\<lparr>addr_to_decl := Map.empty,
       addr_to_func := Map.empty,
       edge_work_list := [],
       edge_to_dest_block := Map.empty,
       addr_to_block := Map.empty,
       curr_inst := None,
       state_ptr := Nullptr,
       func_address := address decl\<rparr>"

text \<open>
  The function and the clone of the basic-block prototype that the decoder library
  provides: \<^verbatim>\<open>DeclareLiftedFunction\<close> finds or inserts a function of the lifted calling
  interface, \<^verbatim>\<open>CloneBlockFunctionInto\<close> gives it the entry block of the prototype.
\<close>

definition lifted_function_type :: "Env \<Rightarrow> llvm_type" where
  "lifted_function_type env =
     FunctionTy mem_ptr_type [state_ptr_type, address_type env, mem_ptr_type]"

definition DeclareLiftedFunction :: "Env \<Rightarrow> string \<Rightarrow> lifter \<Rightarrow> lifter" where
  "DeclareLiftedFunction env fname s =
     (case semantics_module s fname of
        Some _ \<Rightarrow> s
      | None \<Rightarrow>
          s\<lparr>semantics_module := (semantics_module s)(fname \<mapsto>
               \<lparr>function_type = lifted_function_type env, blocks = [], fn_attrs = {NoInline},
                linkage = ExternalLinkage, calling_conv = 0\<rparr>)\<rparr>)"

definition CloneBlockFunctionInto :: "string \<Rightarrow> lifter \<Rightarrow> lifter" where
  "CloneBlockFunctionInto fname s =
     (let (b, s1) = BasicBlock_Create (Some fname) s
      in append_inst b ClonedBasicBlock s1)"

text \<open>
  The second half of \<^verbatim>\<open>LiftFunction\<close>: build the lifted function for the native function
  \<open>nf\<close>, lift all instructions into it, and fill the native function.
\<close>

definition lift_body :: "nat \<Rightarrow> Env \<Rightarrow> string \<Rightarrow> lifter \<Rightarrow> failure + (string option \<times> lifter)" where
  "lift_body fuel env nf s =
     (let lname = nf @ ''.lifted'';
          s1 = (DeclareLiftedFunction env lname s)\<lparr>lifted_func := Some lname\<rparr>;
          s2 = s1\<lparr>state_ptr := Argument kStatePointerArgNum\<rparr>
      in case semantics_module s2 lname of
           None \<Rightarrow> Inl NullDereference
         | Some lf \<Rightarrow>
             if \<not> isDeclaration lf then Inl CheckFailed
             else
               (let s3 = CloneBlockFunctionInto lname s2;
                    s4 = s3\<lparr>semantics_module :=
                            (case semantics_module s3 lname of
                               None \<Rightarrow> semantics_module s3
                             | Some g \<Rightarrow> (semantics_module s3)(lname \<mapsto>
                                 g\<lparr>fn_attrs := insert AlwaysInline (insert InlineHint (fn_attrs g - {NoInline})),
                                   linkage := InternalLinkage\<rparr>))\<rparr>;
                    pc_arg = Argument kPCArgNum
                in case semantics_module s4 lname of
                     None \<Rightarrow> Inl NullDereference
                   | Some g \<Rightarrow>
                       (case blocks g of
                          [] \<Rightarrow> Inl NullDereference
                        | entry_block # _ \<Rightarrow>
                            (let pc_ptr = LoadRegAddress entry_block (state_ptr s4) kPCVariableName;
                                 next_pc_ptr = LoadRegAddress entry_block (state_ptr s4) kNextPCVariableName;
                                 s5 = append_inst entry_block (StoreInst pc_arg next_pc_ptr) s4;
                                 s6 = append_inst entry_block (StoreInst pc_arg pc_ptr) s5;
                                 (first_block, s7) = GetOrCreateBlock (func_address s6) s6;
                                 s8 = append_inst entry_block (BranchInst first_block) s7
                             in case VisitInstructions fuel env s8 of
                                  Inl e \<Rightarrow> Inl e
                                | Inr s9 \<Rightarrow>
                                    (case CallLiftedFunctionFromNativeFunction env s9 of
                                       Inl e \<Rightarrow> Inl e
                                     | Inr s10 \<Rightarrow>
                                         Inr (Some nf,
                                              RecursivelyInlineLiftedFunctionIntoNativeFunction s10))))))"

text \<open>
  \<^verbatim>\<open>LiftFunction\<close>. The result is the pointer to the native function, or null, together
  with the lifter after the call.
\<close>

definition LiftFunction :: "nat \<Rightarrow> Env \<Rightarrow> FunctionDecl \<Rightarrow> lifter \<Rightarrow> failure + (string option \<times> lifter)" where
  "LiftFunction fuel env decl s0 =
     (let s1 = LiftFunction_reset decl s0
      in case DeclareFunction env decl s1 of
           Inl e \<Rightarrow> Inl e
         | Inr (declared, s2) \<Rightarrow>
             (let s3 = s2\<lparr>native_func := declared\<rparr>
              in case Query env (func_address s3) of (first_byte, first_byte_avail, first_byte_perms) \<Rightarrow>
                   if \<not> IsValidAddress env first_byte_avail \<or> \<not> IsExecutable env first_byte_perms
                   then Inr (None, s3)
                   else
                     (case GetOrDeclareFunction env decl s3 of
                        Inl e \<Rightarrow> Inl e
                      | Inr (nf, s4) \<Rightarrow>
                          (let s5 = s4\<lparr>native_func := Some nf\<rparr>
                           in case semantics_module s5 nf of
                                None \<Rightarrow> Inl NullDereference
                              | Some f \<Rightarrow>
                                  if \<not> isDeclaration f then Inr (Some nf, s5)
                                  else if \<not> HasByte env first_byte_avail then Inr (Some nf, s5)
                                  else lift_body fuel env nf s5))))"

section \<open>The life of a lifter\<close>

text \<open>
  \<^verbatim>\<open>AddFunctionToContext\<close>, which the entity lifter calls on the function that
  \<^verbatim>\<open>LiftFunction\<close> or \<^verbatim>\<open>DeclareFunction\<close> has returned, copies the function into the
  target module and then erases its body in the semantics module, with
  \<^verbatim>\<open>EraseFunctionBody\<close>: all instructions of its blocks, then the blocks. The function
  stays in the module as a declaration. The target module and the tables of the entity
  lifter are no part of the state of the function lifter.
\<close>

definition EraseFunctionBody :: "string \<Rightarrow> lifter \<Rightarrow> lifter" where
  "EraseFunctionBody func s =
     (case semantics_module s func of
        None \<Rightarrow> s
      | Some f \<Rightarrow>
          s\<lparr>semantics_module := (semantics_module s)(func \<mapsto> f\<lparr>blocks := []\<rparr>),
            block_store := (\<lambda>b. if b \<in> set (blocks f) then [] else block_store s b),
            block_parent := (\<lambda>b. if b \<in> set (blocks f) then None else block_parent s b)\<rparr>)"

text \<open>
  The state of a lifter that its constructor has just built: the containers are empty,
  the pointers are null, and the semantics module is the one loaded for the architecture.

  Modelled from the spec: \<^verbatim>\<open>remill::LoadArchSemantics\<close> and the member initialisers of the
  header are not among the sources at hand. Of the loaded module this is used: every
  block belongs to a function of the module, and no function of the module has a name of
  the form \<open>sub_<hex>_<type>_<cc>\<close>, the temporary names that the specification reserves
  for the native wrappers the lifter declares.
\<close>

definition constructed :: "Env \<Rightarrow> lifter \<Rightarrow> bool" where
  "constructed env s \<longleftrightarrow>
     edge_to_dest_block s = Map.empty \<and> edge_work_list s = [] \<and> addr_to_block s = Map.empty
     \<and> addr_to_decl s = Map.empty \<and> addr_to_func s = Map.empty
     \<and> func_name_to_address s = Map.empty
     \<and> curr_inst s = None \<and> native_func s = None \<and> lifted_func s = None \<and> log_printf s = None
     \<and> (\<forall>b p. block_parent s b = Some p \<longrightarrow> semantics_module s p \<noteq> None)
     \<and> (\<forall>decl. semantics_module s (sub_name env decl) = None)"

text \<open>
  The states that a lifter instance can be in between two calls of its methods: the state
  after the constructor, and the state after any returning call of \<^verbatim>\<open>LiftFunction\<close>, of
  \<^verbatim>\<open>DeclareFunction\<close> or of \<^verbatim>\<open>AddFunctionToContext\<close> in such a state, with any arguments.
  The environment, and with it the answers of the memory provider, is the same for all
  calls.
\<close>

inductive reachable :: "Env \<Rightarrow> lifter \<Rightarrow> bool" for env :: Env where
  reachable_constructed:
    "constructed env s \<Longrightarrow> reachable env s"
| reachable_LiftFunction:
    "reachable env s \<Longrightarrow> LiftFunction fuel env decl s = Inr (r, s') \<Longrightarrow> reachable env s'"
| reachable_DeclareFunction:
    "reachable env s \<Longrightarrow> DeclareFunction env decl s = Inr (r, s') \<Longrightarrow> reachable env s'"
| reachable_AddFunctionToContext:
    "reachable env s \<Longrightarrow> reachable env (EraseFunctionBody func s)"

section \<open>Predicates of the statements\<close>

text \<open>
  The test that both byte loops of the lifter apply to a queried byte: its availability is
  \<open>kAvailable\<close>, and its permission is none of the two that the lifter's messages call
  "not executable", \<open>kReadable\<close> and \<open>kReadableWritable\<close>. A byte of unknown permission
  passes.
\<close>

definition available_and_executable :: "byte_query \<Rightarrow> bool" where
  "available_and_executable q =
     (fst (snd q) = ByteAvailability_kAvailable
      \<and> snd (snd q) \<noteq> BytePermission_kReadable
      \<and> snd (snd q) \<noteq> BytePermission_kReadableWritable)"

text \<open>
  The claim's words on the encoding, with the fields as the SPARC manual places them and
  independent of the union of the source: the instruction word is the number that the
  four bytes at increasing addresses give, most significant byte first; \<open>op\<close> is the
  number in its bits 31 and 30, \<open>op2\<close> the number in its bits 24 to 22. The four bytes
  encode an \<^verbatim>\<open>unimp\<close> when both are zero.
\<close>

definition sparc_instruction_word :: "byte list \<Rightarrow> nat" where
  "sparc_instruction_word bs = foldl (\<lambda>w b. 256 * w + unat b) 0 bs"

definition spec_op :: "nat \<Rightarrow> nat" where
  "spec_op w = (w div 2 ^ 30) mod 4"

definition spec_op2 :: "nat \<Rightarrow> nat" where
  "spec_op2 w = (w div 2 ^ 22) mod 8"

definition spec_encodes_unimp :: "byte list \<Rightarrow> bool" where
  "spec_encodes_unimp bs \<longleftrightarrow>
     spec_op (sparc_instruction_word bs) = 0 \<and> spec_op2 (sparc_instruction_word bs) = 0"

text \<open>
  An instruction respects the muting of the state escape when, being a tail call of the
  error intrinsic or of the function-return intrinsic, it has an undefined value as its
  state-pointer argument.
\<close>

fun state_escape_muted :: "llvm_inst \<Rightarrow> bool" where
  "state_escape_muted (CallInst f args t) =
     (if t \<and> (f = intrinsics_error \<or> f = intrinsics_function_return)
      then kStatePointerArgNum < length args \<and> args ! kStatePointerArgNum = UndefValue
      else True)"
| "state_escape_muted i = True"

text \<open>
  The invariant of a lift whose entry block is the block \<open>ent\<close>. The entry block exists;
  every block that the edge map names was created after the entry block; and every
  instruction of a block from the entry block on respects the muting of the state escape.
\<close>

definition lift_inv :: "nat \<Rightarrow> lifter \<Rightarrow> bool" where
  "lift_inv ent s \<longleftrightarrow>
     ent < next_block s
     \<and> (\<forall>a c b. edge_to_dest_block s (a, c) = Some b \<longrightarrow> ent < b)
     \<and> (\<forall>b. ent \<le> b \<longrightarrow> b < next_block s \<longrightarrow> list_all state_escape_muted (block_store s b))"

text \<open>
  A module \<open>m'\<close> extends a module \<open>m\<close> when every function of \<open>m\<close> that has blocks is still
  in \<open>m'\<close>, has blocks there, and has kept its first block.
\<close>

definition module_le :: "(string \<rightharpoonup> llvm_function) \<Rightarrow> (string \<rightharpoonup> llvm_function) \<Rightarrow> bool" where
  "module_le m m' \<longleftrightarrow>
     (\<forall>f g. m f = Some g \<longrightarrow> blocks g \<noteq> [] \<longrightarrow>
        (\<exists>g'. m' f = Some g' \<and> blocks g' \<noteq> [] \<and> hd (blocks g') = hd (blocks g)))"

text \<open>
  What a step of a lift keeps from the state \<open>s\<close> in the state \<open>s'\<close>: the content of every
  block up to the entry block \<open>ent\<close>, the blocks that exist, the entries of the edge map,
  and the functions of the module with their first blocks.
\<close>

definition frame :: "nat \<Rightarrow> lifter \<Rightarrow> lifter \<Rightarrow> bool" where
  "frame ent s s' \<longleftrightarrow>
     (\<forall>b \<le> ent. block_store s' b = block_store s b)
     \<and> next_block s \<le> next_block s'
     \<and> (\<forall>a c b. edge_to_dest_block s (a, c) = Some b \<longrightarrow> edge_to_dest_block s' (a, c) = Some b)
     \<and> module_le (semantics_module s) (semantics_module s')"

definition good :: "nat \<Rightarrow> lifter \<Rightarrow> lifter \<Rightarrow> bool" where
  "good ent si s \<longleftrightarrow> lift_inv ent s \<and> frame ent si s"

text \<open>
  The content of the entry block of a lifted function, once \<^verbatim>\<open>LiftFunction\<close> has filled
  it: the clone of the basic-block template, the store of the program-counter argument to
  \<open>NEXT_PC\<close>, its store to \<open>PC\<close>, and the branch to the block \<open>first\<close>.
\<close>

definition entry_content :: "nat \<Rightarrow> llvm_inst list" where
  "entry_content first =
     [ClonedBasicBlock,
      StoreInst (Argument kPCArgNum) (RegAddress (Argument kStatePointerArgNum) kNextPCVariableName),
      StoreInst (Argument kPCArgNum) (RegAddress (Argument kStatePointerArgNum) kPCVariableName),
      BranchInst first]"

text \<open>
  An address can be lifted when its byte passes the three tests of \<^verbatim>\<open>LiftFunction\<close>: the
  address is valid, the byte is executable, and the byte is there. A function name is safe
  when every declaration that gets this name as its temporary name is at an address that
  can be lifted.
\<close>

definition liftable :: "Env \<Rightarrow> addr \<Rightarrow> bool" where
  "liftable env a =
     (case Query env a of (first_byte, first_byte_avail, first_byte_perms) \<Rightarrow>
        IsValidAddress env first_byte_avail \<and> IsExecutable env first_byte_perms
        \<and> HasByte env first_byte_avail)"

definition safe_name :: "Env \<Rightarrow> string \<Rightarrow> bool" where
  "safe_name env p \<longleftrightarrow> (\<forall>decl. p = sub_name env decl \<longrightarrow> liftable env (address decl))"

text \<open>
  The invariant of a lifter between calls: every function of the module that has a body,
  every parent of a block, and the lifted function have safe names. During a lift the
  native function has a safe name too.
\<close>

definition bodies_inv :: "Env \<Rightarrow> lifter \<Rightarrow> bool" where
  "bodies_inv env s \<longleftrightarrow>
     (\<forall>p g. semantics_module s p = Some g \<longrightarrow> blocks g \<noteq> [] \<longrightarrow> safe_name env p)
     \<and> (\<forall>b p. block_parent s b = Some p \<longrightarrow> safe_name env p)
     \<and> (\<forall>p. lifted_func s = Some p \<longrightarrow> safe_name env p)"

definition lifting_inv :: "Env \<Rightarrow> lifter \<Rightarrow> bool" where
  "lifting_inv env s \<longleftrightarrow> bodies_inv env s \<and> (\<forall>p. native_func s = Some p \<longrightarrow> safe_name env p)"

text \<open>A module \<open>m'\<close> has no new body over \<open>m\<close> when each of its functions with a body has one in \<open>m\<close>.\<close>

definition no_new_body :: "(string \<rightharpoonup> llvm_function) \<Rightarrow> (string \<rightharpoonup> llvm_function) \<Rightarrow> bool" where
  "no_new_body m m' \<longleftrightarrow>
     (\<forall>p g. m' p = Some g \<longrightarrow> blocks g \<noteq> [] \<longrightarrow> (\<exists>g0. m p = Some g0 \<and> blocks g0 \<noteq> []))"

section \<open>Concrete inputs\<close>

text \<open>
  A small architecture with one-byte instructions: \<open>0x90\<close> is a no-op, \<open>0xC3\<close> a return,
  \<open>0xE8\<close> a direct call of the function 256 bytes ahead; any other byte does not decode.
  It has three registers: \<open>RAX\<close>, its lower half \<open>EAX\<close>, and the stack pointer \<open>RSP\<close>.
\<close>

definition toy_inst :: "addr \<Rightarrow> Category \<Rightarrow> byte list \<Rightarrow> Instruction" where
  "toy_inst a c bs =
     \<lparr>pc = a, next_pc = a + 1, delayed_pc = a + 1, branch_taken_pc = a + 256,
      branch_not_taken_pc = a + 1, category = c, bytes = bs\<rparr>"

definition toy_decode :: "addr \<Rightarrow> byte list \<Rightarrow> bool \<times> Instruction" where
  "toy_decode a bs =
     (case bs of
        [] \<Rightarrow> (False, toy_inst a kCategoryInvalid [])
      | b # _ \<Rightarrow>
          if b = 0x90 then (True, toy_inst a kCategoryNoOp [b])
          else if b = 0xC3 then (True, toy_inst a kCategoryFunctionReturn [b])
          else if b = 0xE8 then (True, toy_inst a kCategoryDirectFunctionCall [b])
          else (False, toy_inst a kCategoryInvalid [b]))"

definition toy_registers :: "Register list" where
  "toy_registers =
     [\<lparr>name = ''RAX'', type = IntegerTy 64, EnclosingRegister = ''RAX''\<rparr>,
      \<lparr>name = ''EAX'', type = IntegerTy 32, EnclosingRegister = ''RAX''\<rparr>,
      \<lparr>name = ''RSP'', type = IntegerTy 64, EnclosingRegister = ''RSP''\<rparr>]"

definition toy_arch :: Arch where
  "toy_arch =
     \<lparr>MaxInstructionSize = 4,
      DecodeInstruction = toy_decode,
      DecodeDelayedInstruction = toy_decode,
      MayHaveDelaySlot = (\<lambda>i. False),
      NextInstructionIsDelayed = (\<lambda>i d t. False),
      IsSPARC32 = False,
      IsSPARC64 = False,
      address_size = 64,
      RegisterByName = (\<lambda>n. find (\<lambda>r. name r = n) toy_registers),
      ForEachRegister = toy_registers,
      StackPointerRegisterName = ''RSP''\<rparr>"

text \<open>
  A memory with two no-ops at \<open>0x1000\<close>, readable and executable, one byte at \<open>0x2000\<close>
  that does not decode, an address \<open>0x3000\<close> that is valid but whose byte is not known,
  and nothing else.
\<close>

definition toy_memory :: "addr \<Rightarrow> byte_query" where
  "toy_memory a =
     (if a = 0x1000 \<or> a = 0x1001
      then (0x90, ByteAvailability_kAvailable, BytePermission_kReadableExecutable)
      else if a = 0x2000
      then (0, ByteAvailability_kAvailable, BytePermission_kUnknown)
      else if a = 0x3000
      then (0, ByteAvailability_kUnknown, BytePermission_kUnknown)
      else (0, ByteAvailability_kUnavailable, BytePermission_kUnknown))"

definition toy_options :: LifterOptions where
  "toy_options =
     \<lparr>arch = toy_arch,
      GetRedirection = (\<lambda>a. if a = 0x4100 then 0x4200 else a),
      symbolic_register_types = True,
      store_inferred_register_values = False,
      symbolic_stack_pointer = True,
      symbolic_program_counter = False\<rparr>"

definition void_function_type :: llvm_type where
  "void_function_type = FunctionTy (NamedTy ''void'') []"

text \<open>
  The helpers of the memory provider are instantiated as the lifter's comments use them: an
  address is valid unless its byte is unavailable, a byte is there when it is available,
  and a permission is executable unless it is readable or readable and writable only.
  The type provider knows one function, at \<open>0x4100\<close>, which the control-flow provider
  redirects to \<open>0x4200\<close>.
\<close>

definition toy_env :: Env where
  "toy_env =
     \<lparr>options = toy_options,
      Query = toy_memory,
      TryGetFunctionType =
        (\<lambda>a. if a = 0x4100
              then Some \<lparr>address = 0x4100, decl_type = void_function_type, calling_convention = 0\<rparr>
              else None),
      QueryRegisterStateAtInstruction = (\<lambda>f a. []),
      FLAGS_print_registers_before_instuctions = False,
      FLAGS_add_breakpoints = False,
      IsValidAddress = (\<lambda>av. av \<noteq> ByteAvailability_kUnavailable),
      IsExecutable =
        (\<lambda>p. p \<noteq> BytePermission_kReadable \<and> p \<noteq> BytePermission_kReadableWritable),
      HasByte = (\<lambda>av. av = ByteAvailability_kAvailable),
      TranslateType = (\<lambda>t. ''v''),
      FunctionDecl_Create =
        (\<lambda>t c. Some \<lparr>address = 0, decl_type = t, calling_convention = c\<rparr>)\<rparr>"

definition toy_decl :: "addr \<Rightarrow> FunctionDecl" where
  "toy_decl a = \<lparr>address = a, decl_type = void_function_type, calling_convention = 0\<rparr>"

text \<open>A lifter that has lifted nothing, over an empty module, in a process that has decoded nothing.\<close>

definition fresh_lifter :: lifter where
  "fresh_lifter =
     \<lparr>edge_to_dest_block = Map.empty,
      edge_work_list = [],
      addr_to_block = Map.empty,
      addr_to_decl = Map.empty,
      addr_to_func = Map.empty,
      func_name_to_address = Map.empty,
      curr_inst = None,
      state_ptr = Nullptr,
      func_address = 0,
      native_func = None,
      lifted_func = None,
      log_printf = None,
      semantics_module = Map.empty,
      block_store = (\<lambda>b. []),
      block_parent = Map.empty,
      next_block = 0,
      max_inst_size = None\<rparr>"

text \<open>
  The lifter after a first lift in its life, of the function at \<open>0x2000\<close>, where the one byte
  does not decode.
\<close>

definition lifted_2000 :: lifter where
  "lifted_2000 =
     (case LiftFunction 1 toy_env (toy_decl 0x2000) fresh_lifter of
        Inr (r, s) \<Rightarrow> s
      | Inl e \<Rightarrow> fresh_lifter)"

text \<open>
  A lifter that is newly constructed in the process of an earlier lifter, left in the
  state \<open>s\<close>: nothing of the earlier lifter is in it but the static of the process.
\<close>

definition lifter_in_process :: "lifter \<Rightarrow> lifter" where
  "lifter_in_process s = fresh_lifter\<lparr>max_inst_size := max_inst_size s\<rparr>"

text \<open>
  A second architecture, whose instructions have at most two bytes and whose decoder keeps
  every byte that it is handed, and an environment for it with the four executable bytes
  \<open>11 22 33 44\<close> at \<open>0x7000\<close>.
\<close>

definition short_arch :: Arch where
  "short_arch =
     toy_arch\<lparr>MaxInstructionSize := 2,
              DecodeInstruction := (\<lambda>a bs. (True, toy_inst a kCategoryNoOp bs)),
              DecodeDelayedInstruction := (\<lambda>a bs. (True, toy_inst a kCategoryNoOp bs))\<rparr>"

definition short_memory :: "addr \<Rightarrow> byte_query" where
  "short_memory a =
     (if a = 0x7000
      then (0x11, ByteAvailability_kAvailable, BytePermission_kReadableExecutable)
      else if a = 0x7001
      then (0x22, ByteAvailability_kAvailable, BytePermission_kReadableExecutable)
      else if a = 0x7002
      then (0x33, ByteAvailability_kAvailable, BytePermission_kReadableExecutable)
      else if a = 0x7003
      then (0x44, ByteAvailability_kAvailable, BytePermission_kReadableExecutable)
      else (0, ByteAvailability_kUnavailable, BytePermission_kUnknown))"

definition short_env :: Env where
  "short_env = toy_env\<lparr>options := toy_options\<lparr>arch := short_arch\<rparr>, Query := short_memory\<rparr>"

text \<open>
  A SPARC variant of the environment, with the four bytes \<open>00 00 00 20\<close> of
  \<^verbatim>\<open>unimp 32\<close> at \<open>0x5008\<close>, the four bytes \<open>01 00 00 00\<close> of a \<^verbatim>\<open>nop\<close> (\<open>op = 0\<close>,
  \<open>op2 = 4\<close>) at \<open>0x5010\<close>, at \<open>0x5020\<close> the bytes of \<^verbatim>\<open>unimp 32\<close> again, the last of
  them readable and writable only, at \<open>0x5030\<close> the four bytes \<open>40 00 00 00\<close> of a
  \<^verbatim>\<open>call\<close> (\<open>op = 1\<close>, and zero in the bits of \<open>op2\<close>), and at \<open>0x5040\<close> the four bytes
  \<open>3E 3F FF FF\<close>, a word with \<open>op = 0\<close> and \<open>op2 = 0\<close> and ones in every other bit. The
  same memory is also given to the architecture that is not SPARC.
\<close>

definition sparc_memory :: "addr \<Rightarrow> byte_query" where
  "sparc_memory a =
     (if a = 0x5008 \<or> a = 0x5009 \<or> a = 0x500A
      then (0, ByteAvailability_kAvailable, BytePermission_kReadableExecutable)
      else if a = 0x500B
      then (32, ByteAvailability_kAvailable, BytePermission_kReadableExecutable)
      else if a = 0x5010
      then (1, ByteAvailability_kAvailable, BytePermission_kReadableExecutable)
      else if a = 0x5011 \<or> a = 0x5012 \<or> a = 0x5013
      then (0, ByteAvailability_kAvailable, BytePermission_kReadableExecutable)
      else if a = 0x5020 \<or> a = 0x5021 \<or> a = 0x5022
      then (0, ByteAvailability_kAvailable, BytePermission_kReadableExecutable)
      else if a = 0x5023
      then (32, ByteAvailability_kAvailable, BytePermission_kReadableWritable)
      else if a = 0x5030
      then (0x40, ByteAvailability_kAvailable, BytePermission_kReadableExecutable)
      else if a = 0x5031 \<or> a = 0x5032 \<or> a = 0x5033
      then (0, ByteAvailability_kAvailable, BytePermission_kReadableExecutable)
      else if a = 0x5040
      then (0x3E, ByteAvailability_kAvailable, BytePermission_kReadableExecutable)
      else if a = 0x5041
      then (0x3F, ByteAvailability_kAvailable, BytePermission_kReadableExecutable)
      else if a = 0x5042 \<or> a = 0x5043
      then (0xFF, ByteAvailability_kAvailable, BytePermission_kReadableExecutable)
      else (0, ByteAvailability_kUnavailable, BytePermission_kUnknown))"

definition sparc_env :: Env where
  "sparc_env =
     toy_env\<lparr>options := toy_options\<lparr>arch := toy_arch\<lparr>IsSPARC32 := True, address_size := 32\<rparr>\<rparr>,
             Query := sparc_memory\<rparr>"

definition not_sparc_env :: Env where
  "not_sparc_env = toy_env\<lparr>Query := sparc_memory\<rparr>"

definition sparc_call :: Instruction where
  "sparc_call =
     \<lparr>pc = 0x5000, next_pc = 0x5004, delayed_pc = 0x5004, branch_taken_pc = 0x6000,
      branch_not_taken_pc = 0x5008, category = kCategoryDirectFunctionCall, bytes = []\<rparr>"

text \<open>A conditional direct call at \<open>0x2100\<close>, and a lifter in the middle of a lift, at block 1.\<close>

definition conditional_call :: Instruction where
  "conditional_call =
     \<lparr>pc = 0x2100, next_pc = 0x2104, delayed_pc = 0x2104, branch_taken_pc = 0x2200,
      branch_not_taken_pc = 0x2104, category = kCategoryConditionalDirectFunctionCall,
      bytes = []\<rparr>"

definition lifter_at_block :: lifter where
  "lifter_at_block =
     fresh_lifter\<lparr>
       state_ptr := Argument kStatePointerArgNum,
       func_address := 0x2000,
       lifted_func := Some ''f.lifted'',
       semantics_module :=
         [''f.lifted'' \<mapsto>
            \<lparr>function_type = void_function_type, blocks = [0, 1], fn_attrs = {},
             linkage = InternalLinkage, calling_conv = 0\<rparr>],
       block_parent := [0 \<mapsto> ''f.lifted'', 1 \<mapsto> ''f.lifted''],
       next_block := 2\<rparr>"


text \<open>
  A lifter with something left in each of the six maps and lists of a lift.
\<close>

definition stale_lifter :: lifter where
  "stale_lifter =
     fresh_lifter\<lparr>
       func_name_to_address := [''sub_1000_v_0'' \<mapsto> 0x1000],
       edge_to_dest_block := [(0, 0x1000) \<mapsto> 1],
       edge_work_list := [(0x1000, 0)],
       addr_to_block := [0x1000 \<mapsto> 1],
       addr_to_decl := [0x1000 \<mapsto> toy_decl 0x1000],
       addr_to_func := [0x1000 \<mapsto> ''sub_1000_v_0'']\<rparr>"

section \<open>The decoder's byte loop\<close>

declare read_inst_bytes.simps [simp del]
declare read_return_bytes.simps [simp del]
declare hex_of_nat.simps [simp del]
declare dec_of_nat.simps [simp del]

lemma accumulate_inst_byte_eq:
  "accumulate_inst_byte bs q =
     (if available_and_executable q then (True, bs @ [fst q]) else (False, bs))"
  by (cases q) (auto simp: accumulate_inst_byte_def available_and_executable_def
      split: ByteAvailability.splits BytePermission.splits)

lemma read_inst_bytes_takeWhile:
  "read_inst_bytes query m a i bs =
     bs @ map fst (takeWhile available_and_executable (map (\<lambda>k. query (a + of_nat k)) [i..<m]))"
proof (induction query m a i bs rule: read_inst_bytes.induct)
  case (1 query m a i bs)
  show ?case
  proof (cases "i < m")
    case False
    then show ?thesis by (subst read_inst_bytes.simps) simp
  next
    case True
    then have up: "[i..<m] = i # [Suc i..<m]" by (simp add: upt_conv_Cons)
    show ?thesis
    proof (cases "available_and_executable (query (a + of_nat i))")
      case p: True
      have "fst (accumulate_inst_byte bs (query (a + of_nat i)))"
        using p by (simp add: accumulate_inst_byte_eq)
      from "1.IH"[OF True refl this]
      show ?thesis using True p
        by (subst read_inst_bytes.simps) (simp add: accumulate_inst_byte_eq up Let_def)
    next
      case False
      then show ?thesis using True
        by (subst read_inst_bytes.simps) (simp add: accumulate_inst_byte_eq up Let_def)
    qed
  qed
qed

text \<open>
  What one call of \<^verbatim>\<open>DecodeInstructionInto\<close> does, for every address \<open>a\<close>, flag
  \<open>is_delayed\<close> and state of the process: with \<open>m\<close> the value of the static after its
  initialisation, it queries the bytes at \<open>a\<close>, \<open>a + 1\<close>, ... up to \<open>m\<close> of them, puts into
  the buffer exactly the leading bytes that are available and executable (availability
  \<open>kAvailable\<close>, permission not \<open>kReadable\<close> and not \<open>kReadableWritable\<close>), and hands the
  buffer to the delayed decoder when \<open>is_delayed\<close> holds and to the normal decoder
  otherwise.
\<close>

lemma DecodeInstructionInto_buffer:
  "(let m = (case max_inst_size s of
               None \<Rightarrow> MaxInstructionSize (arch (options env))
             | Some m \<Rightarrow> m);
        queried = map (\<lambda>k. Query env (a + of_nat k)) [0..<m];
        inst_bytes = map fst (takeWhile available_and_executable queried)
    in length inst_bytes \<le> m
       \<and> DecodeInstructionInto env a is_delayed s =
           (if is_delayed
            then DecodeDelayedInstruction (arch (options env)) a inst_bytes
            else DecodeInstruction (arch (options env)) a inst_bytes,
            s\<lparr>max_inst_size := Some m\<rparr>))"
proof -
  have "length (takeWhile available_and_executable (map (\<lambda>k. Query env (a + of_nat k)) [0..<m]))
          \<le> m" for m
    using length_takeWhile_le[of available_and_executable
        "map (\<lambda>k. Query env (a + of_nat k)) [0..<m]"]
    by simp
  then show ?thesis
    by (simp add: DecodeInstructionInto_def read_inst_bytes_takeWhile Let_def)
qed

lemma DecodeInstructionInto_state:
  "snd (DecodeInstructionInto env a is_delayed s) =
     s\<lparr>max_inst_size := Some (case max_inst_size s of
                                 None \<Rightarrow> MaxInstructionSize (arch (options env))
                               | Some m \<Rightarrow> m)\<rparr>"
  by (simp add: DecodeInstructionInto_def Let_def)

text \<open>
  Claim C2, on the code. A first lifter, for the toy architecture with instructions of up
  to four bytes, decodes once; the static is now 4. A second lifter is then constructed in
  the same process, for an architecture whose instructions have at most two bytes, and
  decodes at \<open>0x7000\<close>, where four executable bytes are: its decoder is handed all four
  bytes, twice the maximum instruction size of its architecture. In a process of its own
  the second lifter hands its decoder two bytes.
\<close>

theorem DecodeInstructionInto_keeps_first_bound:
  "(case DecodeInstructionInto toy_env 0x1000 False fresh_lifter of
      (first_result, s1) \<Rightarrow>
        max_inst_size s1 = Some 4
        \<and> MaxInstructionSize (arch (options short_env)) = 2
        \<and> bytes (snd (fst (DecodeInstructionInto short_env 0x7000 False
                              (lifter_in_process s1)))) = [0x11, 0x22, 0x33, 0x44]
        \<and> bytes (snd (fst (DecodeInstructionInto short_env 0x7000 False fresh_lifter)))
            = [0x11, 0x22])"
  by (simp add: DecodeInstructionInto_def read_inst_bytes.simps accumulate_inst_byte_def
      lifter_in_process_def fresh_lifter_def short_env_def short_arch_def short_memory_def
      toy_env_def toy_options_def toy_arch_def toy_memory_def toy_inst_def Let_def)

section \<open>Target resolution, proved\<close>

text \<open>
  Claim C5. For every branch-taken address \<open>a\<close>, with \<open>a' = GetRedirection a\<close>: target
  resolution answers with the declaration that the type provider has at \<open>a'\<close>; when it has
  none there and \<open>a'\<close> differs from \<open>a\<close>, with the declaration that it has at \<open>a\<close>; and
  with nothing otherwise. Whichever query gave the declaration, the address of the
  declaration returned is \<open>a'\<close>.
\<close>

theorem TryGetTargetFunctionType_resolution:
  "TryGetTargetFunctionType env a =
     (let a' = GetRedirection (options env) a
      in case TryGetFunctionType env a' of
           Some d \<Rightarrow> Some (d\<lparr>address := a'\<rparr>)
         | None \<Rightarrow>
             if a' \<noteq> a
             then (case TryGetFunctionType env a of
                     Some d \<Rightarrow> Some (d\<lparr>address := a'\<rparr>)
                   | None \<Rightarrow> None)
             else None)
   \<and> (case TryGetTargetFunctionType env a of
         Some d \<Rightarrow> address d = GetRedirection (options env) a
       | None \<Rightarrow> True)"
  by (simp add: TryGetTargetFunctionType_def Let_def split: option.splits)

text \<open>
  The toy type provider has a declaration at \<open>0x4100\<close> only, and \<open>0x4100\<close> is redirected to
  \<open>0x4200\<close>: the declaration is found by the second query and comes back with address
  \<open>0x4200\<close>. Asked for \<open>0x4200\<close> itself, which is not redirected, resolution finds nothing.
\<close>

theorem TryGetTargetFunctionType_resolution_witness:
  "TryGetFunctionType toy_env (GetRedirection (options toy_env) 0x4100) = None
   \<and> TryGetTargetFunctionType toy_env 0x4100 =
       Some \<lparr>address = 0x4200, decl_type = void_function_type, calling_convention = 0\<rparr>
   \<and> TryGetTargetFunctionType toy_env 0x4200 = None"
  using TryGetTargetFunctionType_resolution [of toy_env "0x4100"]
    TryGetTargetFunctionType_resolution [of toy_env "0x4200"]
  by (simp add: toy_env_def toy_options_def Let_def)


section \<open>The return address of a call\<close>

lemma inspect_return_byte_eq:
  "inspect_return_byte q = (if available_and_executable q then Some (fst q) else None)"
  by (cases q) (auto simp: inspect_return_byte_def available_and_executable_def
      split: ByteAvailability.splits BytePermission.splits)

lemma read_return_bytes_gen:
  "i \<le> 4 \<Longrightarrow> length bs = 4 \<Longrightarrow>
   read_return_bytes query p i bs =
     (if list_all available_and_executable (map (\<lambda>k. query (p + of_nat k)) [i..<4])
      then Some (take i bs @ map fst (map (\<lambda>k. query (p + of_nat k)) [i..<4]))
      else None)"
proof (induction query p i bs rule: read_return_bytes.induct)
  case (1 query p i bs)
  show ?case
  proof (cases "i < 4")
    case False
    with "1.prems" have "i = 4" by simp
    with "1.prems" show ?thesis by (subst read_return_bytes.simps) simp
  next
    case True
    then have up: "[i..<4] = i # [Suc i..<4]" by (simp add: upt_conv_Cons)
    show ?thesis
    proof (cases "available_and_executable (query (p + of_nat i))")
      case False
      then show ?thesis using True
        by (subst read_return_bytes.simps) (simp add: inspect_return_byte_eq up)
    next
      case ok: True
      have ih: "read_return_bytes query p (Suc i) (bs[i := fst (query (p + of_nat i))]) =
          (if list_all available_and_executable (map (\<lambda>k. query (p + of_nat k)) [Suc i..<4])
           then Some (take (Suc i) (bs[i := fst (query (p + of_nat i))])
                      @ map fst (map (\<lambda>k. query (p + of_nat k)) [Suc i..<4]))
           else None)"
        using "1.IH"[of "fst (query (p + of_nat i))"] True ok "1.prems"
        by (simp add: inspect_return_byte_eq)
      have tk: "take (Suc i) (bs[i := fst (query (p + of_nat i))]) = take i bs @ [fst (query (p + of_nat i))]"
        using True "1.prems" by (simp add: take_Suc_conv_app_nth)
      show ?thesis using True ok
        by (subst read_return_bytes.simps) (simp add: inspect_return_byte_eq up ih tk)
    qed
  qed
qed

lemma read_return_bytes_eq:
  "read_return_bytes query p 0 [b0, b1, b2, b3] =
     (if list_all available_and_executable (map (\<lambda>k. query (p + of_nat k)) [0..<4])
      then Some (map fst (map (\<lambda>k. query (p + of_nat k)) [0..<4]))
      else None)"
  using read_return_bytes_gen [of 0 "[b0, b1, b2, b3]" query p] by simp

text \<open>
  The union of the source against the claim's words: the word \<open>flat\<close> that the shifts
  build is the instruction word of the four bytes, and the bit-fields \<open>op\<close> and \<open>op2\<close> of
  the union are zero exactly when the \<open>op\<close> and \<open>op2\<close> of the instruction word are.
\<close>

lemma shift_or_byte:
  fixes x :: "32 word" and b :: "8 word"
  shows "push_bit 8 x OR ucast b = x * 256 + of_nat (unat b)"
proof -
  have "push_bit 8 x AND (ucast b :: 32 word) = 0"
    by (auto simp: bit_eq_iff bit_and_iff bit_push_bit_iff bit_ucast_iff dest: bit_imp_le_length)
  then have "push_bit 8 x OR ucast b = push_bit 8 x + ucast b"
    by (simp add: disjunctive_add_eq_or)
  then show ?thesis
    by (simp add: push_bit_eq_mult)
qed

lemma Format0a_flat_of_nat:
  "Format0a_flat [b0, b1, b2, b3] = of_nat (sparc_instruction_word [b0, b1, b2, b3])"
  by (simp add: Format0a_flat_def sparc_instruction_word_def Let_def shift_or_byte algebra_simps)

lemma byte_bound: "unat (b :: 8 word) < 256"
  using unsigned_less[of b] by simp

lemma sparc_instruction_word_bound:
  "sparc_instruction_word [b0, b1, b2, b3] < 2 ^ 32"
  using byte_bound[of b0] byte_bound[of b1] byte_bound[of b2] byte_bound[of b3]
  by (simp add: sparc_instruction_word_def)

lemma Format0a_flat_unat:
  "unat (Format0a_flat [b0, b1, b2, b3]) = sparc_instruction_word [b0, b1, b2, b3]"
  using sparc_instruction_word_bound[of b0 b1 b2 b3]
  by (simp add: Format0a_flat_of_nat unat_of_nat)

lemma and_3_nat: "(n :: nat) AND 3 = n mod 4"
proof -
  have "n AND mask 2 = n mod 2 ^ 2"
    by (simp only: take_bit_eq_mod flip: take_bit_eq_mask)
  moreover have "mask 2 = (3 :: nat)"
    by (simp add: mask_eq_exp_minus_1)
  ultimately show ?thesis by simp
qed

lemma and_7_nat: "(n :: nat) AND 7 = n mod 8"
proof -
  have "n AND mask 3 = n mod 2 ^ 3"
    by (simp only: take_bit_eq_mod flip: take_bit_eq_mask)
  moreover have "mask 3 = (7 :: nat)"
    by (simp add: mask_eq_exp_minus_1)
  ultimately show ?thesis by simp
qed

lemma Format0a_op_unat:
  "unat (Format0a_op w) = (unat w div 2 ^ 30) mod 4"
  by (simp add: Format0a_op_def drop_bit_eq_div unsigned_and_eq and_3_nat unat_div)

lemma Format0a_op2_unat:
  "unat (Format0a_op2 w) = (unat w div 2 ^ 22) mod 8"
  by (simp add: Format0a_op2_def drop_bit_eq_div unsigned_and_eq and_7_nat unat_div)

lemma Format0a_unimp:
  "Format0a_op (Format0a_flat [b0, b1, b2, b3]) = 0 \<and> Format0a_op2 (Format0a_flat [b0, b1, b2, b3]) = 0
   \<longleftrightarrow> spec_encodes_unimp [b0, b1, b2, b3]"
proof -
  let ?w = "sparc_instruction_word [b0, b1, b2, b3]"
  have lt: "?w div 2 ^ 30 < 4"
    using sparc_instruction_word_bound[of b0 b1 b2 b3] by simp
  have "Format0a_op (Format0a_flat [b0, b1, b2, b3]) = 0 \<longleftrightarrow> ?w div 2 ^ 30 = 0"
    using lt by (simp add: Format0a_op_unat Format0a_flat_unat flip: unat_eq_0)
  moreover have "Format0a_op2 (Format0a_flat [b0, b1, b2, b3]) = 0 \<longleftrightarrow> (?w div 2 ^ 22) mod 8 = 0"
    by (simp add: Format0a_op2_unat Format0a_flat_unat flip: unat_eq_0)
  ultimately show ?thesis
    using lt by (simp add: spec_encodes_unimp_def spec_op_def spec_op2_def)
qed

text \<open>
  Claim C6. For every call instruction, with \<open>p\<close> its \<open>branch_not_taken_pc\<close>:
  \<^verbatim>\<open>LoadFunctionReturnAddress\<close> loads the return program counter, and when the
  architecture is SPARC, all four bytes at \<open>p\<close>, \<open>p + 1\<close>, \<open>p + 2\<close>, \<open>p + 3\<close> are available
  and executable (availability \<open>kAvailable\<close>, permission not \<open>kReadable\<close> and not
  \<open>kReadableWritable\<close>), and they encode an \<^verbatim>\<open>unimp\<close> (bits 31 and 30 of the instruction
  word, \<open>op\<close>, and bits 24 to 22, \<open>op2\<close>, are all zero), it returns the resume address
  \<open>p + 4\<close> and the value of an addition of 4 to the loaded return program counter; in
  every other case it returns \<open>p\<close> and the loaded value itself, and emits nothing but the
  load.
\<close>

theorem LoadFunctionReturnAddress_resume:
  "LoadFunctionReturnAddress env inst block s =
     (let p = branch_not_taken_pc inst;
          n = length (block_store s block);
          ret_pc = InstRef block n;
          s1 = append_inst block (LoadInst (RegAddress (state_ptr s) kReturnPCVariableName)) s;
          queried = map (\<lambda>k. Query env (p + of_nat k)) [0..<4]
      in if is_sparc env \<and> list_all available_and_executable queried
            \<and> spec_encodes_unimp (map fst queried)
         then ((p + 4, InstRef block (Suc n)),
               append_inst block (AddInst ret_pc (ConstantInt (address_type env) 4)) s1)
         else ((p, ret_pc), s1))"
proof -
  have four: "[0..<4] = [0, 1, 2, 3 :: nat]"
    by (simp add: upt_rec)
  show ?thesis
    by (simp add: LoadFunctionReturnAddress_def LoadRegValue_def LoadRegAddress_def emit_def
        read_return_bytes_eq Let_def append_inst_def four Format0a_unimp[symmetric])
qed

lemma sparc_memory_at:
  "sparc_memory 0x5008 = (0, ByteAvailability_kAvailable, BytePermission_kReadableExecutable)"
  "sparc_memory 0x5009 = (0, ByteAvailability_kAvailable, BytePermission_kReadableExecutable)"
  "sparc_memory 0x500A = (0, ByteAvailability_kAvailable, BytePermission_kReadableExecutable)"
  "sparc_memory 0x500B = (0x20, ByteAvailability_kAvailable, BytePermission_kReadableExecutable)"
  "sparc_memory 0x5010 = (1, ByteAvailability_kAvailable, BytePermission_kReadableExecutable)"
  "sparc_memory 0x5011 = (0, ByteAvailability_kAvailable, BytePermission_kReadableExecutable)"
  "sparc_memory 0x5012 = (0, ByteAvailability_kAvailable, BytePermission_kReadableExecutable)"
  "sparc_memory 0x5013 = (0, ByteAvailability_kAvailable, BytePermission_kReadableExecutable)"
  "sparc_memory 0x5020 = (0, ByteAvailability_kAvailable, BytePermission_kReadableExecutable)"
  "sparc_memory 0x5021 = (0, ByteAvailability_kAvailable, BytePermission_kReadableExecutable)"
  "sparc_memory 0x5022 = (0, ByteAvailability_kAvailable, BytePermission_kReadableExecutable)"
  "sparc_memory 0x5023 = (0x20, ByteAvailability_kAvailable, BytePermission_kReadableWritable)"
  "sparc_memory 0x5030 = (0x40, ByteAvailability_kAvailable, BytePermission_kReadableExecutable)"
  "sparc_memory 0x5031 = (0, ByteAvailability_kAvailable, BytePermission_kReadableExecutable)"
  "sparc_memory 0x5032 = (0, ByteAvailability_kAvailable, BytePermission_kReadableExecutable)"
  "sparc_memory 0x5033 = (0, ByteAvailability_kAvailable, BytePermission_kReadableExecutable)"
  "sparc_memory 0x5040 = (0x3e, ByteAvailability_kAvailable, BytePermission_kReadableExecutable)"
  "sparc_memory 0x5041 = (0x3f, ByteAvailability_kAvailable, BytePermission_kReadableExecutable)"
  "sparc_memory 0x5042 = (0xff, ByteAvailability_kAvailable, BytePermission_kReadableExecutable)"
  "sparc_memory 0x5043 = (0xff, ByteAvailability_kAvailable, BytePermission_kReadableExecutable)"
  by (simp_all add: sparc_memory_def)

text \<open>
  On SPARC, a call followed by \<^verbatim>\<open>unimp 32\<close> at \<open>0x5008\<close> resumes at \<open>0x500C\<close> with the
  incremented value, and so does a call followed by the word \<open>3E3FFFFF\<close>, whose \<open>op\<close> and
  \<open>op2\<close> are zero; followed by a \<^verbatim>\<open>nop\<close> (\<open>op2 = 4\<close>), by a \<^verbatim>\<open>call\<close> (\<open>op = 1\<close>,
  \<open>op2 = 0\<close>), or by an \<^verbatim>\<open>unimp\<close> with a byte that is not executable, it resumes at the
  address itself with the loaded value; and so does the call followed by \<^verbatim>\<open>unimp 32\<close> on
  the architecture that is not SPARC.
\<close>

theorem LoadFunctionReturnAddress_resume_witness:
  "fst (LoadFunctionReturnAddress sparc_env sparc_call 1 lifter_at_block) = (0x500C, InstRef 1 1)
   \<and> block_store (snd (LoadFunctionReturnAddress sparc_env sparc_call 1 lifter_at_block)) 1 =
       [LoadInst (RegAddress (Argument 0) ''RETURN_PC''),
        AddInst (InstRef 1 0) (ConstantInt (IntegerTy 32) 4)]
   \<and> fst (LoadFunctionReturnAddress sparc_env (sparc_call\<lparr>branch_not_taken_pc := 0x5040\<rparr>) 1
            lifter_at_block) = (0x5044, InstRef 1 1)
   \<and> fst (LoadFunctionReturnAddress sparc_env (sparc_call\<lparr>branch_not_taken_pc := 0x5010\<rparr>) 1
            lifter_at_block) = (0x5010, InstRef 1 0)
   \<and> fst (LoadFunctionReturnAddress sparc_env (sparc_call\<lparr>branch_not_taken_pc := 0x5030\<rparr>) 1
            lifter_at_block) = (0x5030, InstRef 1 0)
   \<and> fst (LoadFunctionReturnAddress sparc_env (sparc_call\<lparr>branch_not_taken_pc := 0x5020\<rparr>) 1
            lifter_at_block) = (0x5020, InstRef 1 0)
   \<and> fst (LoadFunctionReturnAddress not_sparc_env sparc_call 1 lifter_at_block) = (0x5008, InstRef 1 0)"
  using LoadFunctionReturnAddress_resume [of sparc_env sparc_call 1 lifter_at_block]
    LoadFunctionReturnAddress_resume [of sparc_env "sparc_call\<lparr>branch_not_taken_pc := 0x5040\<rparr>" 1 lifter_at_block]
    LoadFunctionReturnAddress_resume [of sparc_env "sparc_call\<lparr>branch_not_taken_pc := 0x5010\<rparr>" 1 lifter_at_block]
    LoadFunctionReturnAddress_resume [of sparc_env "sparc_call\<lparr>branch_not_taken_pc := 0x5030\<rparr>" 1 lifter_at_block]
    LoadFunctionReturnAddress_resume [of sparc_env "sparc_call\<lparr>branch_not_taken_pc := 0x5020\<rparr>" 1 lifter_at_block]
    LoadFunctionReturnAddress_resume [of not_sparc_env sparc_call 1 lifter_at_block]
  by (simp add: sparc_env_def not_sparc_env_def sparc_call_def sparc_memory_at lifter_at_block_def
      fresh_lifter_def toy_env_def toy_options_def toy_arch_def is_sparc_def
      available_and_executable_def upt_rec spec_encodes_unimp_def spec_op_def spec_op2_def
      sparc_instruction_word_def address_type_def append_inst_def Let_def
      kStatePointerArgNum_def kReturnPCVariableName_def)

section \<open>Facts about the concrete inputs\<close>

lemma toy_env_fields [simp]:
  "options toy_env = toy_options"
  "Query toy_env = toy_memory"
  "IsValidAddress toy_env av = (av \<noteq> ByteAvailability_kUnavailable)"
  "IsExecutable toy_env p = (p \<noteq> BytePermission_kReadable \<and> p \<noteq> BytePermission_kReadableWritable)"
  "HasByte toy_env av = (av = ByteAvailability_kAvailable)"
  "TranslateType toy_env t = ''v''"
  "FLAGS_print_registers_before_instuctions toy_env = False"
  "FLAGS_add_breakpoints toy_env = False"
  "QueryRegisterStateAtInstruction toy_env f a = []"
  "FunctionDecl_Create toy_env t c = Some \<lparr>address = 0, decl_type = t, calling_convention = c\<rparr>"
  by (simp_all add: toy_env_def)

lemma toy_decl_fields [simp]:
  "address (toy_decl a) = a"
  "decl_type (toy_decl a) = void_function_type"
  "calling_convention (toy_decl a) = 0"
  by (simp_all add: toy_decl_def)

lemma sub_name_toy:
  "sub_name toy_env (toy_decl 0x1000) = ''sub_1000_v_0''"
  "sub_name toy_env (toy_decl 0x2000) = ''sub_2000_v_0''"
  "sub_name toy_env (toy_decl 0x3000) = ''sub_3000_v_0''"
  "sub_name toy_env (toy_decl 0x6000) = ''sub_6000_v_0''"
  by (simp_all add: sub_name_def digit_char_def hex_of_nat.simps dec_of_nat.simps)

lemma toy_options_fields [simp]:
  "arch toy_options = toy_arch"
  "GetRedirection toy_options a = (if a = 0x4100 then 0x4200 else a)"
  "symbolic_register_types toy_options = True"
  "store_inferred_register_values toy_options = False"
  "symbolic_stack_pointer toy_options = True"
  "symbolic_program_counter toy_options = False"
  by (simp_all add: toy_options_def)

lemma toy_arch_fields [simp]:
  "MaxInstructionSize toy_arch = 4"
  "DecodeInstruction toy_arch = toy_decode"
  "DecodeDelayedInstruction toy_arch = toy_decode"
  "MayHaveDelaySlot toy_arch i = False"
  "NextInstructionIsDelayed toy_arch i d t = False"
  "IsSPARC32 toy_arch = False"
  "IsSPARC64 toy_arch = False"
  "address_size toy_arch = 64"
  "StackPointerRegisterName toy_arch = ''RSP''"
  by (simp_all add: toy_arch_def)

lemma toy_TryGetFunctionType [simp]:
  "TryGetFunctionType toy_env a =
     (if a = 0x4100
      then Some \<lparr>address = 0x4100, decl_type = void_function_type, calling_convention = 0\<rparr>
      else None)"
  by (simp add: toy_env_def)

lemma toy_RegisterByName [simp]:
  "RegisterByName toy_arch ''RSP'' = Some \<lparr>name = ''RSP'', type = IntegerTy 64, EnclosingRegister = ''RSP''\<rparr>"
  "RegisterByName toy_arch ''EAX'' = Some \<lparr>name = ''EAX'', type = IntegerTy 32, EnclosingRegister = ''RAX''\<rparr>"
  "RegisterByName toy_arch ''RAX'' = Some \<lparr>name = ''RAX'', type = IntegerTy 64, EnclosingRegister = ''RAX''\<rparr>"
  by (simp_all add: toy_arch_def toy_registers_def)

section \<open>What the start of a lift clears\<close>

text \<open>
  Claim C3, as stated, at a concrete input. A first lift, of the declaration at \<open>0x3000\<close>
  (a valid address without a byte), declares \<open>sub_3000_v_0\<close> and records its name. At the
  start of the next lift, of the declaration at \<open>0x6000\<close>, the map from function names to
  addresses still holds that name, and it holds it when that lift has returned (a null
  pointer, \<open>0x6000\<close> being no valid address): the reverse map is not reset.
\<close>

theorem stale_name_counterexample:
  "(case LiftFunction 0 toy_env (toy_decl 0x3000) fresh_lifter of
      Inr (r, s1) \<Rightarrow>
        r = Some ''sub_3000_v_0''
        \<and> func_name_to_address (LiftFunction_reset (toy_decl 0x6000) s1) ''sub_3000_v_0'' = Some 0x3000
        \<and> (case LiftFunction 0 toy_env (toy_decl 0x6000) s1 of
              Inr (r', s2) \<Rightarrow> r' = None \<and> func_name_to_address s2 ''sub_3000_v_0'' = Some 0x3000
            | Inl e \<Rightarrow> False)
    | Inl e \<Rightarrow> False)"
  by (simp add: LiftFunction_def LiftFunction_reset_def DeclareFunction_def GetOrDeclareFunction_def
     Let_def sub_name_toy isDeclaration_def toy_memory_def fresh_lifter_def)

text \<open>
  Claim C3, amended. At the start of every \<^verbatim>\<open>LiftFunction\<close> call the edge-to-block map,
  the work list, the address-to-block map, the address-to-declaration cache and the
  address-to-function cache are reset to empty, and the map from function names to
  addresses is left as it was. Whatever previous calls left in the five that are reset has
  no effect on the call: its outcome is the same from a lifter that differs in them only.
\<close>

theorem LiftFunction_reset_clears:
  "(let s' = LiftFunction_reset decl s
    in edge_to_dest_block s' = Map.empty \<and> edge_work_list s' = [] \<and> addr_to_block s' = Map.empty
       \<and> addr_to_decl s' = Map.empty \<and> addr_to_func s' = Map.empty
       \<and> func_name_to_address s' = func_name_to_address s)
   \<and> LiftFunction fuel env decl
        (s\<lparr>edge_to_dest_block := e, edge_work_list := w, addr_to_block := ab,
           addr_to_decl := ad, addr_to_func := af\<rparr>)
       = LiftFunction fuel env decl s"
  by (simp add: LiftFunction_def LiftFunction_reset_def Let_def)

theorem LiftFunction_reset_clears_witness:
  "edge_to_dest_block (LiftFunction_reset (toy_decl 0x3000) stale_lifter) = Map.empty
   \<and> edge_work_list (LiftFunction_reset (toy_decl 0x3000) stale_lifter) = []
   \<and> addr_to_block (LiftFunction_reset (toy_decl 0x3000) stale_lifter) = Map.empty
   \<and> addr_to_decl (LiftFunction_reset (toy_decl 0x3000) stale_lifter) = Map.empty
   \<and> addr_to_func (LiftFunction_reset (toy_decl 0x3000) stale_lifter) = Map.empty
   \<and> func_name_to_address (LiftFunction_reset (toy_decl 0x3000) stale_lifter) ''sub_1000_v_0''
       = Some 0x1000
   \<and> LiftFunction 0 toy_env (toy_decl 0x3000) stale_lifter
       = LiftFunction 0 toy_env (toy_decl 0x3000)
           (fresh_lifter\<lparr>func_name_to_address := [''sub_1000_v_0'' \<mapsto> 0x1000]\<rparr>)"
  using LiftFunction_reset_clears [of "toy_decl 0x3000" stale_lifter]
    LiftFunction_reset_clears [where decl = "toy_decl 0x3000"
      and s = "fresh_lifter\<lparr>func_name_to_address := [''sub_1000_v_0'' \<mapsto> 0x1000]\<rparr>"
      and fuel = 0 and env = toy_env and e = "[(0, 0x1000) \<mapsto> 1]" and w = "[(0x1000, 0)]"
      and ab = "[0x1000 \<mapsto> 1]" and ad = "[0x1000 \<mapsto> toy_decl 0x1000]"
      and af = "[0x1000 \<mapsto> ''sub_1000_v_0'']"]
  by (simp add: stale_lifter_def Let_def)


section \<open>The dispatch of conditional direct calls\<close>

lemma dispatch_conditional_direct_call:
  "category inst = kCategoryConditionalDirectFunctionCall \<Longrightarrow>
   dispatch_category env inst delayed_inst block s = VisitDirectFunctionCall env inst delayed_inst block s"
  by (simp add: dispatch_category_def)

text \<open>
  Claim C1, on the code. A conditional direct call at \<open>0x2100\<close> is visited in block 1.
  The dispatch sends it to the visitor of unconditional direct calls: the call (here of
  the function-call intrinsic, the target having no declaration) and the post-call wiring
  are put into block 1 itself, no condition is loaded, no taken and no not-taken block is
  created, and the only new block is the resume block 2. The visitor that the lifter has
  for this category, which the dispatch does not call, splits block 1 on the branch
  condition, puts the call into the taken block 2 and lets the not-taken block 3 branch
  without a call.
\<close>

theorem conditional_direct_call_not_split:
  "(case VisitInstruction toy_env conditional_call 1 lifter_at_block of
      Inr s' \<Rightarrow>
        block_store s' 1 =
          [LiftIntoBlock conditional_call (Argument 0) False,
           LoadInst (VarRef ''PC''),
           LoadInst (VarRef ''MEMORY''),
           CallInst ''__remill_function_call'' [Argument 0, InstRef 1 1, InstRef 1 2] False,
           LoadInst (RegAddress (Argument 0) ''RETURN_PC''),
           StoreInst (InstRef 1 4) (RegAddress (Argument 0) ''PC''),
           StoreInst (InstRef 1 4) (RegAddress (Argument 0) ''NEXT_PC''),
           BranchInst 2]
        \<and> next_block s' = 3
        \<and> edge_to_dest_block s' (0x2100, 0x2104) = Some 2
    | Inl e \<Rightarrow> False)
   \<and> (case VisitConditionalDirectFunctionCall toy_env conditional_call None 1 lifter_at_block of
         Inr s' \<Rightarrow>
           block_store s' 1 =
             [LoadInst (VarRef ''BRANCH_TAKEN''),
              ICmpEqInst (InstRef 1 0) (ConstantInt (IntegerTy 8) 1),
              CondBranchInst 2 3 (InstRef 1 1)]
           \<and> block_store s' 2 =
             [LoadInst (VarRef ''PC''),
              LoadInst (VarRef ''MEMORY''),
              CallInst ''__remill_function_call'' [Argument 0, InstRef 2 0, InstRef 2 1] False,
              LoadInst (RegAddress (Argument 0) ''RETURN_PC''),
              StoreInst (InstRef 2 3) (RegAddress (Argument 0) ''PC''),
              StoreInst (InstRef 2 3) (RegAddress (Argument 0) ''NEXT_PC''),
              BranchInst 4]
           \<and> block_store s' 3 = [BranchInst 4]
       | Inl e \<Rightarrow> False)"
  by (simp add: VisitInstruction_def dispatch_category_def VisitDirectFunctionCall_def
      VisitConditionalDirectFunctionCall_def split_on_branch_taken_def LoadBranchTaken_def
      VisitDelayedInstruction_def CallFunction_def TryGetTargetFunctionType_def
      VisitAfterFunctionCall_def LoadFunctionReturnAddress_def LoadRegValue_def LoadRegAddress_def
      branch_to_target_def GetOrCreateTargetBlock_def GetOrCreateBlock_def BasicBlock_Create_def
      AddCall_def LoadProgramCounter_def LoadMemoryPointer_def LoadMemoryPointerRef_def
      emit_def append_inst_def is_sparc_def Let_def
      conditional_call_def lifter_at_block_def fresh_lifter_def
      kStatePointerArgNum_def kPCVariableName_def kNextPCVariableName_def kMemoryVariableName_def
      kReturnPCVariableName_def kBranchTakenVariableName_def intrinsics_function_call_def)

section \<open>Type hints, proved\<close>

text \<open>
  Claim C8, as stated, at a concrete input. With the symbolic stack pointer enabled, a hint
  of pointer type on the stack pointer \<open>RSP\<close>, a top-level register of address size, gets
  the load, the call of the type function, the cast and the store like any other
  register: the visitor has no test for the stack pointer.
\<close>

theorem stack_pointer_hint_counterexample:
  "symbolic_stack_pointer (options toy_env)
   \<and> StackPointerRegisterName (arch (options toy_env)) = ''RSP''
   \<and> (case VisitTypedHintedRegister toy_env 1 ''RSP'' (PointerTy (IntegerTy 8)) None
             (lifter_at_block\<lparr>curr_inst := Some conditional_call\<rparr>) of
         Inr s' \<Rightarrow>
           block_store s' 1 =
             [LoadInst (RegAddress (Argument 0) ''RSP''),
              CallInst ''__anvill_type_v'' [InstRef 1 0] False,
              PtrToIntInst (InstRef 1 1) (IntegerTy 64),
              StoreInst (InstRef 1 2) (RegAddress (Argument 0) ''RSP'')]
       | Inl e \<Rightarrow> False)"
  by (simp add: VisitTypedHintedRegister_def GetOrCreateTaintedFunction_def LoadRegAddress_def
      emit_def append_inst_def Let_def lifter_at_block_def fresh_lifter_def
      kStatePointerArgNum_def kTypeHintFunctionPrefix_def)

text \<open>
  Claim C8, amended. For every register-type hint visited at an instruction, on a register
  that the architecture knows: the visitor emits something only when the hinted register
  is a top-level register of the integer type of address size, the stack pointer included.
  For such a register it first, when inferred values are stored and the hint has a value,
  loads the register and stores the value as a constant; then, when the hinted type is a
  pointer, it calls the function named by the type-hint prefix and the printed hinted type
  on the current value of the register (the load of the register, or the constant just
  stored), casts the result to the register's integer type and stores it into the
  register. That function is the one the module has under this name, or a new external
  declaration with the read-none attribute, from the register's type to the hinted type.
  For a sub-register or a register of another type nothing is emitted and the module is
  unchanged.
\<close>

theorem VisitTypedHintedRegister_effect:
  assumes reg: "RegisterByName (arch (options env)) reg_name = Some reg"
    and ci: "curr_inst s = Some ci"
  shows
  "(let top_level = (EnclosingRegister reg = name reg
                      \<and> isIntegerTy (type reg) (address_size (arch (options env))));
        n = length (block_store s block);
        reg_pointer = RegAddress (state_ptr s) reg_name;
        func_name = kTypeHintFunctionPrefix @ TranslateType env ty;
        stored = (case maybe_value of
                    Some v \<Rightarrow> if store_inferred_register_values (options env)
                              then Some (ConstantInt (type reg) v) else None
                  | None \<Rightarrow> None);
        store_part = (case stored of
                        Some c \<Rightarrow> [LoadInst reg_pointer, StoreInst c reg_pointer]
                      | None \<Rightarrow> []);
        taint_part = (case stored of
                        Some c \<Rightarrow>
                          [CallInst func_name [c] False,
                           PtrToIntInst (InstRef block (n + 2)) (type reg),
                           StoreInst (InstRef block (n + 3)) reg_pointer]
                      | None \<Rightarrow>
                          [LoadInst reg_pointer,
                           CallInst func_name [InstRef block n] False,
                           PtrToIntInst (InstRef block (n + 1)) (type reg),
                           StoreInst (InstRef block (n + 2)) reg_pointer]);
        emitted = (if top_level
                   then store_part @ (if isPointerTy ty then taint_part else [])
                   else [])
    in case VisitTypedHintedRegister env block reg_name ty maybe_value s of
         Inl e \<Rightarrow> False
       | Inr s' \<Rightarrow>
           block_store s' = (block_store s)(block := block_store s block @ emitted)
           \<and> (if top_level \<and> isPointerTy ty
               then semantics_module s' =
                      (case semantics_module s func_name of
                         Some f \<Rightarrow> semantics_module s
                       | None \<Rightarrow> (semantics_module s)(func_name \<mapsto>
                           \<lparr>function_type = FunctionTy ty [type reg], blocks = [],
                            fn_attrs = {ReadNone}, linkage = ExternalLinkage, calling_conv = 0\<rparr>))
               else semantics_module s' = semantics_module s))"
  using reg ci
  by (auto simp: VisitTypedHintedRegister_def GetOrCreateTaintedFunction_def LoadRegAddress_def
      emit_def append_inst_def Let_def split: option.splits)

text \<open>
  In the toy architecture a pointer hint on \<open>RAX\<close> emits the four instructions and declares
  the type function; the same hint on the sub-register \<open>EAX\<close> emits nothing.
\<close>

theorem VisitTypedHintedRegister_effect_witness:
  "(case VisitTypedHintedRegister toy_env 1 ''RAX'' (PointerTy (IntegerTy 8)) None
           (lifter_at_block\<lparr>curr_inst := Some conditional_call\<rparr>) of
      Inr s' \<Rightarrow>
        block_store s' 1 =
          [LoadInst (RegAddress (Argument 0) ''RAX''),
           CallInst ''__anvill_type_v'' [InstRef 1 0] False,
           PtrToIntInst (InstRef 1 1) (IntegerTy 64),
           StoreInst (InstRef 1 2) (RegAddress (Argument 0) ''RAX'')]
        \<and> semantics_module s' ''__anvill_type_v'' =
            Some \<lparr>function_type = FunctionTy (PointerTy (IntegerTy 8)) [IntegerTy 64], blocks = [],
                  fn_attrs = {ReadNone}, linkage = ExternalLinkage, calling_conv = 0\<rparr>
    | Inl e \<Rightarrow> False)
   \<and> (case VisitTypedHintedRegister toy_env 1 ''EAX'' (PointerTy (IntegerTy 8)) None
           (lifter_at_block\<lparr>curr_inst := Some conditional_call\<rparr>) of
         Inr s' \<Rightarrow> block_store s' 1 = [] \<and> semantics_module s' ''__anvill_type_v'' = None
       | Inl e \<Rightarrow> False)"
  using VisitTypedHintedRegister_effect [of toy_env "''RAX''"
      "\<lparr>name = ''RAX'', type = IntegerTy 64, EnclosingRegister = ''RAX''\<rparr>"
      "lifter_at_block\<lparr>curr_inst := Some conditional_call\<rparr>" conditional_call
      1 "PointerTy (IntegerTy 8)" None]
    VisitTypedHintedRegister_effect [of toy_env "''EAX''"
      "\<lparr>name = ''EAX'', type = IntegerTy 32, EnclosingRegister = ''RAX''\<rparr>"
      "lifter_at_block\<lparr>curr_inst := Some conditional_call\<rparr>" conditional_call
      1 "PointerTy (IntegerTy 8)" None]
  by (simp add: Let_def lifter_at_block_def fresh_lifter_def kStatePointerArgNum_def
      kTypeHintFunctionPrefix_def split: sum.splits)

section \<open>The result of the second half of a lift\<close>

lemma lift_body_result:
  "lift_body fuel env nf s = Inr (r, s') \<Longrightarrow> r = Some nf"
  by (auto simp: lift_body_def Let_def split: option.splits if_splits list.splits sum.splits prod.splits)

section \<open>The invariant of a lift\<close>

text \<open>
  Every primitive and every visitor of the lifter keeps the invariant of the lift and the
  frame of the blocks before it; so does the work-list loop, by induction on its fuel.
\<close>

lemma module_le_refl [simp]: "module_le m m"
  by (simp add: module_le_def)

lemma module_le_trans: "module_le m1 m2 \<Longrightarrow> module_le m2 m3 \<Longrightarrow> module_le m1 m3"
  unfolding module_le_def by (metis (no_types, lifting))

lemma module_le_declare: "m f = None \<Longrightarrow> module_le m (m(f \<mapsto> g))"
  by (auto simp: module_le_def)

lemma module_le_new_block: "m p = Some f \<Longrightarrow> module_le m (m(p \<mapsto> f\<lparr>blocks := blocks f @ [b]\<rparr>))"
  by (auto simp: module_le_def)

lemma frame_refl [simp]: "frame ent s s"
  by (simp add: frame_def)

lemma frame_trans: "frame ent s1 s2 \<Longrightarrow> frame ent s2 s3 \<Longrightarrow> frame ent s1 s3"
  unfolding frame_def by (auto intro: module_le_trans)

lemma good_step: "good ent si s \<Longrightarrow> lift_inv ent s' \<Longrightarrow> frame ent s s' \<Longrightarrow> good ent si s'"
  by (auto simp: good_def intro: frame_trans)

lemma good_refl: "lift_inv ent s \<Longrightarrow> good ent s s"
  by (simp add: good_def)

lemma good_next_block: "good ent si s \<Longrightarrow> ent < next_block s"
  by (simp add: good_def lift_inv_def)

lemma good_edge: "good ent si s \<Longrightarrow> edge_to_dest_block s (a, c) = Some b \<Longrightarrow> ent < b"
  by (auto simp: good_def lift_inv_def)

lemma good_append_inst [simp]:
  assumes "good ent si s" "ent < b" "state_escape_muted i"
  shows "good ent si (append_inst b i s)"
  using assms
  by (intro good_step[OF assms(1)]) (auto simp: good_def lift_inv_def frame_def append_inst_def)

lemma good_BasicBlock_Create:
  assumes "good ent si s" "BasicBlock_Create p s = (b, s')"
  shows "good ent si s' \<and> ent < b"
proof -
  have lt: "ent < next_block s" using assms(1) by (rule good_next_block)
  have b: "b = next_block s" using assms(2) by (auto simp: BasicBlock_Create_def Let_def)
  have inv: "lift_inv ent s'"
    using assms by (auto simp: good_def lift_inv_def BasicBlock_Create_def Let_def less_Suc_eq)
  have ml: "module_le (semantics_module s) (semantics_module s')"
    using assms(2)
    by (auto simp: BasicBlock_Create_def Let_def module_le_new_block split: option.splits)
  have fr: "frame ent s s'"
    using assms(2) lt ml by (auto simp: frame_def BasicBlock_Create_def Let_def)
  show ?thesis using good_step[OF assms(1) inv fr] lt b by simp
qed

lemma good_irrelevant [simp]:
  "good ent si (s\<lparr>addr_to_block := ab\<rparr>) = good ent si s"
  "good ent si (s\<lparr>addr_to_decl := ad\<rparr>) = good ent si s"
  "good ent si (s\<lparr>addr_to_func := af\<rparr>) = good ent si s"
  "good ent si (s\<lparr>func_name_to_address := fa\<rparr>) = good ent si s"
  "good ent si (s\<lparr>curr_inst := ci\<rparr>) = good ent si s"
  "good ent si (s\<lparr>state_ptr := sp\<rparr>) = good ent si s"
  "good ent si (s\<lparr>native_func := nf\<rparr>) = good ent si s"
  "good ent si (s\<lparr>lifted_func := lf\<rparr>) = good ent si s"
  "good ent si (s\<lparr>log_printf := lp\<rparr>) = good ent si s"
  "good ent si (s\<lparr>edge_work_list := wl\<rparr>) = good ent si s"
  "good ent si (s\<lparr>func_address := a\<rparr>) = good ent si s"
  "good ent si (s\<lparr>block_parent := bp\<rparr>) = good ent si s"
  "good ent si (s\<lparr>max_inst_size := ms\<rparr>) = good ent si s"
  by (simp_all add: good_def lift_inv_def frame_def)

lemma good_DecodeInstructionInto:
  "DecodeInstructionInto env a is_delayed s = (r, s') \<Longrightarrow> good ent si s' = good ent si s"
  using DecodeInstructionInto_state[of env a is_delayed s] by auto

lemma good_module_update [simp]:
  assumes "good ent si s" "module_le (semantics_module s) m"
  shows "good ent si (s\<lparr>semantics_module := m\<rparr>)"
  using assms
  by (intro good_step[OF assms(1)]) (auto simp: good_def lift_inv_def frame_def)

declare module_le_declare [simp]

lemma good_GetOrCreateBlock:
  assumes "good ent si s" "GetOrCreateBlock a s = (b, s')"
  shows "good ent si s' \<and> ent < b"
proof (cases "edge_to_dest_block s (case curr_inst s of None \<Rightarrow> 0 | Some i \<Rightarrow> pc i, a)")
  case (Some b')
  with assms show ?thesis
    by (auto simp: GetOrCreateBlock_def Let_def dest: good_edge)
next
  case None
  obtain b1 s1 where c: "BasicBlock_Create (lifted_func s) s = (b1, s1)"
    by (cases "BasicBlock_Create (lifted_func s) s")
  from good_BasicBlock_Create[OF assms(1) c] have g1: "good ent si s1" and lt: "ent < b1" by auto
  have e1: "edge_to_dest_block s1 = edge_to_dest_block s"
    using c by (auto simp: BasicBlock_Create_def Let_def)
  let ?k = "(case curr_inst s of None \<Rightarrow> 0 | Some i \<Rightarrow> pc i, a)"
  have s': "s' = s1\<lparr>edge_to_dest_block := (edge_to_dest_block s1)(?k \<mapsto> b1),
                    edge_work_list := emplace (a, fst ?k) (edge_work_list s1)\<rparr>" and b: "b = b1"
    using assms(2) None c by (auto simp: GetOrCreateBlock_def Let_def)
  have "lift_inv ent s'"
    using g1 lt by (auto simp: s' good_def lift_inv_def)
  moreover have "frame ent s1 s'"
    using None e1 by (auto simp: s' frame_def)
  ultimately show ?thesis using good_step[OF g1] lt b by simp
qed

lemma good_branch_to_target [simp]:
  "good ent si s \<Longrightarrow> ent < block \<Longrightarrow> good ent si (branch_to_target env a block s)"
  by (auto simp: branch_to_target_def GetOrCreateTargetBlock_def Let_def split: prod.splits
      dest: good_GetOrCreateBlock)


lemma AddCall_eq:
  "AddCall b f s =
     (InstRef b (length (block_store s b) + 2),
      append_inst b (CallInst f [Argument kStatePointerArgNum,
                                 InstRef b (length (block_store s b)),
                                 InstRef b (Suc (length (block_store s b)))] False)
        (append_inst b (LoadInst (VarRef kMemoryVariableName))
           (append_inst b (LoadInst (VarRef kPCVariableName)) s)))"
  by (simp add: AddCall_def LoadProgramCounter_def LoadMemoryPointer_def LoadMemoryPointerRef_def
      emit_def append_inst_def Let_def)

lemma list_update_third:
  "(xs @ [a, b, c])[Suc (Suc (length xs)) := d] = xs @ [a, b, d]"
  "(xs @ [a, b, c] @ [r])[Suc (Suc (length xs)) := d] = xs @ [a, b, d, r]"
  "(xs @ [a, b, c, r])[Suc (Suc (length xs)) := d] = xs @ [a, b, d, r]"
  by (simp_all add: list_update_append)

lemma AddTerminatingTailCall_eq:
  "snd (AddTerminatingTailCall b f s) =
     append_inst b (ReturnInst (InstRef b (length (block_store s b) + 2)))
       (append_inst b (CallInst f [Argument kStatePointerArgNum,
                                   InstRef b (length (block_store s b)),
                                   InstRef b (Suc (length (block_store s b)))] True)
          (append_inst b (LoadInst (VarRef kMemoryVariableName))
             (append_inst b (LoadInst (VarRef kPCVariableName)) s)))"
  by (simp add: AddTerminatingTailCall_def AddCall_eq setTailCall_def append_inst_def Let_def
      nth_append list_update_third)

lemma MuteStateEscape_AddTerminatingTailCall_eq:
  "MuteStateEscape_of (AddTerminatingTailCall b f s) =
     append_inst b (ReturnInst (InstRef b (length (block_store s b) + 2)))
       (append_inst b (CallInst f [UndefValue,
                                   InstRef b (length (block_store s b)),
                                   InstRef b (Suc (length (block_store s b)))] True)
          (append_inst b (LoadInst (VarRef kMemoryVariableName))
             (append_inst b (LoadInst (VarRef kPCVariableName)) s)))"
  by (simp add: MuteStateEscape_of_def MuteStateEscape_def setArgOperand_def
      AddTerminatingTailCall_def AddCall_eq setTailCall_def append_inst_def Let_def
      nth_append kStatePointerArgNum_def list_update_third)

lemma good_AddCall [simp]:
  "good ent si s \<Longrightarrow> ent < b \<Longrightarrow> good ent si (snd (AddCall b f s))"
  by (simp add: AddCall_eq)

lemma good_muted_tail_call [simp]:
  "good ent si s \<Longrightarrow> ent < b \<Longrightarrow> good ent si (MuteStateEscape_of (AddTerminatingTailCall b f s))"
  by (simp add: MuteStateEscape_AddTerminatingTailCall_eq kStatePointerArgNum_def)

lemma good_tail_call [simp]:
  "good ent si s \<Longrightarrow> ent < b \<Longrightarrow> f \<noteq> intrinsics_error \<Longrightarrow> f \<noteq> intrinsics_function_return \<Longrightarrow>
   good ent si (snd (AddTerminatingTailCall b f s))"
  by (simp add: AddTerminatingTailCall_eq)

lemma intrinsics_distinct [simp]:
  "intrinsics_jump \<noteq> intrinsics_error" "intrinsics_jump \<noteq> intrinsics_function_return"
  "intrinsics_async_hyper_call \<noteq> intrinsics_error"
  "intrinsics_async_hyper_call \<noteq> intrinsics_function_return"
  by (simp_all add: intrinsics_jump_def intrinsics_error_def intrinsics_function_return_def
      intrinsics_async_hyper_call_def)

lemma good_split:
  assumes "split_on_branch_taken block s = ((t, nt), s')" "good ent si s" "ent < block"
  shows "good ent si s' \<and> ent < t \<and> ent < nt"
proof -
  let ?s1 = "snd (LoadBranchTaken block s)"
  have g1: "good ent si ?s1"
    using assms(2,3) by (simp add: LoadBranchTaken_def emit_def Let_def)
  obtain b2 s2 where c2: "BasicBlock_Create (block_parent s block) ?s1 = (b2, s2)"
    by (cases "BasicBlock_Create (block_parent s block) ?s1")
  obtain b3 s3 where c3: "BasicBlock_Create (block_parent s block) s2 = (b3, s3)"
    by (cases "BasicBlock_Create (block_parent s block) s2")
  from good_BasicBlock_Create[OF g1 c2] have g2: "good ent si s2" "ent < b2" by auto
  from good_BasicBlock_Create[OF g2(1) c3] have g3: "good ent si s3" "ent < b3" by auto
  show ?thesis
    using assms c2 c3 g2 g3
    by (auto simp: split_on_branch_taken_def Let_def split: prod.splits)
qed

lemma good_VisitDelayedInstruction [simp]:
  "good ent si s \<Longrightarrow> ent < block \<Longrightarrow> good ent si (VisitDelayedInstruction env inst d block t s)"
  by (simp add: VisitDelayedInstruction_def split: option.splits)

lemma good_LoadFunctionReturnAddress:
  assumes "LoadFunctionReturnAddress env inst block s = ((a, v), s')" "good ent si s" "ent < block"
  shows "good ent si s'"
  using assms
  by (auto simp: LoadFunctionReturnAddress_def LoadRegValue_def emit_def Let_def
      split: if_splits option.splits)

lemma good_VisitAfterFunctionCall [simp]:
  "good ent si s \<Longrightarrow> ent < block \<Longrightarrow> good ent si (VisitAfterFunctionCall env inst block s)"
  by (auto simp: VisitAfterFunctionCall_def Let_def split: prod.splits
      dest: good_LoadFunctionReturnAddress)

lemma good_simple_visitors [simp]:
  "good ent si s \<Longrightarrow> ent < block \<Longrightarrow> good ent si (VisitInvalid env inst block s)"
  "good ent si s \<Longrightarrow> ent < block \<Longrightarrow> good ent si (VisitError env inst d block s)"
  "good ent si s \<Longrightarrow> ent < block \<Longrightarrow> good ent si (VisitNormal env inst block s)"
  "good ent si s \<Longrightarrow> ent < block \<Longrightarrow> good ent si (VisitNoOp env inst block s)"
  "good ent si s \<Longrightarrow> ent < block \<Longrightarrow> good ent si (VisitDirectJump env inst d block s)"
  "good ent si s \<Longrightarrow> ent < block \<Longrightarrow> good ent si (VisitIndirectJump env inst d block s)"
  "good ent si s \<Longrightarrow> ent < block \<Longrightarrow> good ent si (VisitFunctionReturn env inst d block s)"
  "good ent si s \<Longrightarrow> ent < block \<Longrightarrow> good ent si (VisitIndirectFunctionCall env inst d block s)"
  "good ent si s \<Longrightarrow> ent < block \<Longrightarrow> good ent si (VisitAsyncHyperCall env inst d block s)"
  by (simp_all add: VisitInvalid_def VisitError_def VisitNormal_def VisitNoOp_def
      VisitDirectJump_def VisitIndirectJump_def VisitFunctionReturn_def
      VisitIndirectFunctionCall_def VisitAsyncHyperCall_def Let_def)

lemma good_conditional_visitors [simp]:
  "good ent si s \<Longrightarrow> ent < block \<Longrightarrow> good ent si (VisitConditionalIndirectJump env inst d block s)"
  "good ent si s \<Longrightarrow> ent < block \<Longrightarrow> good ent si (VisitConditionalFunctionReturn env inst d block s)"
  "good ent si s \<Longrightarrow> ent < block \<Longrightarrow> good ent si (VisitConditionalIndirectFunctionCall env inst d block s)"
  "good ent si s \<Longrightarrow> ent < block \<Longrightarrow> good ent si (VisitConditionalBranch env inst d block s)"
  "good ent si s \<Longrightarrow> ent < block \<Longrightarrow> good ent si (VisitConditionalAsyncHyperCall env inst d block s)"
  by (auto simp: VisitConditionalIndirectJump_def VisitConditionalFunctionReturn_def
      VisitConditionalIndirectFunctionCall_def VisitConditionalBranch_def
      VisitConditionalAsyncHyperCall_def Let_def split: prod.splits dest!: good_split)

lemma good_GetOrDeclareFunction:
  assumes "GetOrDeclareFunction env decl s = Inr (nf, s')" "good ent si s"
  shows "good ent si s'"
  using assms
  by (auto simp: GetOrDeclareFunction_def Let_def split: option.splits if_splits)

lemma good_DeclareFunction:
  assumes "DeclareFunction env decl s = Inr (r, s')" "good ent si s"
  shows "good ent si s'"
  using assms
  by (auto simp: DeclareFunction_def split: prod.splits if_splits sum.splits
      dest: good_GetOrDeclareFunction[where ent = ent and si = si])

lemma good_TryCallNativeFunction:
  assumes "TryCallNativeFunction env a nf block s = Inr (r, s')" "good ent si s" "ent < block"
  shows "good ent si s'"
  using assms
  by (auto simp: TryCallNativeFunction_def emit_def Let_def split: option.splits if_splits)


lemma good_CallFunction:
  assumes "CallFunction env inst block s = Inr s'" "good ent si s" "ent < block"
  shows "good ent si s'"
proof (cases "TryGetTargetFunctionType env (branch_taken_pc inst)")
  case None
  with assms show ?thesis by (auto simp: CallFunction_def)
next
  case (Some other_decl)
  obtain r s1 where d: "DeclareFunction env other_decl s = Inr (r, s1)"
    using assms(1) Some by (auto simp: CallFunction_def split: sum.splits)
  have g1: "good ent si s1" using good_DeclareFunction[OF d assms(2)] .
  show ?thesis
  proof (cases r)
    case None
    with assms(1) Some d g1 assms(3) show ?thesis by (auto simp: CallFunction_def)
  next
    case (Some other_func)
    obtain r2 s2 where
      t: "TryCallNativeFunction env (address other_decl) (Some other_func) block s1 = Inr (r2, s2)"
      using assms(1) \<open>TryGetTargetFunctionType env (branch_taken_pc inst) = Some other_decl\<close> d Some
      by (auto simp: CallFunction_def split: sum.splits)
    have g2: "good ent si s2" using good_TryCallNativeFunction[OF t g1 assms(3)] .
    show ?thesis
      using assms(1,3) \<open>TryGetTargetFunctionType env (branch_taken_pc inst) = Some other_decl\<close>
        d Some t g2
      by (cases r2) (auto simp: CallFunction_def)
  qed
qed

lemma good_VisitDirectFunctionCall:
  assumes "VisitDirectFunctionCall env inst d block s = Inr s'" "good ent si s" "ent < block"
  shows "good ent si s'"
proof -
  obtain s2 where c: "CallFunction env inst block (VisitDelayedInstruction env inst d block True s) = Inr s2"
    and s': "s' = VisitAfterFunctionCall env inst block s2"
    using assms(1) by (auto simp: VisitDirectFunctionCall_def Let_def split: sum.splits)
  have "good ent si (VisitDelayedInstruction env inst d block True s)"
    using assms(2,3) by simp
  from good_CallFunction[OF c this assms(3)] show ?thesis
    using assms(3) by (simp add: s')
qed

lemma good_VisitTypedHintedRegister:
  assumes "VisitTypedHintedRegister env block reg_name ty mv s = Inr s'" "good ent si s" "ent < block"
  shows "good ent si s'"
  using assms
  by (auto simp: VisitTypedHintedRegister_def GetOrCreateTaintedFunction_def emit_def Let_def
      split: option.splits if_splits)


lemma good_visit_hints:
  "visit_hints env block hints s = Inr s' \<Longrightarrow> good ent si s \<Longrightarrow> ent < block \<Longrightarrow> good ent si s'"
proof (induction hints arbitrary: s)
  case Nil
  then show ?case by simp
next
  case (Cons h hints)
  obtain reg_name ty mv where h: "h = (reg_name, ty, mv)" by (cases h)
  from Cons.prems(1) obtain s1 where
    v: "VisitTypedHintedRegister env block reg_name ty mv s = Inr s1"
    and r: "visit_hints env block hints s1 = Inr s'"
    by (auto simp: h split: sum.splits)
  from good_VisitTypedHintedRegister[OF v Cons.prems(2,3)] have "good ent si s1" .
  from Cons.IH[OF r this Cons.prems(3)] show ?case .
qed

lemma load_registers_keeps:
  "good ent si s \<Longrightarrow> ent < block \<Longrightarrow>
   good ent si (snd (load_registers env block regs s))
   \<and> log_printf (snd (load_registers env block regs s)) = log_printf s"
proof (induction regs arbitrary: s)
  case Nil
  then show ?case by simp
next
  case (Cons reg regs)
  show ?case
  proof (cases "EnclosingRegister reg = name reg
         \<and> isIntegerTy (type reg) (address_size (arch (options env)))")
    case False
    with Cons show ?thesis by auto
  next
    case True
    let ?s1 = "append_inst block (LoadInst (LoadRegAddress block (state_ptr s) (name reg))) s"
    have g1: "good ent si ?s1" using Cons.prems by simp
    have l1: "log_printf ?s1 = log_printf s" by (simp add: append_inst_def)
    from Cons.IH[OF g1 Cons.prems(2)] l1 True show ?thesis
      by (simp add: LoadRegValue_def emit_def Let_def split_def)
  qed
qed

lemma good_InstrumentInstruction [simp]:
  assumes "good ent si s" "ent < block"
  shows "good ent si (InstrumentInstruction env block s)"
proof -
  let ?s1 = "(case log_printf s of
                  Some _ \<Rightarrow> s
                | None \<Rightarrow>
                    s\<lparr>log_printf := Some ''printf'',
                      semantics_module :=
                        (case semantics_module s ''printf'' of
                           Some _ \<Rightarrow> semantics_module s
                         | None \<Rightarrow> (semantics_module s)(''printf'' \<mapsto>
                             \<lparr>function_type = FunctionTy (NamedTy ''void'') [PointerTy (IntegerTy 8)],
                              blocks = [], fn_attrs = {}, linkage = ExternalLinkage,
                              calling_conv = 0\<rparr>))\<rparr>)"
  have g1: "good ent si ?s1"
    using assms(1) by (auto split: option.splits)
  let ?r = "load_registers env block (ForEachRegister (arch (options env))) ?s1"
  from load_registers_keeps[OF g1 assms(2)] have g2: "good ent si (snd ?r)" by simp
  show ?thesis
    using g2 assms(2)
    by (auto simp: InstrumentInstruction_def Let_def split_def split: option.splits)
qed

lemma good_breakpoint_function [simp]:
  assumes "good ent si s"
  shows "good ent si (breakpoint_function env fn s)"
proof (cases "semantics_module s fn")
  case (Some a)
  then show ?thesis using assms by (simp add: breakpoint_function_def)
next
  case None
  let ?sd = "s\<lparr>semantics_module := (semantics_module s)(fn \<mapsto>
               \<lparr>function_type =
                   FunctionTy mem_ptr_type [mem_ptr_type, address_type env, address_type env],
                blocks = [], fn_attrs = {OptimizeNone, NoInline, ReadNone},
                linkage = ExternalLinkage, calling_conv = 0\<rparr>)\<rparr>"
  have gd: "good ent si ?sd" using assms None by simp
  obtain b s2 where c: "BasicBlock_Create (Some fn) ?sd = (b, s2)"
    by (cases "BasicBlock_Create (Some fn) ?sd")
  from good_BasicBlock_Create[OF gd c] show ?thesis
    using None c by (simp add: breakpoint_function_def Let_def)
qed

lemma good_InstrumentCallBreakpointFunction:
  assumes "InstrumentCallBreakpointFunction env block s = Inr s'" "good ent si s" "ent < block"
  shows "good ent si s'"
  using assms
  by (auto simp: InstrumentCallBreakpointFunction_def LoadMemoryPointer_def LoadRegValue_def
      emit_def Let_def split: option.splits)

lemma good_dispatch_category:
  assumes "dispatch_category env inst d block s = Inr s'" "good ent si s" "ent < block"
  shows "good ent si s'"
  using assms
  by (cases "category inst")
     (auto simp: dispatch_category_def dest: good_VisitDirectFunctionCall[where ent = ent and si = si])

lemma good_VisitInstruction:
  assumes "VisitInstruction env inst block s = Inr s'" "good ent si s" "ent < block"
  shows "good ent si s'"
proof -
  let ?s1 = "s\<lparr>curr_inst := Some inst\<rparr>"
  let ?s2 = "if FLAGS_print_registers_before_instuctions env
             then InstrumentInstruction env block ?s1 else ?s1"
  have g2: "good ent si ?s2" using assms(2,3) by simp
  obtain s3 where s3: "(if FLAGS_add_breakpoints env
               then InstrumentCallBreakpointFunction env block ?s2 else Inr ?s2) = Inr s3"
    using assms(1) by (auto simp: VisitInstruction_def Let_def split: sum.splits)
  have g3: "good ent si s3"
    using s3 g2 assms(3)
    by (auto split: if_splits dest: good_InstrumentCallBreakpointFunction[where ent = ent and si = si])
  let ?s4 = "append_inst block (LiftIntoBlock inst (state_ptr s3) False) s3"
  have g4: "good ent si ?s4" using g3 assms(3) by simp
  obtain di s4d where dd:
    "(if MayHaveDelaySlot (arch (options env)) inst
      then (let (decoded, s') = DecodeInstructionInto env (delayed_pc inst) True ?s4
            in (Some (snd decoded), s'))
      else (None, ?s4)) = (di, s4d)"
    by (metis surj_pair)
  have g4d: "good ent si s4d"
    using dd g4
    by (auto split: if_splits prod.splits dest: good_DecodeInstructionInto[where ent = ent and si = si])
  obtain s5 where s5: "(if symbolic_register_types (options env)
                       then visit_hints env block
                              (QueryRegisterStateAtInstruction env (func_address s4d) (pc inst)) s4d
                       else Inr s4d) = Inr s5"
    using assms(1) s3 dd by (auto simp: VisitInstruction_def Let_def split: sum.splits)
  have g5: "good ent si s5"
    using s5 g4d assms(3)
    by (auto split: if_splits dest: good_visit_hints[where ent = ent and si = si])
  obtain s6 where s6: "dispatch_category env inst di block s5 = Inr s6"
    and s': "s' = s6\<lparr>curr_inst := None\<rparr>"
    using assms(1) s3 dd s5 by (auto simp: VisitInstruction_def Let_def split: sum.splits)
  from good_dispatch_category[OF s6 g5 assms(3)] show ?thesis by (simp add: s')
qed

lemma good_try_tail_call:
  assumes "try_tail_call env a block s = Inr (r, s')" "good ent si s" "ent < block"
  shows "good ent si s'"
proof (cases "TryGetTargetFunctionType env a")
  case None
  with assms show ?thesis by (auto simp: try_tail_call_def)
next
  case (Some decl)
  obtain od s1 where d: "DeclareFunction env decl s = Inr (od, s1)"
    using assms(1) Some by (auto simp: try_tail_call_def split: sum.splits)
  have g1: "good ent si s1" using good_DeclareFunction[OF d assms(2)] .
  obtain r2 s2 where t: "TryCallNativeFunction env (address decl) od block s1 = Inr (r2, s2)"
    using assms(1) Some d by (auto simp: try_tail_call_def split: sum.splits)
  have g2: "good ent si s2" using good_TryCallNativeFunction[OF t g1 assms(3)] .
  show ?thesis
    using assms(1,3) Some d t g2 by (cases r2) (auto simp: try_tail_call_def)
qed

lemma good_visit_edge:
  assumes "visit_edge env inst_addr from_addr s = Inr s'" "good ent si s"
  shows "good ent si s'"
proof -
  obtain block where b: "edge_to_dest_block s (from_addr, inst_addr) = Some block"
    using assms(1) by (auto simp: visit_edge_def split: option.splits)
  have lt: "ent < block" using good_edge[OF assms(2) b] .
  show ?thesis
  proof (cases "block_store s block \<noteq> []")
    case True
    with assms b show ?thesis by (simp add: visit_edge_def)
  next
    case False
    obtain t s1 where t: "(if inst_addr \<noteq> func_address s \<or> from_addr \<noteq> 0
                   then try_tail_call env inst_addr block s else Inr (False, s)) = Inr (t, s1)"
      using assms(1) b False by (auto simp: visit_edge_def split: sum.splits)
    have g1: "good ent si s1"
      using t assms(2) lt
      by (auto split: if_splits dest: good_try_tail_call[where ent = ent and si = si])
    show ?thesis
    proof (cases t)
      case True
      with assms(1) b False t g1 show ?thesis by (auto simp: visit_edge_def)
    next
      case nt: False
      show ?thesis
      proof (cases "addr_to_block s1 inst_addr")
        case (Some inst_block)
        with assms(1) b False t nt g1 lt show ?thesis by (auto simp: visit_edge_def)
      next
        case None
        let ?s2 = "s1\<lparr>addr_to_block := (addr_to_block s1)(inst_addr \<mapsto> block)\<rparr>"
        have g2: "good ent si ?s2" using g1 by simp
        obtain ok inst s3 where dec: "DecodeInstructionInto env inst_addr False ?s2 = ((ok, inst), s3)"
          by (metis surj_pair)
        have g3: "good ent si s3"
          using good_DecodeInstructionInto[OF dec] g2 by simp
        show ?thesis
        proof (cases "\<not> ok \<or> \<not> IsValid inst \<or> IsError inst")
          case True
          then have "s' = MuteStateEscape_of (AddTerminatingTailCall block intrinsics_error s3)"
            using assms(1) b False t nt None dec
            by (auto simp: visit_edge_def Let_def split: if_splits)
          then show ?thesis using g3 lt by simp
        next
          case False
          then have "VisitInstruction env inst block s3 = Inr s'"
            using assms(1) b \<open>\<not> block_store s block \<noteq> []\<close> t nt None dec
            by (auto simp: visit_edge_def Let_def)
          from good_VisitInstruction[OF this g3 lt] show ?thesis .
        qed
      qed
    qed
  qed
qed

declare VisitInstructions.simps [simp del]

lemma good_VisitInstructions:
  "VisitInstructions fuel env s = Inr s' \<Longrightarrow> good ent si s \<Longrightarrow> good ent si s'"
proof (induction fuel arbitrary: s)
  case 0
  then show ?case by (auto simp: VisitInstructions.simps split: list.splits)
next
  case (Suc fuel)
  show ?case
  proof (cases "edge_work_list s")
    case Nil
    with Suc.prems show ?thesis by (simp add: VisitInstructions.simps)
  next
    case (Cons e rest)
    obtain inst_addr from_addr where e: "e = (inst_addr, from_addr)" by (cases e)
    from Suc.prems(1) Cons e obtain s1 where
      v: "visit_edge env inst_addr from_addr (s\<lparr>edge_work_list := rest\<rparr>) = Inr s1"
      and r: "VisitInstructions fuel env s1 = Inr s'"
      by (auto simp: VisitInstructions.simps[of "Suc fuel"] split: sum.splits)
    have "good ent si (s\<lparr>edge_work_list := rest\<rparr>)" using Suc.prems(2) by simp
    from good_visit_edge[OF v this] have "good ent si s1" .
    from Suc.IH[OF r this] show ?thesis .
  qed
qed

lemma good_native_wrapper_body [simp]:
  assumes "good ent si s"
  shows "good ent si (native_wrapper_body env nf lf s)"
proof -
  obtain block s3 where c: "BasicBlock_Create (Some nf) s = (block, s3)"
    by (cases "BasicBlock_Create (Some nf) s")
  from good_BasicBlock_Create[OF assms c] have g3: "good ent si s3" and lt: "ent < block" by auto
  have me: "good ent si (snd (GetMemoryEscapeFunc x))" if "good ent si x" for x
    using that by (auto simp: GetMemoryEscapeFunc_def split: option.splits)
  show ?thesis
    using g3 lt
    by (simp add: native_wrapper_body_def c emit_def Let_def split_def me)
qed

lemma good_CallLiftedFunctionFromNativeFunction:
  assumes "CallLiftedFunctionFromNativeFunction env s = Inr s'" "good ent si s"
  shows "good ent si s'"
  using assms
  by (auto simp: CallLiftedFunctionFromNativeFunction_def Let_def
      split: option.splits if_splits)

section \<open>The body that a lift builds\<close>

lemma lift_body_prologue:
  assumes lb: "lift_body fuel env nf s = Inr (r, s')"
    and ci: "curr_inst s = None"
    and em: "edge_to_dest_block s = Map.empty"
  shows "\<exists>s8 s9 g. VisitInstructions fuel env s8 = Inr s9
           \<and> CallLiftedFunctionFromNativeFunction env s9 = Inr s'
           \<and> r = Some nf
           \<and> lift_inv (next_block s) s8
           \<and> block_store s8 (next_block s) = entry_content (Suc (next_block s))
           \<and> edge_to_dest_block s8 (0, func_address s) = Some (Suc (next_block s))
           \<and> semantics_module s8 (nf @ ''.lifted'') = Some g
           \<and> blocks g \<noteq> [] \<and> hd (blocks g) = next_block s
           \<and> (\<forall>b < next_block s. block_store s8 b = block_store s b)
           \<and> next_block s8 = Suc (Suc (next_block s))"
  using lb ci em
  apply (simp add: lift_body_def DeclareLiftedFunction_def CloneBlockFunctionInto_def
      BasicBlock_Create_def GetOrCreateBlock_def append_inst_def Let_def isDeclaration_def
      LoadRegAddress_def RecursivelyInlineLiftedFunctionIntoNativeFunction_def
      split: option.splits if_splits list.splits sum.splits)
  subgoal
    apply (rule exI, rule exI, rule conjI, assumption, rule conjI, assumption)
    apply (auto simp: lift_inv_def entry_content_def less_Suc_eq)
    done
  subgoal
    apply (rule exI, rule exI, rule conjI, assumption, rule conjI, assumption)
    apply (auto simp: lift_inv_def entry_content_def less_Suc_eq)
    done
  done


lemma module_leD:
  "module_le m m' \<Longrightarrow> m f = Some g \<Longrightarrow> blocks g \<noteq> [] \<Longrightarrow>
   \<exists>g'. m' f = Some g' \<and> blocks g' \<noteq> [] \<and> hd (blocks g') = hd (blocks g)"
  by (simp add: module_le_def)

lemma lift_body_good:
  assumes lb: "lift_body fuel env nf s = Inr (r, s')"
    and ci: "curr_inst s = None"
    and em: "edge_to_dest_block s = Map.empty"
  shows "\<exists>s8 g. good (next_block s) s8 s'
           \<and> r = Some nf
           \<and> block_store s8 (next_block s) = entry_content (Suc (next_block s))
           \<and> edge_to_dest_block s8 (0, func_address s) = Some (Suc (next_block s))
           \<and> semantics_module s8 (nf @ ''.lifted'') = Some g
           \<and> blocks g \<noteq> [] \<and> hd (blocks g) = next_block s
           \<and> (\<forall>b < next_block s. block_store s8 b = block_store s b)
           \<and> next_block s \<le> next_block s8"
proof -
  from lift_body_prologue[OF lb ci em] obtain s8 s9 g where
    v: "VisitInstructions fuel env s8 = Inr s9"
    and c: "CallLiftedFunctionFromNativeFunction env s9 = Inr s'"
    and r: "r = Some nf"
    and inv: "lift_inv (next_block s) s8"
    and rest: "block_store s8 (next_block s) = entry_content (Suc (next_block s))"
      "edge_to_dest_block s8 (0, func_address s) = Some (Suc (next_block s))"
      "semantics_module s8 (nf @ ''.lifted'') = Some g"
      "blocks g \<noteq> []" "hd (blocks g) = next_block s"
      "\<forall>b < next_block s. block_store s8 b = block_store s b"
      "next_block s8 = Suc (Suc (next_block s))"
    by blast
  have "good (next_block s) s8 s9"
    using good_VisitInstructions[OF v good_refl[OF inv]] .
  from good_CallLiftedFunctionFromNativeFunction[OF c this]
  have "good (next_block s) s8 s'" .
  with r rest show ?thesis by auto
qed

lemma GetOrDeclareFunction_frame:
  assumes "GetOrDeclareFunction env decl s = Inr (nf, s')"
  shows "block_store s' = block_store s \<and> next_block s' = next_block s
         \<and> curr_inst s' = curr_inst s \<and> edge_to_dest_block s' = edge_to_dest_block s
         \<and> func_address s' = func_address s"
  using assms
  by (auto simp: GetOrDeclareFunction_def Let_def split: option.splits if_splits)

lemma DeclareFunction_frame:
  assumes "DeclareFunction env decl s = Inr (r, s')"
  shows "block_store s' = block_store s \<and> next_block s' = next_block s
         \<and> curr_inst s' = curr_inst s \<and> edge_to_dest_block s' = edge_to_dest_block s
         \<and> func_address s' = func_address s"
  using assms
  by (auto simp: DeclareFunction_def split: prod.splits if_splits sum.splits
      dest: GetOrDeclareFunction_frame)

text \<open>The paths of LiftFunction: an early return that touches no block, or lift_body.\<close>

lemma LiftFunction_paths:
  assumes "LiftFunction fuel env decl s = Inr (r, s')"
  shows "(block_store s' = block_store s \<and> next_block s' = next_block s)
         \<or> (\<exists>nf s5. lift_body fuel env nf s5 = Inr (r, s')
                \<and> curr_inst s5 = None \<and> edge_to_dest_block s5 = Map.empty
                \<and> block_store s5 = block_store s \<and> next_block s5 = next_block s
                \<and> func_address s5 = address decl)"
proof -
  let ?s1 = "LiftFunction_reset decl s"
  obtain declared s2 where d: "DeclareFunction env decl ?s1 = Inr (declared, s2)"
    using assms by (auto simp: LiftFunction_def Let_def split: sum.splits)
  note f2 = DeclareFunction_frame[OF d]
  let ?s3 = "s2\<lparr>native_func := declared\<rparr>"
  obtain b av pm where q: "Query env (func_address ?s3) = (b, av, pm)"
    by (cases "Query env (func_address ?s3)")
  show ?thesis
  proof (cases "\<not> IsValidAddress env av \<or> \<not> IsExecutable env pm")
    case True
    then have "s' = ?s3" using assms d q by (auto simp: LiftFunction_def Let_def)
    then show ?thesis using f2 by (simp add: LiftFunction_reset_def)
  next
    case False
    obtain nf s4 where g: "GetOrDeclareFunction env decl ?s3 = Inr (nf, s4)"
      using assms d q False by (auto simp: LiftFunction_def Let_def split: sum.splits)
    note f4 = GetOrDeclareFunction_frame[OF g]
    let ?s5 = "s4\<lparr>native_func := Some nf\<rparr>"
    obtain f where f: "semantics_module ?s5 nf = Some f"
      using assms d q False g by (auto simp: LiftFunction_def Let_def split: option.splits)
    show ?thesis
    proof (cases "\<not> isDeclaration f \<or> \<not> HasByte env av")
      case True
      then have "s' = ?s5"
        using assms d q False g f by (auto simp: LiftFunction_def Let_def split: if_splits)
      then show ?thesis using f2 f4 by (simp add: LiftFunction_reset_def)
    next
      case nb: False
      then have "lift_body fuel env nf ?s5 = Inr (r, s')"
        using assms d q False g f by (auto simp: LiftFunction_def Let_def)
      then show ?thesis
        using f2 f4
        by (intro disjI2 exI[of _ nf] exI[of _ "?s5"]) (simp add: LiftFunction_reset_def)
    qed
  qed
qed

text \<open>
  A lift at a concrete input: the byte at \<open>0x2000\<close> does not decode, so the block of the
  entry address ends in the muted tail call of the error intrinsic.
\<close>

lemma toy_decode_2000:
  "max_inst_size s = None \<Longrightarrow>
   DecodeInstructionInto toy_env 0x2000 False s =
     ((False, toy_inst 0x2000 kCategoryInvalid [0]), s\<lparr>max_inst_size := Some 4\<rparr>)"
  by (simp add: DecodeInstructionInto_def read_inst_bytes.simps accumulate_inst_byte_def
      toy_memory_def toy_decode_def Let_def)

lemma toy_lift_2000:
  "\<exists>s'. LiftFunction 1 toy_env (toy_decl 0x2000) fresh_lifter = Inr (Some ''sub_2000_v_0'', s')
        \<and> next_block s' = 3
        \<and> edge_to_dest_block s' (0, 0x2000) = Some 1
        \<and> block_store s' 1 =
            [LoadInst (VarRef ''PC''), LoadInst (VarRef ''MEMORY''),
             CallInst ''__remill_error'' [UndefValue, InstRef 1 0, InstRef 1 1] True,
             ReturnInst (InstRef 1 2)]"
  by (simp add: LiftFunction_def LiftFunction_reset_def DeclareFunction_def GetOrDeclareFunction_def
      sub_name_toy lift_body_def DeclareLiftedFunction_def CloneBlockFunctionInto_def
      BasicBlock_Create_def GetOrCreateBlock_def LoadRegAddress_def
      VisitInstructions.simps visit_edge_def toy_decode_2000
      MuteStateEscape_AddTerminatingTailCall_eq
      CallLiftedFunctionFromNativeFunction_def native_wrapper_body_def GetMemoryEscapeFunc_def
      RecursivelyInlineLiftedFunctionIntoNativeFunction_def
      emit_def append_inst_def isDeclaration_def default_FunctionDecl_def
      Let_def toy_memory_def fresh_lifter_def
      kPCVariableName_def kMemoryVariableName_def intrinsics_error_def
      kMemoryPointerEscapeFunction_def)

text \<open>
  Claim C4. For every call of \<^verbatim>\<open>LiftFunction\<close> that returns, from any state of the lifter:
  in every block that the call has created, every tail call of the error intrinsic or of
  the function-return intrinsic has an undefined value as its state-pointer argument; and
  the call has changed no block that existed before it. The blocks that the call has
  created hold every instruction that it has emitted: those of invalid instructions, of
  error instructions, of returns, of conditional returns and of decode failures.
\<close>

theorem LiftFunction_mutes_state_escape:
  assumes "LiftFunction fuel env decl s = Inr (r, s')"
  shows "(\<forall>b. next_block s \<le> b \<and> b < next_block s'
               \<longrightarrow> list_all state_escape_muted (block_store s' b))
         \<and> (\<forall>b. b < next_block s \<longrightarrow> block_store s' b = block_store s b)
         \<and> next_block s \<le> next_block s'"
proof -
  from LiftFunction_paths[OF assms] show ?thesis
  proof
    assume "block_store s' = block_store s \<and> next_block s' = next_block s"
    then show ?thesis by auto
  next
    assume "\<exists>nf s5. lift_body fuel env nf s5 = Inr (r, s')
                \<and> curr_inst s5 = None \<and> edge_to_dest_block s5 = Map.empty
                \<and> block_store s5 = block_store s \<and> next_block s5 = next_block s
                \<and> func_address s5 = address decl"
    then obtain nf s5 where lb: "lift_body fuel env nf s5 = Inr (r, s')"
      and ci: "curr_inst s5 = None" and em: "edge_to_dest_block s5 = Map.empty"
      and bs: "block_store s5 = block_store s" and nb: "next_block s5 = next_block s"
      by blast
    from lift_body_good[OF lb ci em] obtain s8 where
      g: "good (next_block s) s8 s'"
      and old: "\<forall>b < next_block s. block_store s8 b = block_store s b"
      and le: "next_block s \<le> next_block s8"
      by (auto simp: nb bs)
    from g have inv: "lift_inv (next_block s) s'" and fr: "frame (next_block s) s8 s'"
      by (auto simp: good_def)
    show ?thesis
      using inv fr old le by (auto simp: lift_inv_def frame_def)
  qed
qed

theorem LiftFunction_mutes_state_escape_witness:
  "\<exists>s'. LiftFunction 1 toy_env (toy_decl 0x2000) fresh_lifter = Inr (Some ''sub_2000_v_0'', s')
        \<and> block_store s' 1 =
            [LoadInst (VarRef ''PC''), LoadInst (VarRef ''MEMORY''),
             CallInst ''__remill_error'' [UndefValue, InstRef 1 0, InstRef 1 1] True,
             ReturnInst (InstRef 1 2)]
        \<and> list_all state_escape_muted (block_store s' 1)
        \<and> next_block fresh_lifter = 0 \<and> next_block s' = 3"
proof -
  from toy_lift_2000 obtain s' where
    run: "LiftFunction 1 toy_env (toy_decl 0x2000) fresh_lifter = Inr (Some ''sub_2000_v_0'', s')"
    and nb: "next_block s' = 3"
    and b1: "block_store s' 1 =
            [LoadInst (VarRef ''PC''), LoadInst (VarRef ''MEMORY''),
             CallInst ''__remill_error'' [UndefValue, InstRef 1 0, InstRef 1 1] True,
             ReturnInst (InstRef 1 2)]"
    by blast
  have zero: "next_block fresh_lifter = 0"
    by (simp add: fresh_lifter_def)
  from LiftFunction_mutes_state_escape [OF run]
  have "\<forall>b. next_block fresh_lifter \<le> b \<and> b < next_block s'
          \<longrightarrow> list_all state_escape_muted (block_store s' b)"
    by blast
  with nb zero have "list_all state_escape_muted (block_store s' 1)"
    by simp
  with run b1 nb zero show ?thesis
    by blast
qed

text \<open>
  Claim C9. For every call of \<^verbatim>\<open>LiftFunction\<close> that returns a function and has built its
  body (the byte at the entry address is there, and the native function was not in the
  module or was a declaration): the lifted function is in the module, and its first block
  holds, after the clone of the basic-block template, the store of the program-counter
  argument to \<open>NEXT_PC\<close>, its store to \<open>PC\<close>, and then the unconditional branch to the block
  that the edge map gives for the entry address of the function. Nothing else is in that
  block, so both pseudo-registers are set before any lifted instruction runs.
\<close>

theorem LiftFunction_entry_block:
  assumes lf: "LiftFunction fuel env decl s = Inr (Some nf, s')"
    and hb: "HasByte env (fst (snd (Query env (address decl))))"
    and nobody: "case semantics_module s (sub_name env decl) of
                   None \<Rightarrow> True | Some f \<Rightarrow> isDeclaration f"
  shows "\<exists>g first.
           semantics_module s' (nf @ ''.lifted'') = Some g
           \<and> blocks g \<noteq> []
           \<and> block_store s' (hd (blocks g)) =
               [ClonedBasicBlock,
                StoreInst (Argument kPCArgNum)
                  (RegAddress (Argument kStatePointerArgNum) kNextPCVariableName),
                StoreInst (Argument kPCArgNum)
                  (RegAddress (Argument kStatePointerArgNum) kPCVariableName),
                BranchInst first]
           \<and> edge_to_dest_block s' (0, address decl) = Some first"
proof -
  obtain b av pm where q: "Query env (address decl) = (b, av, pm)"
    by (cases "Query env (address decl)")
  from lf hb nobody q obtain nf' s5 where lb': "lift_body fuel env nf' s5 = Inr (Some nf, s')"
    and ci: "curr_inst s5 = None" and em: "edge_to_dest_block s5 = Map.empty"
    and fa: "func_address s5 = address decl"
    by (auto simp: LiftFunction_def LiftFunction_reset_def DeclareFunction_def
        GetOrDeclareFunction_def Let_def isDeclaration_def
        split: option.splits sum.splits if_splits)
  from lift_body_good[OF lb' ci em] have "nf' = nf" by auto
  with lb' have lb: "lift_body fuel env nf s5 = Inr (Some nf, s')" by simp
  from lift_body_good[OF lb ci em] obtain s8 g where
    gd: "good (next_block s5) s8 s'"
    and ec: "block_store s8 (next_block s5) = entry_content (Suc (next_block s5))"
    and ed: "edge_to_dest_block s8 (0, func_address s5) = Some (Suc (next_block s5))"
    and md: "semantics_module s8 (nf @ ''.lifted'') = Some g" "blocks g \<noteq> []"
      "hd (blocks g) = next_block s5"
    by blast
  from gd have fr: "frame (next_block s5) s8 s'" by (simp add: good_def)
  from fr have "module_le (semantics_module s8) (semantics_module s')"
    by (simp add: frame_def)
  from module_leD[OF this md(1,2)] md(3) obtain g' where
    g': "semantics_module s' (nf @ ''.lifted'') = Some g'" "blocks g' \<noteq> []"
      "hd (blocks g') = next_block s5"
    by auto
  from fr have "block_store s' (next_block s5) = block_store s8 (next_block s5)"
    by (simp add: frame_def)
  moreover from fr ed have "edge_to_dest_block s' (0, address decl) = Some (Suc (next_block s5))"
    by (simp add: frame_def fa)
  ultimately show ?thesis
    using g' ec by (auto simp: entry_content_def)
qed

theorem LiftFunction_entry_block_witness:
  "\<exists>s' g. LiftFunction 1 toy_env (toy_decl 0x2000) fresh_lifter = Inr (Some ''sub_2000_v_0'', s')
        \<and> HasByte toy_env (fst (snd (Query toy_env (address (toy_decl 0x2000)))))
        \<and> semantics_module fresh_lifter (sub_name toy_env (toy_decl 0x2000)) = None
        \<and> semantics_module s' ''sub_2000_v_0.lifted'' = Some g \<and> blocks g \<noteq> []
        \<and> block_store s' (hd (blocks g)) =
            [ClonedBasicBlock,
             StoreInst (Argument kPCArgNum) (RegAddress (Argument kStatePointerArgNum) kNextPCVariableName),
             StoreInst (Argument kPCArgNum) (RegAddress (Argument kStatePointerArgNum) kPCVariableName),
             BranchInst 1]
        \<and> edge_to_dest_block s' (0, 0x2000) = Some 1"
proof -
  from toy_lift_2000 obtain s' where
    run: "LiftFunction 1 toy_env (toy_decl 0x2000) fresh_lifter = Inr (Some ''sub_2000_v_0'', s')"
    and edge: "edge_to_dest_block s' (0, 0x2000) = Some 1"
    by blast
  have byte: "HasByte toy_env (fst (snd (Query toy_env (address (toy_decl 0x2000)))))"
    by (simp add: toy_memory_def)
  have fresh: "semantics_module fresh_lifter (sub_name toy_env (toy_decl 0x2000)) = None"
    by (simp add: fresh_lifter_def)
  from LiftFunction_entry_block [OF run byte] fresh
  obtain g first where
    g: "semantics_module s' (''sub_2000_v_0'' @ ''.lifted'') = Some g" "blocks g \<noteq> []"
    and entry: "block_store s' (hd (blocks g)) =
            [ClonedBasicBlock,
             StoreInst (Argument kPCArgNum) (RegAddress (Argument kStatePointerArgNum) kNextPCVariableName),
             StoreInst (Argument kPCArgNum) (RegAddress (Argument kStatePointerArgNum) kPCVariableName),
             BranchInst first]"
    and first: "edge_to_dest_block s' (0, address (toy_decl 0x2000)) = Some first"
    by auto
  from first edge have "first = 1"
    by simp
  with run byte fresh g entry edge show ?thesis
    by auto
qed

section \<open>The temporary names of native functions\<close>

text \<open>
  The temporary name of a declaration determines its address: the address is printed in
  hexadecimal digits up to the first underscore after the prefix. The name ends in a
  decimal digit, so it is not the name of a lifted function, and it does not start like
  the name of a breakpoint function.
\<close>

lemma digit_char_inj:
  assumes "m < 16" "n < 16" "digit_char m = digit_char n"
  shows "m = n"
proof -
  have d: "distinct ''0123456789abcdef''" by simp
  have l: "length ''0123456789abcdef'' = 16" by simp
  from assms have "''0123456789abcdef'' ! m = ''0123456789abcdef'' ! n"
    by (simp add: digit_char_def)
  with d l assms(1,2) show ?thesis
    by (metis nth_eq_iff_index_eq)
qed

lemma digit_char_hex: "digit_char n \<in> set ''0123456789abcdef''"
proof -
  have "n mod 16 < length ''0123456789abcdef''" by simp
  then show ?thesis unfolding digit_char_def by (rule nth_mem)
qed

lemma digit_char_not_underscore [simp]:
  "digit_char n \<noteq> CHR ''_''" "CHR ''_'' \<noteq> digit_char n"
  using digit_char_hex[of n] by auto

lemma hex_of_nat_not_Nil [simp]: "hex_of_nat n \<noteq> []" "[] \<noteq> hex_of_nat n"
  by (subst hex_of_nat.simps, simp)+

lemma dec_of_nat_not_Nil [simp]: "dec_of_nat n \<noteq> []" "[] \<noteq> dec_of_nat n"
  by (subst dec_of_nat.simps, simp)+

lemma hex_of_nat_no_underscore [simp]: "CHR ''_'' \<notin> set (hex_of_nat n)"
proof (induction n rule: hex_of_nat.induct)
  case (1 n)
  then show ?case by (subst hex_of_nat.simps) auto
qed

lemma hex_of_nat_inj: "hex_of_nat m = hex_of_nat n \<Longrightarrow> m = n"
proof (induction m arbitrary: n rule: hex_of_nat.induct)
  case (1 m)
  show ?case
  proof (cases "m < 16")
    case m: True
    show ?thesis
    proof (cases "n < 16")
      case True
      with m "1.prems" show ?thesis
        by (simp add: hex_of_nat.simps[of m] hex_of_nat.simps[of n] digit_char_inj)
    next
      case False
      with m "1.prems" show ?thesis
        by (simp add: hex_of_nat.simps[of m] hex_of_nat.simps[of n])
    qed
  next
    case m: False
    show ?thesis
    proof (cases "n < 16")
      case True
      with m "1.prems" show ?thesis
        by (simp add: hex_of_nat.simps[of m] hex_of_nat.simps[of n])
    next
      case False
      with m "1.prems" have e: "hex_of_nat (m div 16) = hex_of_nat (n div 16)"
        and d: "digit_char (m mod 16) = digit_char (n mod 16)"
        by (simp_all add: hex_of_nat.simps[of m] hex_of_nat.simps[of n])
      from "1.IH"[OF m e] have "m div 16 = n div 16" .
      moreover from d have "m mod 16 = n mod 16"
        by (intro digit_char_inj) simp_all
      ultimately show ?thesis
        by (metis div_mult_mod_eq)
    qed
  qed
qed

lemma first_separator:
  assumes "c \<notin> set xs" "c \<notin> set ys" "xs @ c # r = ys @ c # r'"
  shows "xs = ys"
proof -
  have "takeWhile (\<lambda>x. x \<noteq> c) (xs @ c # r) = xs"
    using assms(1) by (induction xs) auto
  moreover have "takeWhile (\<lambda>x. x \<noteq> c) (ys @ c # r') = ys"
    using assms(2) by (induction ys) auto
  ultimately show ?thesis using assms(3) by simp
qed

lemma sub_name_address:
  assumes "sub_name env d = sub_name env d'"
  shows "address d = address d'"
proof -
  from assms have
    "hex_of_nat (unat (address d)) @ CHR ''_'' # (TranslateType env (decl_type d) @ ''_'' @ dec_of_nat (calling_convention d))
     = hex_of_nat (unat (address d')) @ CHR ''_'' # (TranslateType env (decl_type d') @ ''_'' @ dec_of_nat (calling_convention d'))"
    by (simp add: sub_name_def)
  then have "hex_of_nat (unat (address d)) = hex_of_nat (unat (address d'))"
    by (rule first_separator[rotated 2]) simp_all
  then have "unat (address d) = unat (address d')"
    by (rule hex_of_nat_inj)
  then show ?thesis by (simp add: word_unat_eq_iff)
qed

lemma dec_of_nat_last: "last (dec_of_nat n) = digit_char (n mod 10)"
  by (subst dec_of_nat.simps) simp

lemma digit_char_dec: "digit_char (n mod 10) \<in> set ''0123456789''"
proof -
  have aux: "digit_char k \<in> set ''0123456789''" if "k < 10" for k
  proof -
    from that have "k \<in> {0, 1, 2, 3, 4, 5, 6, 7, 8, 9}" by auto
    then show ?thesis by (auto simp: digit_char_def)
  qed
  show ?thesis by (rule aux) simp
qed

lemma sub_name_last: "last (sub_name env d) \<in> set ''0123456789''"
  using digit_char_dec[of "calling_convention d"]
  by (simp add: sub_name_def dec_of_nat_last)

lemma sub_name_not_lifted [simp]:
  "sub_name env d \<noteq> nf @ ''.lifted''" "nf @ ''.lifted'' \<noteq> sub_name env d"
proof -
  show "sub_name env d \<noteq> nf @ ''.lifted''"
  proof
    assume "sub_name env d = nf @ ''.lifted''"
    then have "last (sub_name env d) = CHR ''d''" by simp
    with sub_name_last[of env d] show False by simp
  qed
  then show "nf @ ''.lifted'' \<noteq> sub_name env d" by (rule not_sym)
qed

lemma sub_name_not_breakpoint [simp]:
  "sub_name env d \<noteq> ''breakpoint_'' @ x" "''breakpoint_'' @ x \<noteq> sub_name env d"
  by (simp_all add: sub_name_def)

section \<open>The native functions that have a body\<close>

text \<open>
  No primitive and no visitor of the lifter gives a body to a function, or a block to a
  parent, whose name is not safe; so every state a lifter can reach satisfies the
  invariant between calls.
\<close>

lemma safe_name_lifted [simp]: "safe_name env (nf @ ''.lifted'')"
  by (simp add: safe_name_def)

lemma safe_name_breakpoint [simp]: "safe_name env (''breakpoint_'' @ x)"
  by (simp add: safe_name_def sub_name_def)

lemma safe_name_sub_name: "liftable env (address decl) \<Longrightarrow> safe_name env (sub_name env decl)"
  by (auto simp: safe_name_def dest: sub_name_address)

lemma lifting_inv_irrelevant [simp]:
  "lifting_inv env (s\<lparr>edge_to_dest_block := ed\<rparr>) = lifting_inv env s"
  "lifting_inv env (s\<lparr>edge_work_list := wl\<rparr>) = lifting_inv env s"
  "lifting_inv env (s\<lparr>addr_to_block := ab\<rparr>) = lifting_inv env s"
  "lifting_inv env (s\<lparr>addr_to_decl := ad\<rparr>) = lifting_inv env s"
  "lifting_inv env (s\<lparr>addr_to_func := af\<rparr>) = lifting_inv env s"
  "lifting_inv env (s\<lparr>func_name_to_address := fa\<rparr>) = lifting_inv env s"
  "lifting_inv env (s\<lparr>curr_inst := ci\<rparr>) = lifting_inv env s"
  "lifting_inv env (s\<lparr>state_ptr := sp\<rparr>) = lifting_inv env s"
  "lifting_inv env (s\<lparr>func_address := a\<rparr>) = lifting_inv env s"
  "lifting_inv env (s\<lparr>log_printf := lp\<rparr>) = lifting_inv env s"
  "lifting_inv env (s\<lparr>block_store := bs\<rparr>) = lifting_inv env s"
  "lifting_inv env (s\<lparr>next_block := nb\<rparr>) = lifting_inv env s"
  "lifting_inv env (s\<lparr>max_inst_size := ms\<rparr>) = lifting_inv env s"
  by (simp_all add: lifting_inv_def bodies_inv_def)

lemma lifting_inv_parent: "lifting_inv env s \<Longrightarrow> block_parent s b = Some p \<Longrightarrow> safe_name env p"
  by (auto simp: lifting_inv_def bodies_inv_def)

lemma lifting_inv_lifted_func: "lifting_inv env s \<Longrightarrow> lifted_func s = Some p \<Longrightarrow> safe_name env p"
  by (auto simp: lifting_inv_def bodies_inv_def)

lemma lifting_inv_native_func: "lifting_inv env s \<Longrightarrow> native_func s = Some p \<Longrightarrow> safe_name env p"
  by (auto simp: lifting_inv_def)

lemma lifting_inv_append_inst [simp]: "lifting_inv env (append_inst b i s) = lifting_inv env s"
  by (simp add: append_inst_def)

lemma lifting_inv_update_inst [simp]: "lifting_inv env (update_inst v g s) = lifting_inv env s"
  by (cases v) simp_all

lemma no_new_body_refl [simp]: "no_new_body m m"
  by (simp add: no_new_body_def)

lemma no_new_body_declare [simp]: "blocks g = [] \<Longrightarrow> no_new_body m (m(f \<mapsto> g))"
  by (simp add: no_new_body_def)

lemma no_new_body_same_blocks:
  "m f = Some g \<Longrightarrow> blocks g' = blocks g \<Longrightarrow> no_new_body m (m(f \<mapsto> g'))"
  by (auto simp: no_new_body_def)

lemma lifting_inv_module_update [simp]:
  "lifting_inv env s \<Longrightarrow> no_new_body (semantics_module s) m \<Longrightarrow>
   lifting_inv env (s\<lparr>semantics_module := m\<rparr>)"
  by (auto simp: lifting_inv_def bodies_inv_def no_new_body_def)

lemma lifting_inv_BasicBlock_Create:
  assumes "lifting_inv env s" "BasicBlock_Create p s = (b, s')"
    and "\<And>n. p = Some n \<Longrightarrow> safe_name env n"
  shows "lifting_inv env s'"
  using assms
  by (auto simp: lifting_inv_def bodies_inv_def BasicBlock_Create_def Let_def
      split: option.splits if_splits)

lemma lifting_inv_GetOrCreateBlock:
  assumes "lifting_inv env s" "GetOrCreateBlock a s = (b, s')"
  shows "lifting_inv env s'"
  using assms
  by (auto simp: GetOrCreateBlock_def Let_def split: option.splits prod.splits
      dest!: lifting_inv_BasicBlock_Create[rotated] dest: lifting_inv_lifted_func)

lemma lifting_inv_branch_to_target [simp]:
  "lifting_inv env s \<Longrightarrow> lifting_inv env (branch_to_target env a block s)"
  by (auto simp: branch_to_target_def GetOrCreateTargetBlock_def Let_def split: prod.splits
      dest: lifting_inv_GetOrCreateBlock)

lemma lifting_inv_AddCall [simp]:
  "lifting_inv env (snd (AddCall b f s)) = lifting_inv env s"
  by (simp add: AddCall_eq)

lemma lifting_inv_muted_tail_call [simp]:
  "lifting_inv env (MuteStateEscape_of (AddTerminatingTailCall b f s)) = lifting_inv env s"
  by (simp add: MuteStateEscape_AddTerminatingTailCall_eq)

lemma lifting_inv_tail_call [simp]:
  "lifting_inv env (snd (AddTerminatingTailCall b f s)) = lifting_inv env s"
  by (simp add: AddTerminatingTailCall_eq)

lemma lifting_inv_split:
  assumes "split_on_branch_taken block s = ((t, nt), s')" "lifting_inv env s"
  shows "lifting_inv env s'"
proof -
  let ?s1 = "snd (LoadBranchTaken block s)"
  have g1: "lifting_inv env ?s1"
    using assms(2) by (simp add: LoadBranchTaken_def emit_def Let_def)
  have p1: "block_parent ?s1 = block_parent s"
    by (simp add: LoadBranchTaken_def emit_def append_inst_def Let_def)
  have safe: "safe_name env n" if "block_parent s block = Some n" for n
    using lifting_inv_parent[OF assms(2) that] .
  obtain b2 s2 where c2: "BasicBlock_Create (block_parent s block) ?s1 = (b2, s2)"
    by (cases "BasicBlock_Create (block_parent s block) ?s1")
  obtain b3 s3 where c3: "BasicBlock_Create (block_parent s block) s2 = (b3, s3)"
    by (cases "BasicBlock_Create (block_parent s block) s2")
  from lifting_inv_BasicBlock_Create[OF g1 c2 safe] have g2: "lifting_inv env s2" .
  from lifting_inv_BasicBlock_Create[OF g2 c3 safe] have g3: "lifting_inv env s3" .
  show ?thesis
    using assms c2 c3 g3
    by (auto simp: split_on_branch_taken_def Let_def split: prod.splits)
qed

lemma lifting_inv_VisitDelayedInstruction [simp]:
  "lifting_inv env s \<Longrightarrow> lifting_inv env (VisitDelayedInstruction env inst d block t s)"
  by (simp add: VisitDelayedInstruction_def split: option.splits)

lemma lifting_inv_LoadFunctionReturnAddress:
  assumes "LoadFunctionReturnAddress env inst block s = ((a, v), s')" "lifting_inv env s"
  shows "lifting_inv env s'"
  using assms
  by (auto simp: LoadFunctionReturnAddress_def LoadRegValue_def emit_def Let_def
      split: if_splits option.splits)

lemma lifting_inv_VisitAfterFunctionCall [simp]:
  "lifting_inv env s \<Longrightarrow> lifting_inv env (VisitAfterFunctionCall env inst block s)"
  by (auto simp: VisitAfterFunctionCall_def Let_def split: prod.splits
      dest: lifting_inv_LoadFunctionReturnAddress)

lemma lifting_inv_simple_visitors [simp]:
  "lifting_inv env s \<Longrightarrow> lifting_inv env (VisitInvalid env inst block s)"
  "lifting_inv env s \<Longrightarrow> lifting_inv env (VisitError env inst d block s)"
  "lifting_inv env s \<Longrightarrow> lifting_inv env (VisitNormal env inst block s)"
  "lifting_inv env s \<Longrightarrow> lifting_inv env (VisitNoOp env inst block s)"
  "lifting_inv env s \<Longrightarrow> lifting_inv env (VisitDirectJump env inst d block s)"
  "lifting_inv env s \<Longrightarrow> lifting_inv env (VisitIndirectJump env inst d block s)"
  "lifting_inv env s \<Longrightarrow> lifting_inv env (VisitFunctionReturn env inst d block s)"
  "lifting_inv env s \<Longrightarrow> lifting_inv env (VisitIndirectFunctionCall env inst d block s)"
  "lifting_inv env s \<Longrightarrow> lifting_inv env (VisitAsyncHyperCall env inst d block s)"
  by (simp_all add: VisitInvalid_def VisitError_def VisitNormal_def VisitNoOp_def
      VisitDirectJump_def VisitIndirectJump_def VisitFunctionReturn_def
      VisitIndirectFunctionCall_def VisitAsyncHyperCall_def Let_def)

lemma lifting_inv_conditional_visitors [simp]:
  "lifting_inv env s \<Longrightarrow> lifting_inv env (VisitConditionalIndirectJump env inst d block s)"
  "lifting_inv env s \<Longrightarrow> lifting_inv env (VisitConditionalFunctionReturn env inst d block s)"
  "lifting_inv env s \<Longrightarrow> lifting_inv env (VisitConditionalIndirectFunctionCall env inst d block s)"
  "lifting_inv env s \<Longrightarrow> lifting_inv env (VisitConditionalBranch env inst d block s)"
  "lifting_inv env s \<Longrightarrow> lifting_inv env (VisitConditionalAsyncHyperCall env inst d block s)"
  by (auto simp: VisitConditionalIndirectJump_def VisitConditionalFunctionReturn_def
      VisitConditionalIndirectFunctionCall_def VisitConditionalBranch_def
      VisitConditionalAsyncHyperCall_def Let_def split: prod.splits dest!: lifting_inv_split)

lemma lifting_inv_GetOrDeclareFunction:
  assumes "GetOrDeclareFunction env decl s = Inr (nf, s')" "lifting_inv env s"
  shows "lifting_inv env s'"
  using assms
  by (auto simp: GetOrDeclareFunction_def Let_def split: option.splits if_splits)

lemma lifting_inv_DeclareFunction:
  assumes "DeclareFunction env decl s = Inr (r, s')" "lifting_inv env s"
  shows "lifting_inv env s'"
  using assms
  by (auto simp: DeclareFunction_def split: prod.splits if_splits sum.splits
      dest: lifting_inv_GetOrDeclareFunction[where env = env])

lemma lifting_inv_TryCallNativeFunction:
  assumes "TryCallNativeFunction env a nf block s = Inr (r, s')" "lifting_inv env s"
  shows "lifting_inv env s'"
  using assms
  by (auto simp: TryCallNativeFunction_def emit_def Let_def split: option.splits if_splits)

lemma lifting_inv_CallFunction:
  assumes "CallFunction env inst block s = Inr s'" "lifting_inv env s"
  shows "lifting_inv env s'"
proof (cases "TryGetTargetFunctionType env (branch_taken_pc inst)")
  case None
  with assms show ?thesis by (auto simp: CallFunction_def)
next
  case (Some other_decl)
  obtain r s1 where d: "DeclareFunction env other_decl s = Inr (r, s1)"
    using assms(1) Some by (auto simp: CallFunction_def split: sum.splits)
  have g1: "lifting_inv env s1" using lifting_inv_DeclareFunction[OF d assms(2)] .
  show ?thesis
  proof (cases r)
    case None
    with assms(1) Some d g1 show ?thesis by (auto simp: CallFunction_def)
  next
    case (Some other_func)
    obtain r2 s2 where
      t: "TryCallNativeFunction env (address other_decl) (Some other_func) block s1 = Inr (r2, s2)"
      using assms(1) \<open>TryGetTargetFunctionType env (branch_taken_pc inst) = Some other_decl\<close> d Some
      by (auto simp: CallFunction_def split: sum.splits)
    have g2: "lifting_inv env s2" using lifting_inv_TryCallNativeFunction[OF t g1] .
    show ?thesis
      using assms(1) \<open>TryGetTargetFunctionType env (branch_taken_pc inst) = Some other_decl\<close>
        d Some t g2
      by (cases r2) (auto simp: CallFunction_def)
  qed
qed

lemma lifting_inv_VisitDirectFunctionCall:
  assumes "VisitDirectFunctionCall env inst d block s = Inr s'" "lifting_inv env s"
  shows "lifting_inv env s'"
proof -
  obtain s2 where c: "CallFunction env inst block (VisitDelayedInstruction env inst d block True s) = Inr s2"
    and s': "s' = VisitAfterFunctionCall env inst block s2"
    using assms(1) by (auto simp: VisitDirectFunctionCall_def Let_def split: sum.splits)
  have "lifting_inv env (VisitDelayedInstruction env inst d block True s)"
    using assms(2) by simp
  from lifting_inv_CallFunction[OF c this] show ?thesis
    by (simp add: s')
qed

lemma lifting_inv_VisitTypedHintedRegister:
  assumes "VisitTypedHintedRegister env block reg_name ty mv s = Inr s'" "lifting_inv env s"
  shows "lifting_inv env s'"
  using assms
  by (auto simp: VisitTypedHintedRegister_def GetOrCreateTaintedFunction_def emit_def Let_def
      split: option.splits if_splits)

lemma lifting_inv_visit_hints:
  "visit_hints env block hints s = Inr s' \<Longrightarrow> lifting_inv env s \<Longrightarrow> lifting_inv env s'"
proof (induction hints arbitrary: s)
  case Nil
  then show ?case by simp
next
  case (Cons h hints)
  obtain reg_name ty mv where h: "h = (reg_name, ty, mv)" by (cases h)
  from Cons.prems(1) obtain s1 where
    v: "VisitTypedHintedRegister env block reg_name ty mv s = Inr s1"
    and r: "visit_hints env block hints s1 = Inr s'"
    by (auto simp: h split: sum.splits)
  from lifting_inv_VisitTypedHintedRegister[OF v Cons.prems(2)] have "lifting_inv env s1" .
  from Cons.IH[OF r this] show ?case .
qed

lemma lifting_inv_load_registers:
  "lifting_inv env s \<Longrightarrow>
   lifting_inv env (snd (load_registers env block regs s))
   \<and> log_printf (snd (load_registers env block regs s)) = log_printf s"
proof (induction regs arbitrary: s)
  case Nil
  then show ?case by simp
next
  case (Cons reg regs)
  show ?case
  proof (cases "EnclosingRegister reg = name reg
         \<and> isIntegerTy (type reg) (address_size (arch (options env)))")
    case False
    with Cons show ?thesis by auto
  next
    case True
    let ?s1 = "append_inst block (LoadInst (LoadRegAddress block (state_ptr s) (name reg))) s"
    have g1: "lifting_inv env ?s1" using Cons.prems by simp
    have l1: "log_printf ?s1 = log_printf s" by (simp add: append_inst_def)
    from Cons.IH[OF g1] l1 True show ?thesis
      by (simp add: LoadRegValue_def emit_def Let_def split_def)
  qed
qed

lemma lifting_inv_InstrumentInstruction [simp]:
  assumes "lifting_inv env s"
  shows "lifting_inv env (InstrumentInstruction env block s)"
proof -
  let ?s1 = "(case log_printf s of
                  Some _ \<Rightarrow> s
                | None \<Rightarrow>
                    s\<lparr>log_printf := Some ''printf'',
                      semantics_module :=
                        (case semantics_module s ''printf'' of
                           Some _ \<Rightarrow> semantics_module s
                         | None \<Rightarrow> (semantics_module s)(''printf'' \<mapsto>
                             \<lparr>function_type = FunctionTy (NamedTy ''void'') [PointerTy (IntegerTy 8)],
                              blocks = [], fn_attrs = {}, linkage = ExternalLinkage,
                              calling_conv = 0\<rparr>))\<rparr>)"
  have g1: "lifting_inv env ?s1"
    using assms(1) by (auto split: option.splits)
  let ?r = "load_registers env block (ForEachRegister (arch (options env))) ?s1"
  from lifting_inv_load_registers[OF g1] have g2: "lifting_inv env (snd ?r)" by simp
  show ?thesis
    using g2
    by (auto simp: InstrumentInstruction_def Let_def split_def split: option.splits)
qed

lemma lifting_inv_breakpoint_function [simp]:
  assumes "lifting_inv env s"
  shows "lifting_inv env (breakpoint_function env (''breakpoint_'' @ x) s)"
proof (cases "semantics_module s (''breakpoint_'' @ x)")
  case (Some a)
  then show ?thesis using assms by (simp add: breakpoint_function_def)
next
  case None
  let ?fn = "''breakpoint_'' @ x"
  let ?sd = "s\<lparr>semantics_module := (semantics_module s)(?fn \<mapsto>
               \<lparr>function_type =
                   FunctionTy mem_ptr_type [mem_ptr_type, address_type env, address_type env],
                blocks = [], fn_attrs = {OptimizeNone, NoInline, ReadNone},
                linkage = ExternalLinkage, calling_conv = 0\<rparr>)\<rparr>"
  have gd: "lifting_inv env ?sd" using assms None by simp
  obtain b s2 where c: "BasicBlock_Create (Some ?fn) ?sd = (b, s2)"
    by (cases "BasicBlock_Create (Some ?fn) ?sd")
  have "lifting_inv env s2"
    by (rule lifting_inv_BasicBlock_Create[OF gd c]) (simp add: safe_name_def sub_name_def)
  then show ?thesis
    using None c by (simp add: breakpoint_function_def Let_def)
qed

lemma lifting_inv_InstrumentCallBreakpointFunction:
  assumes "InstrumentCallBreakpointFunction env block s = Inr s'" "lifting_inv env s"
  shows "lifting_inv env s'"
proof -
  obtain ci where ci: "curr_inst s = Some ci"
    using assms(1) by (auto simp: InstrumentCallBreakpointFunction_def split: option.splits)
  have "lifting_inv env (breakpoint_function env (''breakpoint_'' @ hex_of_nat (unat (pc ci))) s)"
    using assms(2) by (rule lifting_inv_breakpoint_function)
  then show ?thesis
    using assms(1) ci
    by (auto simp: InstrumentCallBreakpointFunction_def LoadMemoryPointer_def LoadRegValue_def
      emit_def Let_def simp del: append.simps)
qed

lemma lifting_inv_dispatch_category:
  assumes "dispatch_category env inst d block s = Inr s'" "lifting_inv env s"
  shows "lifting_inv env s'"
  using assms
  by (cases "category inst")
     (auto simp: dispatch_category_def dest: lifting_inv_VisitDirectFunctionCall[where env = env])

lemma lifting_inv_DecodeInstructionInto:
  "DecodeInstructionInto env a is_delayed s = (r, s') \<Longrightarrow> lifting_inv env s' = lifting_inv env s"
  using DecodeInstructionInto_state[of env a is_delayed s] by auto

lemma lifting_inv_VisitInstruction:
  assumes "VisitInstruction env inst block s = Inr s'" "lifting_inv env s"
  shows "lifting_inv env s'"
proof -
  let ?s1 = "s\<lparr>curr_inst := Some inst\<rparr>"
  let ?s2 = "if FLAGS_print_registers_before_instuctions env
             then InstrumentInstruction env block ?s1 else ?s1"
  have g2: "lifting_inv env ?s2" using assms(2) by simp
  obtain s3 where s3: "(if FLAGS_add_breakpoints env
               then InstrumentCallBreakpointFunction env block ?s2 else Inr ?s2) = Inr s3"
    using assms(1) by (auto simp: VisitInstruction_def Let_def split: sum.splits)
  have g3: "lifting_inv env s3"
    using s3 g2
    by (auto split: if_splits dest: lifting_inv_InstrumentCallBreakpointFunction[where env = env])
  let ?s4 = "append_inst block (LiftIntoBlock inst (state_ptr s3) False) s3"
  have g4: "lifting_inv env ?s4" using g3 by simp
  obtain di s4d where dd:
    "(if MayHaveDelaySlot (arch (options env)) inst
      then (let (decoded, s') = DecodeInstructionInto env (delayed_pc inst) True ?s4
            in (Some (snd decoded), s'))
      else (None, ?s4)) = (di, s4d)"
    by (metis surj_pair)
  have g4d: "lifting_inv env s4d"
    using dd g4
    by (auto split: if_splits prod.splits dest: lifting_inv_DecodeInstructionInto[where env = env])
  obtain s5 where s5: "(if symbolic_register_types (options env)
                       then visit_hints env block
                              (QueryRegisterStateAtInstruction env (func_address s4d) (pc inst)) s4d
                       else Inr s4d) = Inr s5"
    using assms(1) s3 dd by (auto simp: VisitInstruction_def Let_def split: sum.splits)
  have g5: "lifting_inv env s5"
    using s5 g4d
    by (auto split: if_splits dest: lifting_inv_visit_hints[where env = env])
  obtain s6 where s6: "dispatch_category env inst di block s5 = Inr s6"
    and s': "s' = s6\<lparr>curr_inst := None\<rparr>"
    using assms(1) s3 dd s5 by (auto simp: VisitInstruction_def Let_def split: sum.splits)
  from lifting_inv_dispatch_category[OF s6 g5] show ?thesis by (simp add: s')
qed

lemma lifting_inv_try_tail_call:
  assumes "try_tail_call env a block s = Inr (r, s')" "lifting_inv env s"
  shows "lifting_inv env s'"
proof (cases "TryGetTargetFunctionType env a")
  case None
  with assms show ?thesis by (auto simp: try_tail_call_def)
next
  case (Some decl)
  obtain od s1 where d: "DeclareFunction env decl s = Inr (od, s1)"
    using assms(1) Some by (auto simp: try_tail_call_def split: sum.splits)
  have g1: "lifting_inv env s1" using lifting_inv_DeclareFunction[OF d assms(2)] .
  obtain r2 s2 where t: "TryCallNativeFunction env (address decl) od block s1 = Inr (r2, s2)"
    using assms(1) Some d by (auto simp: try_tail_call_def split: sum.splits)
  have g2: "lifting_inv env s2" using lifting_inv_TryCallNativeFunction[OF t g1] .
  show ?thesis
    using assms(1) Some d t g2
    by (cases r2) (auto simp: try_tail_call_def)
qed

lemma lifting_inv_visit_edge:
  assumes "visit_edge env inst_addr from_addr s = Inr s'" "lifting_inv env s"
  shows "lifting_inv env s'"
proof -
  obtain block where b: "edge_to_dest_block s (from_addr, inst_addr) = Some block"
    using assms(1) by (auto simp: visit_edge_def split: option.splits)
  show ?thesis
  proof (cases "block_store s block \<noteq> []")
    case True
    with assms b show ?thesis by (simp add: visit_edge_def)
  next
    case False
    obtain t s1 where t: "(if inst_addr \<noteq> func_address s \<or> from_addr \<noteq> 0
                   then try_tail_call env inst_addr block s else Inr (False, s)) = Inr (t, s1)"
      using assms(1) b False by (auto simp: visit_edge_def split: sum.splits)
    have g1: "lifting_inv env s1"
      using t assms(2)
      by (auto split: if_splits dest: lifting_inv_try_tail_call[where env = env])
    show ?thesis
    proof (cases t)
      case True
      with assms(1) b False t g1 show ?thesis by (auto simp: visit_edge_def)
    next
      case nt: False
      show ?thesis
      proof (cases "addr_to_block s1 inst_addr")
        case (Some inst_block)
        with assms(1) b False t nt g1 show ?thesis by (auto simp: visit_edge_def)
      next
        case None
        let ?s2 = "s1\<lparr>addr_to_block := (addr_to_block s1)(inst_addr \<mapsto> block)\<rparr>"
        have g2: "lifting_inv env ?s2" using g1 by simp
        obtain ok inst s3 where dec: "DecodeInstructionInto env inst_addr False ?s2 = ((ok, inst), s3)"
          by (metis surj_pair)
        have g3: "lifting_inv env s3"
          using lifting_inv_DecodeInstructionInto[OF dec] g2 by simp
        show ?thesis
        proof (cases "\<not> ok \<or> \<not> IsValid inst \<or> IsError inst")
          case True
          then have "s' = MuteStateEscape_of (AddTerminatingTailCall block intrinsics_error s3)"
            using assms(1) b False t nt None dec
            by (auto simp: visit_edge_def Let_def split: if_splits)
          then show ?thesis using g3 by simp
        next
          case False
          then have "VisitInstruction env inst block s3 = Inr s'"
            using assms(1) b \<open>\<not> block_store s block \<noteq> []\<close> t nt None dec
            by (auto simp: visit_edge_def Let_def)
          from lifting_inv_VisitInstruction[OF this g3] show ?thesis .
        qed
      qed
    qed
  qed
qed

lemma lifting_inv_VisitInstructions:
  "VisitInstructions fuel env s = Inr s' \<Longrightarrow> lifting_inv env s \<Longrightarrow> lifting_inv env s'"
proof (induction fuel arbitrary: s)
  case 0
  then show ?case by (auto simp: VisitInstructions.simps split: list.splits)
next
  case (Suc fuel)
  show ?case
  proof (cases "edge_work_list s")
    case Nil
    with Suc.prems show ?thesis by (simp add: VisitInstructions.simps)
  next
    case (Cons e rest)
    obtain inst_addr from_addr where e: "e = (inst_addr, from_addr)" by (cases e)
    from Suc.prems(1) Cons e obtain s1 where
      v: "visit_edge env inst_addr from_addr (s\<lparr>edge_work_list := rest\<rparr>) = Inr s1"
      and r: "VisitInstructions fuel env s1 = Inr s'"
      by (auto simp: VisitInstructions.simps[of "Suc fuel"] split: sum.splits)
    have "lifting_inv env (s\<lparr>edge_work_list := rest\<rparr>)" using Suc.prems(2) by simp
    from lifting_inv_visit_edge[OF v this] have "lifting_inv env s1" .
    from Suc.IH[OF r this] show ?thesis .
  qed
qed

lemma lifting_inv_native_wrapper_body:
  assumes "lifting_inv env s" "safe_name env nf"
  shows "lifting_inv env (native_wrapper_body env nf lf s)"
proof -
  obtain block s3 where c: "BasicBlock_Create (Some nf) s = (block, s3)"
    by (cases "BasicBlock_Create (Some nf) s")
  have g3: "lifting_inv env s3"
    by (rule lifting_inv_BasicBlock_Create[OF assms(1) c]) (simp add: assms(2))
  have me: "lifting_inv env (snd (GetMemoryEscapeFunc x))" if "lifting_inv env x" for x
    using that by (auto simp: GetMemoryEscapeFunc_def split: option.splits)
  show ?thesis
    using g3
    by (simp add: native_wrapper_body_def c emit_def Let_def split_def me)
qed

lemma lifting_inv_CallLiftedFunctionFromNativeFunction:
  assumes "CallLiftedFunctionFromNativeFunction env s = Inr s'" "lifting_inv env s"
  shows "lifting_inv env s'"
  using assms
  by (auto simp: CallLiftedFunctionFromNativeFunction_def Let_def
      split: option.splits if_splits
      intro!: lifting_inv_native_wrapper_body dest: lifting_inv_native_func)

lemma lifting_inv_lifted_func_update:
  "lifting_inv env s \<Longrightarrow> safe_name env p \<Longrightarrow> lifting_inv env (s\<lparr>lifted_func := Some p\<rparr>)"
  by (auto simp: lifting_inv_def bodies_inv_def)

lemma lifting_inv_native_func_update:
  "bodies_inv env s \<Longrightarrow> safe_name env p \<Longrightarrow> lifting_inv env (s\<lparr>native_func := Some p\<rparr>)"
  by (auto simp: lifting_inv_def bodies_inv_def)

lemma lifting_inv_bodies_inv: "lifting_inv env s \<Longrightarrow> bodies_inv env s"
  by (simp add: lifting_inv_def)

lemma lifting_inv_lift_body:
  assumes lb: "lift_body fuel env nf s = Inr (r, s')" and inv: "lifting_inv env s"
  shows "lifting_inv env s'"
proof -
  let ?l = "nf @ ''.lifted''"
  let ?s2 = "(DeclareLiftedFunction env ?l s)\<lparr>lifted_func := Some ?l,
               state_ptr := Argument kStatePointerArgNum\<rparr>"
  have "lifting_inv env (DeclareLiftedFunction env ?l s)"
    using inv by (auto simp: DeclareLiftedFunction_def split: option.splits)
  then have g2: "lifting_inv env ?s2"
    by (simp add: lifting_inv_lifted_func_update)
  let ?s3 = "CloneBlockFunctionInto ?l ?s2"
  obtain b s2b where c: "BasicBlock_Create (Some ?l) ?s2 = (b, s2b)"
    by (cases "BasicBlock_Create (Some ?l) ?s2")
  have "lifting_inv env s2b"
    by (rule lifting_inv_BasicBlock_Create[OF g2 c]) simp
  then have g3: "lifting_inv env ?s3"
    using c by (simp add: CloneBlockFunctionInto_def)
  let ?s4 = "?s3\<lparr>semantics_module :=
                (case semantics_module ?s3 ?l of
                   None \<Rightarrow> semantics_module ?s3
                 | Some g \<Rightarrow> (semantics_module ?s3)(?l \<mapsto>
                     g\<lparr>fn_attrs := insert AlwaysInline (insert InlineHint (fn_attrs g - {NoInline})),
                       linkage := InternalLinkage\<rparr>))\<rparr>"
  have "no_new_body (semantics_module ?s3) (semantics_module ?s4)"
    by (auto split: option.splits intro: no_new_body_same_blocks)
  then have g4: "lifting_inv env ?s4"
    using g3 by simp
  from lb obtain g eb rest fb s7 s9 where
    m: "semantics_module ?s4 ?l = Some g" and bl: "blocks g = eb # rest"
    and gb: "GetOrCreateBlock (func_address ?s4)
               (append_inst eb (StoreInst (Argument kPCArgNum)
                    (LoadRegAddress eb (state_ptr ?s4) kPCVariableName))
                  (append_inst eb (StoreInst (Argument kPCArgNum)
                    (LoadRegAddress eb (state_ptr ?s4) kNextPCVariableName)) ?s4)) = (fb, s7)"
    and vi: "VisitInstructions fuel env (append_inst eb (BranchInst fb) s7) = Inr s9"
    and cl: "CallLiftedFunctionFromNativeFunction env s9 = Inr s'"
    by (auto simp: lift_body_def Let_def RecursivelyInlineLiftedFunctionIntoNativeFunction_def
        append_inst_def
        split: option.splits if_splits list.splits prod.splits sum.splits)
  have "lifting_inv env s7"
    by (rule lifting_inv_GetOrCreateBlock[OF _ gb]) (simp add: g4)
  then have "lifting_inv env (append_inst eb (BranchInst fb) s7)"
    by simp
  from lifting_inv_VisitInstructions[OF vi this] have "lifting_inv env s9" .
  from lifting_inv_CallLiftedFunctionFromNativeFunction[OF cl this] show ?thesis .
qed

lemma bodies_inv_irrelevant [simp]:
  "bodies_inv env (s\<lparr>edge_to_dest_block := ed\<rparr>) = bodies_inv env s"
  "bodies_inv env (s\<lparr>edge_work_list := wl\<rparr>) = bodies_inv env s"
  "bodies_inv env (s\<lparr>addr_to_block := ab\<rparr>) = bodies_inv env s"
  "bodies_inv env (s\<lparr>addr_to_decl := ad\<rparr>) = bodies_inv env s"
  "bodies_inv env (s\<lparr>addr_to_func := af\<rparr>) = bodies_inv env s"
  "bodies_inv env (s\<lparr>func_name_to_address := fa\<rparr>) = bodies_inv env s"
  "bodies_inv env (s\<lparr>curr_inst := ci\<rparr>) = bodies_inv env s"
  "bodies_inv env (s\<lparr>state_ptr := sp\<rparr>) = bodies_inv env s"
  "bodies_inv env (s\<lparr>func_address := a\<rparr>) = bodies_inv env s"
  "bodies_inv env (s\<lparr>native_func := nf\<rparr>) = bodies_inv env s"
  "bodies_inv env (s\<lparr>log_printf := lp\<rparr>) = bodies_inv env s"
  "bodies_inv env (s\<lparr>block_store := bs\<rparr>) = bodies_inv env s"
  "bodies_inv env (s\<lparr>next_block := nb\<rparr>) = bodies_inv env s"
  "bodies_inv env (s\<lparr>max_inst_size := ms\<rparr>) = bodies_inv env s"
  by (simp_all add: bodies_inv_def)

lemma bodies_inv_module_update [simp]:
  "bodies_inv env s \<Longrightarrow> no_new_body (semantics_module s) m \<Longrightarrow>
   bodies_inv env (s\<lparr>semantics_module := m\<rparr>)"
  by (auto simp: bodies_inv_def no_new_body_def)

lemma bodies_inv_GetOrDeclareFunction:
  assumes "GetOrDeclareFunction env decl s = Inr (nf, s')" "bodies_inv env s"
  shows "bodies_inv env s'"
  using assms
  by (auto simp: GetOrDeclareFunction_def Let_def split: option.splits if_splits)

lemma bodies_inv_DeclareFunction:
  assumes "DeclareFunction env decl s = Inr (r, s')" "bodies_inv env s"
  shows "bodies_inv env s'"
  using assms
  by (auto simp: DeclareFunction_def split: prod.splits if_splits sum.splits
      dest: bodies_inv_GetOrDeclareFunction[where env = env])

lemma bodies_inv_EraseFunctionBody:
  "bodies_inv env s \<Longrightarrow> bodies_inv env (EraseFunctionBody func s)"
  by (auto simp: bodies_inv_def EraseFunctionBody_def split: option.splits if_splits)

lemma bodies_inv_constructed:
  assumes "constructed env s"
  shows "bodies_inv env s"
proof -
  have none: "semantics_module s (sub_name env decl) = None" for decl
    using assms by (simp add: constructed_def)
  have "safe_name env p" if "semantics_module s p \<noteq> None" for p
    using that none by (auto simp: safe_name_def)
  moreover have "semantics_module s p \<noteq> None" if "block_parent s b = Some p" for b p
    using assms that by (simp add: constructed_def)
  moreover have "lifted_func s = None"
    using assms by (simp add: constructed_def)
  ultimately show ?thesis
    by (auto simp: bodies_inv_def)
qed

text \<open>The name under which a lift finds its native function.\<close>

lemma DeclareFunction_after_reset:
  assumes "DeclareFunction env decl (LiftFunction_reset decl s) = Inr (Some nf, s2)"
  shows "nf = sub_name env decl \<and> addr_to_func s2 (address decl) = Some (sub_name env decl)
         \<and> func_address s2 = address decl"
  using assms
  by (auto simp: DeclareFunction_def GetOrDeclareFunction_def LiftFunction_reset_def Let_def
      split: prod.splits if_splits sum.splits option.splits)

lemma GetOrDeclareFunction_cached:
  assumes "GetOrDeclareFunction env decl s = Inr (nf, s')" "addr_to_func s (address decl) = Some n"
  shows "nf = n \<and> s' = s"
  using assms
  by (auto simp: GetOrDeclareFunction_def Let_def split: option.splits if_splits)

lemma bodies_inv_LiftFunction:
  assumes lf: "LiftFunction fuel env decl s = Inr (r, s')" and inv: "bodies_inv env s"
  shows "bodies_inv env s'"
proof -
  let ?s1 = "LiftFunction_reset decl s"
  have g1: "bodies_inv env ?s1"
    using inv by (simp add: LiftFunction_reset_def)
  obtain declared s2 where d: "DeclareFunction env decl ?s1 = Inr (declared, s2)"
    using lf by (auto simp: LiftFunction_def Let_def split: sum.splits)
  have g2: "bodies_inv env s2"
    using bodies_inv_DeclareFunction[OF d g1] .
  let ?s3 = "s2\<lparr>native_func := declared\<rparr>"
  have fa: "func_address ?s3 = address decl"
    using d
    by (auto simp: DeclareFunction_def GetOrDeclareFunction_def LiftFunction_reset_def Let_def
      split: prod.splits if_splits sum.splits option.splits)
  obtain b av pm where q: "Query env (address decl) = (b, av, pm)"
    by (cases "Query env (address decl)")
  show ?thesis
  proof (cases "\<not> IsValidAddress env av \<or> \<not> IsExecutable env pm")
    case True
    then have "s' = ?s3" using lf d q fa by (auto simp: LiftFunction_def Let_def)
    then show ?thesis using g2 by simp
  next
    case False
    then obtain n where dn: "declared = Some n"
      using d q by (auto simp: DeclareFunction_def split: sum.splits)
    from DeclareFunction_after_reset[OF d[unfolded dn]]
    have n: "n = sub_name env decl" and c: "addr_to_func ?s3 (address decl) = Some (sub_name env decl)"
      by simp_all
    obtain nf s4 where g: "GetOrDeclareFunction env decl ?s3 = Inr (nf, s4)"
      using lf d q fa False by (auto simp: LiftFunction_def Let_def split: sum.splits)
    from GetOrDeclareFunction_cached[OF g c] have nf: "nf = sub_name env decl" and s4: "s4 = ?s3"
      by simp_all
    let ?s5 = "s4\<lparr>native_func := Some nf\<rparr>"
    have g5: "bodies_inv env ?s5" using g2 s4 by simp
    obtain f where f: "semantics_module ?s5 nf = Some f"
      using lf d q fa False g by (auto simp: LiftFunction_def Let_def split: option.splits)
    show ?thesis
    proof (cases "\<not> isDeclaration f \<or> \<not> HasByte env av")
      case True
      then have "s' = ?s5"
        using lf d q fa False g f by (auto simp: LiftFunction_def Let_def split: if_splits)
      then show ?thesis using g5 by simp
    next
      case nb: False
      then have lb: "lift_body fuel env nf ?s5 = Inr (r, s')"
        using lf d q fa False g f by (auto simp: LiftFunction_def Let_def)
      have "liftable env (address decl)"
        using q False nb by (simp add: liftable_def)
      then have "safe_name env nf"
        unfolding nf by (rule safe_name_sub_name)
      with g2 s4 have "lifting_inv env ?s5"
        by (simp add: lifting_inv_native_func_update)
      from lifting_inv_lift_body[OF lb this] show ?thesis
        by (rule lifting_inv_bodies_inv)
    qed
  qed
qed

lemma reachable_bodies_inv: "reachable env s \<Longrightarrow> bodies_inv env s"
proof (induction rule: reachable.induct)
  case (reachable_constructed s)
  then show ?case by (rule bodies_inv_constructed)
next
  case (reachable_LiftFunction s fuel decl r s')
  then show ?case by (auto intro: bodies_inv_LiftFunction)
next
  case (reachable_DeclareFunction s decl r s')
  then show ?case by (auto intro: bodies_inv_DeclareFunction)
next
  case (reachable_AddFunctionToContext s func)
  then show ?case by (auto intro: bodies_inv_EraseFunctionBody)
qed

text \<open>In a reachable lifter, a native function with a body is at an address that can be lifted.\<close>

lemma reachable_body_liftable:
  assumes "reachable env s" "semantics_module s (sub_name env decl) = Some f" "\<not> isDeclaration f"
  shows "liftable env (address decl)"
  using reachable_bodies_inv[OF assms(1)] assms(2,3)
  by (auto simp: bodies_inv_def safe_name_def isDeclaration_def)

section \<open>The early returns of a lift\<close>

lemma constructed_fresh_lifter: "constructed env fresh_lifter"
  by (simp add: constructed_def fresh_lifter_def)

lemma lifted_2000_facts:
  "LiftFunction 1 toy_env (toy_decl 0x2000) fresh_lifter = Inr (Some ''sub_2000_v_0'', lifted_2000)"
  "semantics_module lifted_2000 ''sub_2000_v_0'' =
     Some \<lparr>function_type = void_function_type, blocks = [2], fn_attrs = {NoInline},
           linkage = ExternalLinkage, calling_conv = 0\<rparr>"
  "semantics_module lifted_2000 ''sub_3000_v_0'' = None"
  "edge_to_dest_block lifted_2000 (0, 0x2000) = Some 1"
  "addr_to_block lifted_2000 0x2000 = Some 1"
  "next_block lifted_2000 = 3"
  by (simp_all add: lifted_2000_def
      LiftFunction_def LiftFunction_reset_def DeclareFunction_def GetOrDeclareFunction_def
      sub_name_toy lift_body_def DeclareLiftedFunction_def CloneBlockFunctionInto_def
      BasicBlock_Create_def GetOrCreateBlock_def LoadRegAddress_def
      VisitInstructions.simps visit_edge_def toy_decode_2000
      MuteStateEscape_AddTerminatingTailCall_eq
      CallLiftedFunctionFromNativeFunction_def native_wrapper_body_def GetMemoryEscapeFunc_def
      RecursivelyInlineLiftedFunctionIntoNativeFunction_def
      emit_def append_inst_def isDeclaration_def default_FunctionDecl_def
      Let_def toy_memory_def fresh_lifter_def
      kPCVariableName_def kMemoryVariableName_def intrinsics_error_def
      kMemoryPointerEscapeFunction_def)

lemma reachable_lifted_2000: "reachable toy_env lifted_2000"
  by (rule reachable_LiftFunction[OF reachable_constructed[OF constructed_fresh_lifter]
        lifted_2000_facts(1)])

lemma LiftFunction_with_body:
  assumes "IsValidAddress env (fst (snd (Query env (address decl))))"
    and "IsExecutable env (snd (snd (Query env (address decl))))"
    and "semantics_module s (sub_name env decl) = Some f"
    and "\<not> isDeclaration f"
    and "function_type f = decl_type decl"
  shows "LiftFunction fuel env decl s =
     Inr (Some (sub_name env decl),
          (LiftFunction_reset decl s)\<lparr>
             addr_to_func := [address decl \<mapsto> sub_name env decl],
             func_name_to_address :=
               (case func_name_to_address s (sub_name env decl) of
                  None \<Rightarrow> (func_name_to_address s)(sub_name env decl \<mapsto> address decl)
                | Some a \<Rightarrow> func_name_to_address s),
             native_func := Some (sub_name env decl)\<rparr>)"
proof -
  obtain b av pm where q: "Query env (address decl) = (b, av, pm)"
    by (cases "Query env (address decl)")
  show ?thesis
    using assms q
    by (auto simp: LiftFunction_def LiftFunction_reset_def DeclareFunction_def
        GetOrDeclareFunction_def Let_def split: option.splits)
qed

text \<open>
  Claim C7. In every state that a lifter can reach, for every declaration and every bound
  on the work-list loop: a call of \<^verbatim>\<open>LiftFunction\<close> that returns, returns a null result
  exactly when the entry address is not a valid address or the entry byte is not
  executable, and with such an entry the call does return. When the entry address is valid
  and executable and the entry byte itself is unavailable, the call returns the declared
  native function, which is a declaration in the module after the call, and nothing is
  lifted: no block is created or changed, and the lifted function of the lifter stays
  what it was. The one way for the call not to return then is the \<^verbatim>\<open>CHECK_EQ\<close> of
  \<^verbatim>\<open>GetOrDeclareFunction\<close>, which ends the process when the module has a function of that
  name with another type than the declared one.
\<close>

theorem LiftFunction_null_or_declaration:
  assumes "reachable env s"
  shows "(let q = Query env (address decl);
        valid = (IsValidAddress env (fst (snd q)) \<and> IsExecutable env (snd (snd q)));
        nm = sub_name env decl
    in case LiftFunction fuel env decl s of
         Inl e \<Rightarrow>
           valid
           \<and> (\<not> HasByte env (fst (snd q)) \<longrightarrow>
                e = CheckFailed
                \<and> (\<exists>f. semantics_module s nm = Some f \<and> function_type f \<noteq> decl_type decl))
       | Inr (r, s') \<Rightarrow>
           (r = None) = (\<not> valid)
           \<and> (valid \<and> \<not> HasByte env (fst (snd q)) \<longrightarrow>
                r = Some nm
                \<and> (case semantics_module s' nm of None \<Rightarrow> False | Some f \<Rightarrow> isDeclaration f)
                \<and> block_store s' = block_store s \<and> next_block s' = next_block s
                \<and> lifted_func s' = lifted_func s))"
proof -
  obtain b av pm where q: "Query env (address decl) = (b, av, pm)"
    by (cases "Query env (address decl)")
  have decl_only: "blocks f = []"
    if "semantics_module s (sub_name env decl) = Some f" "\<not> HasByte env av" for f
  proof (rule ccontr)
    assume "blocks f \<noteq> []"
    then have "\<not> isDeclaration f" by (simp add: isDeclaration_def)
    from reachable_body_liftable[OF assms that(1) this] that(2) q show False
      by (simp add: liftable_def)
  qed
  show ?thesis
    using q decl_only
    by (auto simp: LiftFunction_def LiftFunction_reset_def DeclareFunction_def
        GetOrDeclareFunction_def Let_def isDeclaration_def
        split: option.splits sum.splits prod.splits if_splits dest: lift_body_result)
qed

text \<open>
  In the toy memory, in a lifter just constructed, lifting at the unavailable \<open>0x6000\<close>
  returns null, and lifting at \<open>0x3000\<close>, valid and executable but without a byte, returns
  a declaration; so it does in the lifter that has lifted the function at \<open>0x2000\<close>.
\<close>

theorem LiftFunction_null_or_declaration_witness:
  "reachable toy_env fresh_lifter \<and> reachable toy_env lifted_2000
   \<and> (case LiftFunction 0 toy_env (toy_decl 0x6000) fresh_lifter of
         Inr (r, s') \<Rightarrow> r = None
       | Inl e \<Rightarrow> False)
   \<and> (case LiftFunction 0 toy_env (toy_decl 0x3000) fresh_lifter of
         Inr (r, s') \<Rightarrow>
           r = Some ''sub_3000_v_0''
           \<and> (case semantics_module s' ''sub_3000_v_0'' of None \<Rightarrow> False | Some f \<Rightarrow> isDeclaration f)
           \<and> next_block s' = 0
       | Inl e \<Rightarrow> False)
   \<and> (case LiftFunction 0 toy_env (toy_decl 0x3000) lifted_2000 of
         Inr (r, s') \<Rightarrow>
           r = Some ''sub_3000_v_0''
           \<and> (case semantics_module s' ''sub_3000_v_0'' of None \<Rightarrow> False | Some f \<Rightarrow> isDeclaration f)
           \<and> next_block s' = 3
       | Inl e \<Rightarrow> False)"
proof -
  have r0: "reachable toy_env fresh_lifter"
    by (rule reachable_constructed[OF constructed_fresh_lifter])
  note r1 = reachable_lifted_2000
  show ?thesis
    using r0 r1
      LiftFunction_null_or_declaration [OF r0, of "toy_decl 0x6000" 0]
      LiftFunction_null_or_declaration [OF r0, of "toy_decl 0x3000" 0]
      LiftFunction_null_or_declaration [OF r1, of "toy_decl 0x3000" 0]
    by (simp add: Let_def toy_memory_def sub_name_toy fresh_lifter_def lifted_2000_facts
        split: sum.splits prod.splits)
qed

text \<open>
  Claim C10, as stated, at a concrete input. A lifter just constructed lifts the function
  at \<open>0x2000\<close>; the native function now has a body, and the edge map and the map from
  addresses to blocks hold the block of the entry address. A second call with the same
  declaration returns the same function, and both maps have lost their entry: the call
  has modified the lifter.
\<close>

theorem second_lift_resets_counterexample:
  "LiftFunction 1 toy_env (toy_decl 0x2000) fresh_lifter = Inr (Some ''sub_2000_v_0'', lifted_2000)
   \<and> (case semantics_module lifted_2000 (sub_name toy_env (toy_decl 0x2000)) of
         Some f \<Rightarrow> \<not> isDeclaration f
       | None \<Rightarrow> False)
   \<and> edge_to_dest_block lifted_2000 (0, 0x2000) = Some 1
   \<and> addr_to_block lifted_2000 0x2000 = Some 1
   \<and> (case LiftFunction 1 toy_env (toy_decl 0x2000) lifted_2000 of
         Inr (r, s') \<Rightarrow>
           r = Some ''sub_2000_v_0''
           \<and> edge_to_dest_block s' (0, 0x2000) = None
           \<and> addr_to_block s' 0x2000 = None
       | Inl e \<Rightarrow> False)"
  using LiftFunction_with_body [of toy_env "toy_decl 0x2000" lifted_2000
      "\<lparr>function_type = void_function_type, blocks = [2], fn_attrs = {NoInline},
        linkage = ExternalLinkage, calling_conv = 0\<rparr>" 1]
  by (simp add: lifted_2000_facts lifted_2000_facts(1)[unfolded One_nat_def] sub_name_toy
      toy_memory_def isDeclaration_def LiftFunction_reset_def)

text \<open>
  Claim C10, amended. In every state that a lifter can reach, if \<^verbatim>\<open>LiftFunction\<close> is called
  with a declaration whose native function (the function of the declared type under the
  declaration's temporary name) already has a body in the semantics module, it returns
  that function for every bound on the work-list loop, so without an iteration of it,
  and leaves the module and all blocks as they were. Of the lifter it changes what every
  call changes at its start (the five containers are emptied, the current instruction and
  the state pointer are reset, the function address is set), the caches of the declared
  function (its address in \<open>addr_to_func\<close>, its name in \<open>func_name_to_address\<close> if not
  there), and \<open>native_func\<close>.
\<close>

theorem LiftFunction_already_lifted:
  assumes "reachable env s"
    and "semantics_module s (sub_name env decl) = Some f"
    and "\<not> isDeclaration f"
    and "function_type f = decl_type decl"
  shows "LiftFunction fuel env decl s =
     Inr (Some (sub_name env decl),
          (LiftFunction_reset decl s)\<lparr>
             addr_to_func := [address decl \<mapsto> sub_name env decl],
             func_name_to_address :=
               (case func_name_to_address s (sub_name env decl) of
                  None \<Rightarrow> (func_name_to_address s)(sub_name env decl \<mapsto> address decl)
                | Some a \<Rightarrow> func_name_to_address s),
             native_func := Some (sub_name env decl)\<rparr>)"
proof -
  from reachable_body_liftable[OF assms(1,2,3)]
  have "IsValidAddress env (fst (snd (Query env (address decl))))"
    and "IsExecutable env (snd (snd (Query env (address decl))))"
    by (auto simp: liftable_def split: prod.splits)
  then show ?thesis
    using assms(2,3,4) by (rule LiftFunction_with_body)
qed

text \<open>
  The lifter that has lifted the function at \<open>0x2000\<close> returns it when asked again, even
  with no iteration allowed, with the module and the blocks as they were and the edge map
  empty.
\<close>

theorem LiftFunction_already_lifted_witness:
  "reachable toy_env lifted_2000
   \<and> (case LiftFunction 0 toy_env (toy_decl 0x2000) lifted_2000 of
      Inr (r, s') \<Rightarrow>
        r = Some ''sub_2000_v_0''
        \<and> semantics_module s' = semantics_module lifted_2000
        \<and> block_store s' = block_store lifted_2000
        \<and> next_block s' = 3
        \<and> edge_to_dest_block s' = Map.empty
        \<and> addr_to_func s' = [0x2000 \<mapsto> ''sub_2000_v_0'']
    | Inl e \<Rightarrow> False)"
  using reachable_lifted_2000
    LiftFunction_already_lifted [OF reachable_lifted_2000, of "toy_decl 0x2000"
      "\<lparr>function_type = void_function_type, blocks = [2], fn_attrs = {NoInline},
        linkage = ExternalLinkage, calling_conv = 0\<rparr>" 0]
  by (simp add: lifted_2000_facts sub_name_toy isDeclaration_def LiftFunction_reset_def)

end
